(* ===== verification/Base.thy ===== *)
theory Base
  imports Main "HOL-Library.Word" "HOL-Library.Sublist"
begin

text \<open>
  The prelude of the development: what every component shares.

  \<^item> \<open>exn\<close> and \<open>'a res\<close>: how a C++ call can end without a value (a thrown exception, a signed
    overflow, a loop that never returns), and the two monads that thread it: \<open>rbind\<close> for
    pure code, \<open>abind\<close> for code that also changes a state.
  \<^item> the parts of the standard library the sources call on byte strings: \<open>std::isspace\<close>,
    \<open>find\<close>, \<open>rfind\<close>, \<open>substr\<close>, \<open>std::stoi\<close>, \<open>std::stoll\<close> and \<open>std::to_string\<close>.
    A \<open>std::string\<close> is a HOL \<open>string\<close>: a list of 8-bit characters, indexed from 0.
  \<^item> \<open>sysenv\<close>: the process environment (the two clocks and the OpenSSL random source), as the
    sequence of the values it will return.
  \<^item> \<open>at\<close>: the relation ``the text from position \<open>pos\<close> on is \<open>s\<close>'', with which every scanner
    that works by index is reasoned about.
\<close>

section \<open>Collections of facts\<close>

named_theorems scan_simps "how the index based scanners move over a known suffix"
named_theorems monad_simps "unfolding of the result and state monads"

section \<open>Results and effects\<close>

text \<open>
  \<open>Undefined_behaviour\<close> stands for a signed integer overflow, \<open>Diverges\<close> for a call that
  never returns. Neither is a C++ exception: no \<open>catch\<close> of the sources sees them.
\<close>

datatype exn =
    Runtime_error string
  | Invalid_argument string
  | Out_of_range string
  | Foreign_exception string
  | Undefined_behaviour
  | Diverges

type_synonym 'a res = "exn + 'a"
type_synonym ('w, 'a) act = "'w \<Rightarrow> 'a res \<times> 'w"

definition rbind :: "'a res \<Rightarrow> ('a \<Rightarrow> 'b res) \<Rightarrow> 'b res" where
  "rbind m f = (case m of Inl e \<Rightarrow> Inl e | Inr a \<Rightarrow> f a)"

definition aret :: "'a \<Rightarrow> ('w, 'a) act" where
  "aret a w = (Inr a, w)"

definition athrow :: "exn \<Rightarrow> ('w, 'a) act" where
  "athrow e w = (Inl e, w)"

definition alift :: "'a res \<Rightarrow> ('w, 'a) act" where
  "alift r w = (r, w)"

definition abind :: "('w, 'a) act \<Rightarrow> ('a \<Rightarrow> ('w, 'b) act) \<Rightarrow> ('w, 'b) act" where
  "abind m f w = (case m w of (r, w') \<Rightarrow> (case r of Inl e \<Rightarrow> (Inl e, w') | Inr a \<Rightarrow> f a w'))"

text \<open>An action on one component of a pair of states leaves the other component alone.\<close>

definition on_fst :: "('a, 'r) act \<Rightarrow> ('a \<times> 'b, 'r) act" where
  "on_fst m p = (case p of (a, b) \<Rightarrow> (case m a of (r, a') \<Rightarrow> (r, (a', b))))"

definition on_snd :: "('b, 'r) act \<Rightarrow> ('a \<times> 'b, 'r) act" where
  "on_snd m p = (case p of (a, b) \<Rightarrow> (case m b of (r, b') \<Rightarrow> (r, (a, b'))))"

lemma rbind_Inl [simp, monad_simps]: "rbind (Inl e) f = Inl e"
  by (simp add: rbind_def)

lemma rbind_Inr [simp, monad_simps]: "rbind (Inr a) f = f a"
  by (simp add: rbind_def)

lemma rbind_eq_Inr [simp]: "rbind m f = Inr b \<longleftrightarrow> (\<exists>a. m = Inr a \<and> f a = Inr b)"
  by (cases m) auto

lemma rbind_cong [fundef_cong]:
  "m = m' \<Longrightarrow> (\<And>a. m' = Inr a \<Longrightarrow> f a = f' a) \<Longrightarrow> rbind m f = rbind m' f'"
  by (cases m') (auto simp: rbind_def)

lemma abind_Inl [monad_simps]: "m w = (Inl e, w') \<Longrightarrow> abind m f w = (Inl e, w')"
  by (simp add: abind_def)

lemma abind_Inr [monad_simps]: "m w = (Inr a, w') \<Longrightarrow> abind m f w = f a w'"
  by (simp add: abind_def)

lemma abind_aret [simp, monad_simps]: "abind (aret a) f = f a"
  by (rule ext) (simp add: abind_def aret_def)

lemma abind_athrow [simp, monad_simps]: "abind (athrow e) f = athrow e"
  by (rule ext) (simp add: abind_def athrow_def)

lemma abind_eq_Inr:
  "abind m f w = (Inr b, w'') \<longleftrightarrow> (\<exists>a w'. m w = (Inr a, w') \<and> f a w' = (Inr b, w''))"
  by (auto simp: abind_def split: prod.splits sum.splits)

lemma alift_eq [simp, monad_simps]: "alift r w = (r, w)"
  by (simp add: alift_def)

lemma aret_eq [simp, monad_simps]: "aret a w = (Inr a, w)"
  by (simp add: aret_def)

lemma athrow_eq [simp, monad_simps]: "athrow e w = (Inl e, w)"
  by (simp add: athrow_def)

lemma abind_alift [monad_simps]:
  "abind (alift r) f w = (case r of Inl e \<Rightarrow> (Inl e, w) | Inr a \<Rightarrow> f a w)"
  by (simp add: abind_def split: sum.splits)

lemma abind_assoc: "abind (abind m f) g = abind m (\<lambda>x. abind (f x) g)"
  by (auto simp: abind_def fun_eq_iff split: prod.splits sum.splits)

lemma on_fst_abind: "on_fst (abind m f) = abind (on_fst m) (\<lambda>x. on_fst (f x))"
  by (auto simp: abind_def on_fst_def fun_eq_iff split: prod.splits sum.splits)

lemma on_fst_aret [simp]: "on_fst (aret a) = aret a"
  by (auto simp: on_fst_def fun_eq_iff)

lemma on_fst_keeps: "on_fst m w = (r, w') \<Longrightarrow> snd w' = snd w \<and> m (fst w) = (r, fst w')"
  by (auto simp: on_fst_def split: prod.splits)

lemma on_snd_keeps: "on_snd m w = (r, w') \<Longrightarrow> fst w' = fst w \<and> m (snd w) = (r, snd w')"
  by (auto simp: on_snd_def split: prod.splits)

section \<open>Characters\<close>

abbreviation DQ :: char where "DQ \<equiv> CHR 0x22"
abbreviation BSL :: char where "BSL \<equiv> CHR 0x5C"

abbreviation code :: "char \<Rightarrow> nat" where "code c \<equiv> of_char c"

lemma code_bound: "code c < 256"
  by simp

text \<open>\<open>std::isspace\<close> in the C locale: space, and the codes 9 to 13.\<close>

definition isspace :: "char \<Rightarrow> bool" where
  "isspace c \<longleftrightarrow> c = CHR '' '' \<or> (9 \<le> code c \<and> code c \<le> 13)"

definition is_digit :: "char \<Rightarrow> bool" where
  "is_digit c \<longleftrightarrow> 48 \<le> code c \<and> code c \<le> 57"

definition is_upper_az :: "char \<Rightarrow> bool" where
  "is_upper_az c \<longleftrightarrow> 65 \<le> code c \<and> code c \<le> 90"

definition is_lower_az :: "char \<Rightarrow> bool" where
  "is_lower_az c \<longleftrightarrow> 97 \<le> code c \<and> code c \<le> 122"

definition is_alnum :: "char \<Rightarrow> bool" where
  "is_alnum c \<longleftrightarrow> is_upper_az c \<or> is_lower_az c \<or> is_digit c"

lemmas char_class_defs = isspace_def is_digit_def is_upper_az_def is_lower_az_def is_alnum_def

lemma char_eqI: "code c = code d \<Longrightarrow> c = d"
  by (metis char_of_char)

lemma code_char_of [simp]: "n < 256 \<Longrightarrow> code (char_of (n :: nat)) = n"
  by simp


section \<open>Byte strings by position\<close>

text \<open>
  \<open>at text pos s\<close>: position \<open>pos\<close> is inside \<open>text\<close> (or at its end) and \<open>s\<close> is what is left
  from there on. The scanners of the sources move \<open>pos\<close> forward over a fixed \<open>text\<close>.
\<close>

definition at :: "string \<Rightarrow> nat \<Rightarrow> string \<Rightarrow> bool" where
  "at tx pos s \<longleftrightarrow> pos \<le> length tx \<and> drop pos tx = s"

lemma at_zero [simp]: "at tx 0 s \<longleftrightarrow> s = tx"
  by (auto simp: at_def)

lemma at_append: "at tx pos (u @ v) \<Longrightarrow> at tx (pos + length u) v"
proof -
  assume a: "at tx pos (u @ v)"
  then have "drop (length u) (drop pos tx) = v" by (simp add: at_def)
  moreover have "pos + length u \<le> length tx" using a
    by (metis at_def le_add_diff_inverse length_append length_drop nat_add_left_cancel_le le_add1)
  ultimately show ?thesis by (simp add: at_def add.commute)
qed

lemma at_Cons: "at tx pos (c # s) \<Longrightarrow> at tx (Suc pos) s"
  using at_append [of tx pos "[c]" s] by simp

lemma at_length: "at tx pos s \<Longrightarrow> length tx = pos + length s"
  by (auto simp: at_def)

lemma at_nth: "at tx pos (c # s) \<Longrightarrow> tx ! pos = c"
  by (simp add: at_def nth_via_drop)

lemma at_less: "at tx pos (c # s) \<Longrightarrow> pos < length tx"
  by (auto dest: at_length)

lemma at_Nil: "at tx pos [] \<longleftrightarrow> pos = length tx"
  by (auto simp: at_def)

lemma at_middle [intro]: "at (pre @ s) (length pre) s"
  by (simp add: at_def)

lemma at_drop: "pos \<le> length tx \<Longrightarrow> at tx pos (drop pos tx)"
  by (simp add: at_def)

lemmas at_step = at_less at_nth at_Cons

text \<open>\<open>substr(pos, n)\<close>, for a \<open>pos\<close> inside the string (the callers keep it there).\<close>

definition substr :: "string \<Rightarrow> nat \<Rightarrow> nat \<Rightarrow> string" where
  "substr s pos n = take n (drop pos s)"

lemma substr_at: "at tx pos (u @ v) \<Longrightarrow> substr tx pos (length u) = u"
  by (simp add: substr_def at_def)

lemma substr_at_rest: "at tx pos u \<Longrightarrow> length u \<le> n \<Longrightarrow> substr tx pos n = u"
  by (simp add: substr_def at_def)

text \<open>
  \<open>find_if P s pos\<close>: the first position from \<open>pos\<close> on whose character satisfies \<open>P\<close>, \<open>None\<close>
  for \<open>npos\<close>. \<open>find(c, pos)\<close> and \<open>find_first_of(set, pos)\<close> are instances.
\<close>

function find_if :: "(char \<Rightarrow> bool) \<Rightarrow> string \<Rightarrow> nat \<Rightarrow> nat option" where
  "find_if P s pos =
     (if pos < length s then (if P (s ! pos) then Some pos else find_if P s (Suc pos)) else None)"
  by pat_completeness auto
termination
  by (relation "measure (\<lambda>(P, s, pos). length s - pos)") auto

declare find_if.simps [simp del]

definition find_ch :: "char \<Rightarrow> string \<Rightarrow> nat \<Rightarrow> nat option" where
  "find_ch c s pos = find_if (\<lambda>d. d = c) s pos"

text \<open>\<open>find(pat, pos)\<close> for a string pattern, and \<open>rfind(c)\<close>.\<close>

function find_str :: "string \<Rightarrow> string \<Rightarrow> nat \<Rightarrow> nat option" where
  "find_str pat s pos =
     (if pos + length pat \<le> length s then
        (if take (length pat) (drop pos s) = pat then Some pos else find_str pat s (Suc pos))
      else None)"
  by pat_completeness auto
termination
  by (relation "measure (\<lambda>(pat, s, pos). Suc (length s) - pos)") auto

declare find_str.simps [simp del]

fun rfind_from :: "char \<Rightarrow> string \<Rightarrow> nat \<Rightarrow> nat option" where
  "rfind_from c s 0 = None"
| "rfind_from c s (Suc n) = (if s ! n = c then Some n else rfind_from c s n)"

definition rfind_ch :: "char \<Rightarrow> string \<Rightarrow> nat option" where
  "rfind_ch c s = rfind_from c s (length s)"

text \<open>\<open>x == npos ? d : x\<close>\<close>

definition value_at :: "nat option \<Rightarrow> nat \<Rightarrow> nat" where
  "value_at x d = (case x of None \<Rightarrow> d | Some p \<Rightarrow> p)"

lemma value_at_simps [simp]: "value_at None d = d" "value_at (Some p) d = p"
  by (simp_all add: value_at_def)

lemma rfind_from_None: "(\<forall>i < n. s ! i \<noteq> c) \<Longrightarrow> rfind_from c s n = None"
  by (induction n) auto

lemma rfind_ch_none: "c \<notin> set s \<Longrightarrow> rfind_ch c s = None"
  unfolding rfind_ch_def by (rule rfind_from_None) (auto simp: in_set_conv_nth)

lemma rfind_from_last:
  "k < n \<Longrightarrow> s ! k = c \<Longrightarrow> (\<forall>i. k < i \<longrightarrow> i < n \<longrightarrow> s ! i \<noteq> c) \<Longrightarrow> rfind_from c s n = Some k"
proof (induction n)
  case (Suc n)
  then show ?case by (cases "k = n") auto
qed simp

lemma rfind_ch_found: "c \<notin> set v \<Longrightarrow> rfind_ch c (u @ c # v) = Some (length u)"
  unfolding rfind_ch_def
  by (rule rfind_from_last) (auto simp: nth_append nth_Cons in_set_conv_nth split: nat.splits)

lemma find_if_here [scan_simps]: "at s pos (c # t) \<Longrightarrow> P c \<Longrightarrow> find_if P s pos = Some pos"
  by (subst find_if.simps) (simp add: at_step)

lemma find_if_next: "at s pos (c # t) \<Longrightarrow> \<not> P c \<Longrightarrow> find_if P s pos = find_if P s (Suc pos)"
  by (subst find_if.simps) (simp add: at_step)

lemma find_if_end: "at s pos [] \<Longrightarrow> find_if P s pos = None"
  by (subst find_if.simps) (simp add: at_Nil)

lemma find_if_skip:
  "at s pos (u @ v) \<Longrightarrow> \<forall>c \<in> set u. \<not> P c \<Longrightarrow> find_if P s pos = find_if P s (pos + length u)"
proof (induction u arbitrary: pos)
  case Nil
  then show ?case by simp
next
  case (Cons c u)
  then have a: "at s pos (c # (u @ v))" and "at s (Suc pos) (u @ v)" by (auto dest: at_Cons)
  then have "find_if P s (Suc pos) = find_if P s (Suc pos + length u)" using Cons by auto
  then show ?case using find_if_next [OF a] Cons.prems by simp
qed

lemma find_if_found:
  assumes "at s pos (u @ c # v)" and "\<forall>d \<in> set u. \<not> P d" and "P c"
  shows "find_if P s pos = Some (pos + length u)"
  using find_if_skip [OF assms(1,2)] find_if_here [of s "pos + length u" c v P] assms
  by (auto dest: at_append)

lemma find_if_none:
  assumes "at s pos u" and "\<forall>d \<in> set u. \<not> P d"
  shows "find_if P s pos = None"
  using find_if_skip [of s pos u "[]" P] find_if_end [of s "pos + length u" P] assms
    at_append [of s pos u "[]"] by simp

lemma find_if_Some:
  "find_if P s pos = Some q \<Longrightarrow>
    pos \<le> q \<and> q < length s \<and> P (s ! q) \<and> (\<forall>i. pos \<le> i \<longrightarrow> i < q \<longrightarrow> \<not> P (s ! i))"
proof (induction P s pos rule: find_if.induct)
  case (1 P s pos)
  show ?case
  proof (cases "pos < length s \<and> \<not> P (s ! pos)")
    case True
    with 1 have "Suc pos \<le> q \<and> q < length s \<and> P (s ! q) \<and>
        (\<forall>i. Suc pos \<le> i \<longrightarrow> i < q \<longrightarrow> \<not> P (s ! i))"
      by (simp add: find_if.simps [of P s pos])
    with True show ?thesis by (metis Suc_leI Suc_leD le_neq_implies_less)
  next
    case False
    with "1.prems" show ?thesis by (auto simp: find_if.simps [of P s pos] split: if_splits)
  qed
qed

lemma find_ch_found:
  "at s pos (u @ c # v) \<Longrightarrow> c \<notin> set u \<Longrightarrow> find_ch c s pos = Some (pos + length u)"
  unfolding find_ch_def by (rule find_if_found) auto

lemma find_ch_none: "at s pos u \<Longrightarrow> c \<notin> set u \<Longrightarrow> find_ch c s pos = None"
  unfolding find_ch_def by (rule find_if_none) auto

lemma find_ch_Some:
  "find_ch c s pos = Some q \<Longrightarrow> pos \<le> q \<and> q < length s \<and> s ! q = c"
  unfolding find_ch_def by (auto dest: find_if_Some)

lemma find_str_first:
  assumes "pos \<le> q" and "at s q (pat @ v)"
    and "\<And>i. pos \<le> i \<Longrightarrow> i < q \<Longrightarrow> \<not> prefix pat (drop i s)"
  shows "find_str pat s pos = Some q"
  using assms
proof (induction pat s pos rule: find_str.induct)
  case (1 pat s pos)
  have len: "q + length pat \<le> length s" using "1.prems"(2) by (auto dest: at_length)
  have here: "take (length pat) (drop q s) = pat" using "1.prems"(2) by (auto simp: at_def)
  show ?case
  proof (cases "pos = q")
    case True
    with len here show ?thesis by (subst find_str.simps) simp
  next
    case False
    with "1.prems"(1) have lt: "pos < q" by simp
    with "1.prems"(3) have no: "take (length pat) (drop pos s) \<noteq> pat"
      by (metis order_refl take_is_prefix)
    have "find_str pat s (Suc pos) = Some q"
      using "1.IH" [OF _ no _ "1.prems"(2)] "1.prems"(3) len lt by simp
    with no len lt show ?thesis by (subst find_str.simps) simp
  qed
qed

lemma find_str_Some:
  "find_str pat s pos = Some q \<Longrightarrow>
    pos \<le> q \<and> q + length pat \<le> length s \<and> take (length pat) (drop q s) = pat"
proof (induction pat s pos rule: find_str.induct)
  case (1 pat s pos)
  show ?case
  proof (cases "pos + length pat \<le> length s \<and> take (length pat) (drop pos s) \<noteq> pat")
    case True
    with 1 show ?thesis by (auto simp: find_str.simps [of pat s pos])
  next
    case False
    with "1.prems" show ?thesis by (auto simp: find_str.simps [of pat s pos] split: if_splits)
  qed
qed

text \<open>
  The loop that three parsers of the sources share: walk over the parts of \<open>raw\<close> between
  separators and hand each non-empty part to \<open>step\<close>. With \<open>to_end\<close> the loop runs while
  \<open>start <= raw.size()\<close>, without it while \<open>start < raw.size()\<close>.
\<close>

function part_loop ::
  "char \<Rightarrow> bool \<Rightarrow> (string \<Rightarrow> 'a \<Rightarrow> 'a) \<Rightarrow> string \<Rightarrow> nat \<Rightarrow> 'a \<Rightarrow> 'a" where
  "part_loop sep to_end step raw start acc =
     (if start < length raw \<or> (to_end \<and> start = length raw) then
        (let e = find_ch sep raw start;
             part = substr raw start (value_at e (length raw) - start);
             acc' = (if part \<noteq> [] then step part acc else acc)
         in case e of
              None \<Rightarrow> acc'
            | Some p \<Rightarrow> part_loop sep to_end step raw (Suc p) acc')
      else acc)"
  by pat_completeness auto
termination
  by (relation "measure (\<lambda>(sep, b, step, raw, start, acc). Suc (length raw) - start)")
    (auto dest!: find_ch_Some [OF sym])

declare part_loop.simps [simp del]

definition do_part :: "(string \<Rightarrow> 'a \<Rightarrow> 'a) \<Rightarrow> string \<Rightarrow> 'a \<Rightarrow> 'a" where
  "do_part step part acc = (if part \<noteq> [] then step part acc else acc)"

lemma part_loop_next:
  assumes "at raw start (p @ sep # rest)" and "sep \<notin> set p"
  shows "part_loop sep b step raw start acc =
    part_loop sep b step raw (Suc (start + length p)) (do_part step p acc)"
proof -
  have "start < length raw" using at_length [OF assms(1)] by simp
  moreover have "find_ch sep raw start = Some (start + length p)" by (rule find_ch_found [OF assms])
  moreover have "substr raw start (length p) = p" by (rule substr_at [OF assms(1)])
  ultimately show ?thesis by (subst part_loop.simps) (simp add: Let_def do_part_def)
qed

lemma part_loop_last:
  assumes "at raw start p" and "sep \<notin> set p"
  shows "part_loop sep b step raw start acc = do_part step p acc"
proof -
  have "find_ch sep raw start = None" by (rule find_ch_none [OF assms])
  moreover have "substr raw start (length raw - start) = p"
    using substr_at_rest [OF assms(1)] at_length [OF assms(1)] by simp
  ultimately show ?thesis using at_length [OF assms(1)]
    by (cases p) (auto simp: part_loop.simps [of sep b step raw start] Let_def do_part_def)
qed

lemma part_loop_parts:
  assumes "at raw start (p @ concat (map (\<lambda>q. sep # q) ps))"
    and "sep \<notin> set p" and "\<forall>q \<in> set ps. sep \<notin> set q"
  shows "part_loop sep b step raw start acc = fold (do_part step) (p # ps) acc"
  using assms
proof (induction ps arbitrary: p start acc)
  case Nil
  then show ?case by (simp add: part_loop_last)
next
  case (Cons q ps)
  then have a: "at raw start (p @ sep # (q @ concat (map (\<lambda>q. sep # q) ps)))" by simp
  have rest: "at raw (Suc (start + length p)) (q @ concat (map (\<lambda>q. sep # q) ps))"
    by (rule at_Cons [OF at_append [OF a]])
  have "part_loop sep b step raw (Suc (start + length p)) (do_part step p acc) =
      fold (do_part step) (q # ps) (do_part step p acc)"
    by (rule Cons.IH [OF rest]) (use Cons.prems(3) in auto)
  with part_loop_next [OF a Cons.prems(2), of b step acc] show ?case by simp
qed

text \<open>A sequence of \<open>insert_or_assign\<close> calls: the last value of a key stays.\<close>

lemma fold_updates: "fold (\<lambda>kv m. m(fst kv \<mapsto> snd kv)) kvs m = m ++ map_of (rev kvs)"
  by (induction kvs arbitrary: m) (auto simp: map_add_def fun_eq_iff split: option.splits)

lemma fold_updates_empty: "fold (\<lambda>kv m. m(fst kv \<mapsto> snd kv)) kvs Map.empty = map_of (rev kvs)"
  by (simp add: fold_updates)

text \<open>\<open>while (!s.empty() && s.back() == c) s.pop_back();\<close>\<close>

function strip_back :: "char \<Rightarrow> string \<Rightarrow> string" where
  "strip_back c s = (if s \<noteq> [] \<and> last s = c then strip_back c (butlast s) else s)"
  by pat_completeness auto
termination
  by (relation "measure (\<lambda>(c, s). length s)") auto

declare strip_back.simps [simp del]

lemma strip_back_snoc [simp]: "strip_back c (s @ [c]) = strip_back c s"
  by (subst strip_back.simps) simp

lemma strip_back_stop: "s = [] \<or> last s \<noteq> c \<Longrightarrow> strip_back c s = s"
  by (subst strip_back.simps) auto

lemma strip_back_replicate [simp]: "strip_back c (s @ replicate n c) = strip_back c s"
proof (induction n)
  case (Suc n)
  have "s @ replicate (Suc n) c = (s @ replicate n c) @ [c]" by (simp add: replicate_append_same)
  then show ?case using Suc by (metis strip_back_snoc)
qed simp

lemma strip_back_last: "strip_back c s = [] \<or> last (strip_back c s) \<noteq> c"
proof (induction c s rule: strip_back.induct)
  case (1 c s)
  then show ?case by (cases "s \<noteq> [] \<and> last s = c") (auto simp: strip_back.simps [of c s])
qed

lemma strip_back_decomp: "\<exists>n. s = strip_back c s @ replicate n c"
proof (induction c s rule: strip_back.induct)
  case (1 c s)
  show ?case
  proof (cases "s \<noteq> [] \<and> last s = c")
    case True
    then obtain n where n: "butlast s = strip_back c s @ replicate n c"
      using 1 by (auto simp: strip_back.simps [of c s])
    have "s = butlast s @ [c]" using True by (metis append_butlast_last_id)
    then have "s = strip_back c s @ replicate (Suc n) c"
      using n by (metis append.assoc replicate_Suc replicate_append_same)
    then show ?thesis by blast
  next
    case False
    then have "s = strip_back c s @ replicate 0 c" by (subst strip_back.simps) auto
    then show ?thesis by blast
  qed
qed

section \<open>Decimal numbers\<close>

text \<open>
  \<open>std::stoi\<close> and \<open>std::stoll\<close>: leading white space, an optional sign and the longest run of
  digits; what follows the digits is ignored. No digits is \<open>std::invalid_argument\<close>, a value
  outside the width of the result \<open>std::out_of_range\<close>.
\<close>

definition digit_val :: "char \<Rightarrow> nat" where
  "digit_val c = code c - 48"

fun dec_val :: "nat \<Rightarrow> string \<Rightarrow> nat" where
  "dec_val acc [] = acc"
| "dec_val acc (c # cs) = dec_val (10 * acc + digit_val c) cs"

definition parse_int :: "string \<Rightarrow> int option" where
  "parse_int s =
     (let s1 = dropWhile isspace s;
          neg = (case s1 of c # _ \<Rightarrow> c = CHR ''-'' | [] \<Rightarrow> False);
          s2 = (case s1 of c # r \<Rightarrow> (if c = CHR ''-'' \<or> c = CHR ''+'' then r else s1) | [] \<Rightarrow> []);
          ds = takeWhile is_digit s2
      in if ds = [] then None
         else Some (if neg then - int (dec_val 0 ds) else int (dec_val 0 ds)))"

definition fits_int32 :: "int \<Rightarrow> bool" where
  "fits_int32 v \<longleftrightarrow> - (2 ^ 31) \<le> v \<and> v < 2 ^ 31"

definition fits_int64 :: "int \<Rightarrow> bool" where
  "fits_int64 v \<longleftrightarrow> - (2 ^ 63) \<le> v \<and> v < 2 ^ 63"

definition stoi :: "string \<Rightarrow> int res" where
  "stoi s = (case parse_int s of
       None \<Rightarrow> Inl (Invalid_argument ''stoi'')
     | Some v \<Rightarrow> if fits_int32 v then Inr v else Inl (Out_of_range ''stoi''))"

definition stoll :: "string \<Rightarrow> int res" where
  "stoll s = (case parse_int s of
       None \<Rightarrow> Inl (Invalid_argument ''stoll'')
     | Some v \<Rightarrow> if fits_int64 v then Inr v else Inl (Out_of_range ''stoll''))"

text \<open>A signed 64-bit addition: overflow is undefined behaviour.\<close>

definition add_int64 :: "int \<Rightarrow> int \<Rightarrow> int res" where
  "add_int64 a b = (if fits_int64 (a + b) then Inr (a + b) else Inl Undefined_behaviour)"

definition digit_char :: "nat \<Rightarrow> char" where
  "digit_char n = char_of (48 + n)"

fun to_string_nat :: "nat \<Rightarrow> string" where
  "to_string_nat n =
     (if n < 10 then [digit_char n] else to_string_nat (n div 10) @ [digit_char (n mod 10)])"

declare to_string_nat.simps [simp del]

definition to_string_int :: "int \<Rightarrow> string" where
  "to_string_int v = (if v < 0 then CHR ''-'' # to_string_nat (nat (- v)) else to_string_nat (nat v))"

lemma dec_val_append: "dec_val acc (u @ v) = dec_val (dec_val acc u) v"
  by (induction u arbitrary: acc) auto

lemma digit_char_digit: "n < 10 \<Longrightarrow> is_digit (digit_char n) \<and> digit_val (digit_char n) = n"
  by (simp add: digit_char_def is_digit_def digit_val_def)

lemma to_string_nat_digits: "\<forall>c \<in> set (to_string_nat n). is_digit c"
proof (induction n rule: to_string_nat.induct)
  case (1 n)
  then show ?case
    by (subst to_string_nat.simps) (auto simp: digit_char_digit)
qed

lemma to_string_nat_val: "dec_val 0 (to_string_nat n) = n"
proof (induction n rule: to_string_nat.induct)
  case (1 n)
  then show ?case
    by (subst to_string_nat.simps) (auto simp: digit_char_digit dec_val_append)
qed

lemma to_string_nat_nonempty: "to_string_nat n \<noteq> []"
  by (subst to_string_nat.simps) simp

lemma is_digit_plain: "is_digit c \<Longrightarrow> \<not> isspace c \<and> c \<noteq> CHR ''-'' \<and> c \<noteq> CHR ''+''"
  by (auto simp: char_class_defs)

lemma parse_int_digits:
  assumes "ds \<noteq> []" and "\<forall>c \<in> set ds. is_digit c" and "rest = [] \<or> \<not> is_digit (hd rest)"
  shows "parse_int (ds @ rest) = Some (int (dec_val 0 ds))"
    and "parse_int (CHR ''-'' # ds @ rest) = Some (- int (dec_val 0 ds))"
proof -
  obtain d ds' where ds: "ds = d # ds'" using assms(1) by (cases ds) auto
  then have d: "is_digit d" and d': "\<not> isspace d" "d \<noteq> CHR ''-''" "d \<noteq> CHR ''+''"
    using assms(2) is_digit_plain by auto
  have tw: "takeWhile is_digit (ds @ rest) = ds"
    using assms(2,3) by (cases rest) (auto simp: takeWhile_append)
  show "parse_int (ds @ rest) = Some (int (dec_val 0 ds))"
    using d d' tw by (simp add: parse_int_def Let_def ds)
  show "parse_int (CHR ''-'' # ds @ rest) = Some (- int (dec_val 0 ds))"
    using assms(1) tw by (simp add: parse_int_def Let_def isspace_def)
qed

lemma parse_int_to_string [simp]:
  "rest = [] \<or> \<not> is_digit (hd rest) \<Longrightarrow> parse_int (to_string_int v @ rest) = Some v"
  using parse_int_digits [OF to_string_nat_nonempty to_string_nat_digits, of rest]
  by (auto simp: to_string_int_def to_string_nat_val)

lemma stoi_to_string: "fits_int32 v \<Longrightarrow> stoi (to_string_int v) = Inr v"
  using parse_int_to_string [of "[]" v] by (simp add: stoi_def)

lemma stoll_to_string: "fits_int64 v \<Longrightarrow> stoll (to_string_int v) = Inr v"
  using parse_int_to_string [of "[]" v] by (simp add: stoll_def)

section \<open>The process environment\<close>

text \<open>
  What the library reads from outside: \<open>std::chrono::steady_clock\<close> (in nanoseconds, the tick of
  the common standard libraries), \<open>std::chrono::system_clock\<close> (in seconds since the epoch) and
  \<open>RAND_bytes\<close>. The n-th reading is the n-th value of a sequence; nothing is assumed of the
  sequences here. \<open>rand_bytes i n\<close> is what the i-th call, asked for \<open>n\<close> bytes, fills in, and
  \<open>None\<close> when it does not return 1.
\<close>

record sysenv =
  steady_ticks :: "nat \<Rightarrow> int"
  steady_pos :: nat
  wall_secs :: "nat \<Rightarrow> int"
  wall_pos :: nat
  rand_bytes :: "nat \<Rightarrow> nat \<Rightarrow> string option"
  rand_pos :: nat

definition steady_now :: "(sysenv, int) act" where
  "steady_now s = (Inr (steady_ticks s (steady_pos s)), s\<lparr>steady_pos := Suc (steady_pos s)\<rparr>)"

definition system_now :: "(sysenv, int) act" where
  "system_now s = (Inr (wall_secs s (wall_pos s)), s\<lparr>wall_pos := Suc (wall_pos s)\<rparr>)"

definition RAND_bytes :: "nat \<Rightarrow> (sysenv, string option) act" where
  "RAND_bytes n s = (Inr (rand_bytes s (rand_pos s) n), s\<lparr>rand_pos := Suc (rand_pos s)\<rparr>)"

text \<open>
  A \<open>time_point\<close> plus a number of seconds: the seconds become nanoseconds, and both the
  multiplication and the addition are signed 64-bit.
\<close>

definition steady_add :: "int \<Rightarrow> int \<Rightarrow> int res" where
  "steady_add t secs =
     (if fits_int64 (secs * 10 ^ 9) then add_int64 t (secs * 10 ^ 9) else Inl Undefined_behaviour)"

text \<open>
  The documented behaviour of the random source: a successful call fills the whole buffer.
\<close>

definition rand_fills :: "sysenv \<Rightarrow> bool" where
  "rand_fills s \<longleftrightarrow> (\<forall>i n bs. rand_bytes s i n = Some bs \<longrightarrow> length bs = n)"

text \<open>The documented behaviour of the steady clock: it never goes back.\<close>

definition steady_monotone :: "sysenv \<Rightarrow> bool" where
  "steady_monotone s \<longleftrightarrow> (\<forall>i j. i \<le> j \<longrightarrow> steady_ticks s i \<le> steady_ticks s j)"

lemma add_int64_Inr: "add_int64 a b = Inr c \<longleftrightarrow> c = a + b \<and> fits_int64 (a + b)"
  by (auto simp: add_int64_def)

lemma steady_add_Inr: "steady_add t secs = Inr e \<Longrightarrow> e = t + secs * 10 ^ 9"
  by (auto simp: steady_add_def add_int64_def split: if_splits)

end
