(* ===== verification/UrlEncode.thy ===== *)
theory UrlEncode
  imports Base
begin

text \<open>
  \<open>utils/url_encode.hpp\<close>: percent encoding and decoding, and what the components that build
  forms, cookies and redirect URLs rely on: decoding undoes encoding, and an encoded string is
  made of unreserved characters and \<open>%\<close> only, so it can never close the field it stands in.
\<close>

section \<open>The code\<close>

definition should_encode :: "char \<Rightarrow> bool" where
  "should_encode c \<longleftrightarrow>
     \<not> (is_upper_az c \<or> is_lower_az c \<or> is_digit c \<or>
        c = CHR ''-'' \<or> c = CHR ''_'' \<or> c = CHR ''.'' \<or> c = CHR ''~'')"

text \<open>\<open>std::hex\<close> prints lower case digits.\<close>

definition hex_digit :: "nat \<Rightarrow> char" where
  "hex_digit n = (if n < 10 then char_of (48 + n) else char_of (87 + n))"

text \<open>\<open>setw(2)\<close> with fill \<open>'0'\<close> and \<open>std::hex\<close>: the two hexadecimal digits of a byte.\<close>

fun url_encode :: "string \<Rightarrow> string" where
  "url_encode [] = []"
| "url_encode (c # cs) =
     (if should_encode c
      then CHR ''%'' # hex_digit (code c div 16) # hex_digit (code c mod 16) # url_encode cs
      else c # url_encode cs)"

definition is_hex :: "char \<Rightarrow> bool" where
  "is_hex c \<longleftrightarrow> is_digit c \<or> (65 \<le> code c \<and> code c \<le> 70) \<or> (97 \<le> code c \<and> code c \<le> 102)"

definition hex_val :: "char \<Rightarrow> nat" where
  "hex_val c = (if is_digit c then code c - 48 else if code c \<le> 70 then code c - 55 else code c - 87)"

fun hex_num :: "nat \<Rightarrow> string \<Rightarrow> nat" where
  "hex_num acc [] = acc"
| "hex_num acc (c # cs) = hex_num (16 * acc + hex_val c) cs"

text \<open>
  \<open>hex_stream >> std::hex >> ch\<close> on a short string: white space is skipped, a sign and a \<open>0x\<close>
  prefix are accepted, and the extraction succeeds when at least one hexadecimal digit follows.
  Characters after the digits stay in the stream and do not make it fail.
\<close>

definition hex_extract :: "string \<Rightarrow> int option" where
  "hex_extract s =
     (let s1 = dropWhile isspace s;
          neg = (case s1 of c # _ \<Rightarrow> c = CHR ''-'' | [] \<Rightarrow> False);
          s2 = (case s1 of c # r \<Rightarrow> (if c = CHR ''-'' \<or> c = CHR ''+'' then r else s1) | [] \<Rightarrow> []);
          s3 = (case s2 of z # x # r \<Rightarrow>
                  (if z = CHR ''0'' \<and> (x = CHR ''x'' \<or> x = CHR ''X'') then r else s2)
                | _ \<Rightarrow> s2);
          ds = takeWhile is_hex s3
      in if ds = [] then None
         else Some (if neg then - int (hex_num 0 ds) else int (hex_num 0 ds)))"

text \<open>\<open>static_cast<char>\<close> of an \<open>int\<close> keeps the low eight bits.\<close>

definition to_char :: "int \<Rightarrow> char" where
  "to_char v = char_of (nat (v mod 256))"

fun url_decode :: "string \<Rightarrow> string" where
  "url_decode [] = []"
| "url_decode (c # cs) =
     (if c = CHR ''%'' then
        (case cs of
           a # b # rest \<Rightarrow>
             (case hex_extract [a, b] of
                Some v \<Rightarrow> to_char v # url_decode rest
              | None \<Rightarrow> c # url_decode cs)
         | _ \<Rightarrow> c # url_decode cs)
      else c # url_decode cs)"

section \<open>Properties\<close>

definition unreserved :: "char \<Rightarrow> bool" where
  "unreserved c \<longleftrightarrow> \<not> should_encode c"

lemma unreserved_iff:
  "unreserved c \<longleftrightarrow> is_alnum c \<or> c \<in> set ''-_.~''"
  by (auto simp: unreserved_def should_encode_def is_alnum_def)

lemma hex_digit_is_hex: "n < 16 \<Longrightarrow> is_hex (hex_digit n) \<and> hex_val (hex_digit n) = n"
  by (auto simp: hex_digit_def is_hex_def hex_val_def is_digit_def)

lemma hex_digit_plain:
  assumes "n < 16"
  shows "\<not> isspace (hex_digit n)" "hex_digit n \<notin> set ''-+xX%''" "is_alnum (hex_digit n)"
proof -
  have c: "code (hex_digit n) = (if n < 10 then 48 + n else 87 + n)"
    using assms by (simp add: hex_digit_def)
  have "d \<noteq> hex_digit n" if "code d \<noteq> code (hex_digit n)" for d using that by auto
  then show "hex_digit n \<notin> set ''-+xX%''" using assms c by (auto split: if_splits)
  show "\<not> isspace (hex_digit n)" using assms c by (auto simp: isspace_def split: if_splits)
  show "is_alnum (hex_digit n)" using assms c by (auto simp: char_class_defs)
qed

lemma hex_extract_digits:
  assumes "m < 16" and "n < 16"
  shows "hex_extract [hex_digit m, hex_digit n] = Some (int (16 * m + n))"
  using hex_digit_is_hex [OF assms(1)] hex_digit_is_hex [OF assms(2)]
    hex_digit_plain [OF assms(1)] hex_digit_plain [OF assms(2)]
  by (simp add: hex_extract_def Let_def)

lemma to_char_code [simp]: "to_char (int (code c)) = c"
  by (simp add: to_char_def flip: zmod_int)

lemma nibbles [simp]: "code c div 16 < 16" "code c mod 16 < 16"
  using code_bound [of c] by (simp_all add: div_less_iff_less_mult)

lemma url_decode_encode: "url_decode (url_encode s @ t) = s @ url_decode t"
proof (induction s)
  case Nil
  then show ?case by simp
next
  case (Cons c s)
  have "hex_extract [hex_digit (code c div 16), hex_digit (code c mod 16)] = Some (int (code c))"
    by (subst hex_extract_digits) auto
  moreover have "c \<noteq> CHR ''%''" if "\<not> should_encode c" using that by (auto simp: should_encode_def char_class_defs)
  ultimately show ?case using Cons by simp
qed

lemma url_encode_chars: "c \<in> set (url_encode s) \<Longrightarrow> unreserved c \<or> c = CHR ''%''"
proof (induction s)
  case (Cons d s)
  have "unreserved (hex_digit (code d div 16))" "unreserved (hex_digit (code d mod 16))"
    using hex_digit_plain by (simp_all add: unreserved_iff)
  with Cons show ?case by (auto simp: unreserved_def split: if_splits)
qed simp

lemma url_encode_id: "(\<forall>c \<in> set s. unreserved c) \<Longrightarrow> url_encode s = s"
  by (induction s) (auto simp: unreserved_def)

lemma url_encode_append: "url_encode (s @ t) = url_encode s @ url_encode t"
  by (induction s) auto

lemma url_encode_eq_Nil [simp]: "url_encode s = [] \<longleftrightarrow> s = []"
  by (cases s) auto

lemma url_decode_encode_id [simp]: "url_decode (url_encode s) = s"
  using url_decode_encode [of s "[]"] by simp

text \<open>The characters that delimit fields never occur in an encoded string.\<close>

lemma url_encode_safe:
  "c \<in> set (url_encode s) \<Longrightarrow> is_alnum c \<or> c \<in> set ''%-_.~''"
  by (auto dest!: url_encode_chars simp: unreserved_iff)

lemma url_encode_not_in:
  assumes "\<not> is_alnum c" and "c \<notin> set ''%-_.~''"
  shows "c \<notin> set (url_encode s)"
  using assms url_encode_safe by blast

lemma url_encode_no_delims [simp]:
  "CHR ''&'' \<notin> set (url_encode s)" "CHR ''='' \<notin> set (url_encode s)"
  "CHR '';'' \<notin> set (url_encode s)" "CHR ''+'' \<notin> set (url_encode s)"
  "CHR ''/'' \<notin> set (url_encode s)" "CHR ''?'' \<notin> set (url_encode s)"
  by (rule url_encode_not_in; simp add: char_class_defs)+

lemma url_encode_no_space: "c \<in> set (url_encode s) \<Longrightarrow> \<not> isspace c"
  by (drule url_encode_safe) (auto simp: char_class_defs)

end
