(* ===== verification/JsonUtils.thy ===== *)
theory JsonUtils
  imports Base
begin

text \<open>
  \<open>keycloak/detail/json_utils.hpp\<close>: the library's own JSON reader. It never builds a tree: it
  scans a text by position, finds a quoted key, and cuts out the text of the value behind the
  next colon. The definitions keep the positions of the code.

  \<open>skip_json_value\<close> contains loops that need not end, so it is a partial function
  (\<open>jskip\<close>, \<open>None\<close> for not returning); every reader built on it returns a \<open>res\<close>, with
  \<open>Inl Diverges\<close> for a call that never returns. The depth of the C++ call stack is not
  modelled.
\<close>

section \<open>Skipping white space, strings and values\<close>

function skip_ws :: "string \<Rightarrow> nat \<Rightarrow> nat" where
  "skip_ws tx pos =
     (if pos < length tx \<and> isspace (tx ! pos) then skip_ws tx (Suc pos) else pos)"
  by pat_completeness auto
termination
  by (relation "measure (\<lambda>(tx, pos). length tx - pos)") auto

text \<open>The loop of \<open>skip_json_string\<close> behind the opening quote.\<close>

function skip_string_loop :: "string \<Rightarrow> nat \<Rightarrow> bool \<Rightarrow> nat" where
  "skip_string_loop tx pos escaped =
     (if pos < length tx then
        (let ch = tx ! pos in
         if escaped then skip_string_loop tx (Suc pos) False
         else if ch = BSL then skip_string_loop tx (Suc pos) True
         else if ch = DQ then Suc pos
         else skip_string_loop tx (Suc pos) False)
      else length tx)"
  by pat_completeness auto
termination
  by (relation "measure (\<lambda>(tx, pos, escaped). length tx - pos)") auto

definition skip_json_string :: "string \<Rightarrow> nat \<Rightarrow> nat" where
  "skip_json_string tx pos =
     (if length tx \<le> pos \<or> tx ! pos \<noteq> DQ then pos
      else skip_string_loop tx (Suc pos) False)"

text \<open>The last loop of \<open>skip_json_value\<close>: a number or a literal runs up to a delimiter.\<close>

function skip_scalar :: "string \<Rightarrow> nat \<Rightarrow> nat" where
  "skip_scalar tx pos =
     (if pos < length tx then
        (if tx ! pos = CHR '','' \<or> tx ! pos = CHR ''}'' \<or> tx ! pos = CHR '']'' then pos
         else skip_scalar tx (Suc pos))
      else pos)"
  by pat_completeness auto
termination
  by (relation "measure (\<lambda>(tx, pos). length tx - pos)") auto

declare skip_ws.simps [simp del] skip_string_loop.simps [simp del] skip_scalar.simps [simp del]

text \<open>
  \<open>skip_json_value\<close> and the bodies of its two inner loops, as one function: \<open>JValue\<close> is the
  entry of the function, \<open>JObject\<close> and \<open>JArray\<close> are the heads of the loops that run behind
  an opening brace and an opening bracket.
\<close>

datatype jmode = JValue | JObject | JArray

partial_function (option) jskip :: "jmode \<Rightarrow> string \<Rightarrow> nat \<Rightarrow> nat option" where
  "jskip mode tx pos0 =
     (case mode of
        JValue \<Rightarrow>
          (let pos = skip_ws tx pos0 in
           if length tx \<le> pos then Some pos
           else if tx ! pos = DQ then Some (skip_json_string tx pos)
           else if tx ! pos = CHR ''{'' then jskip JObject tx (Suc pos)
           else if tx ! pos = CHR ''['' then jskip JArray tx (Suc pos)
           else Some (skip_scalar tx pos))
      | JObject \<Rightarrow>
          (if pos0 < length tx then
             (let pos = skip_ws tx pos0 in
              if pos < length tx \<and> tx ! pos = CHR ''}'' then Some (Suc pos)
              else
                (let pos2 = skip_ws tx (skip_json_string tx pos);
                     pos3 = (if pos2 < length tx \<and> tx ! pos2 = CHR '':'' then Suc pos2 else pos2)
                 in Option.bind (jskip JValue tx pos3) (\<lambda>pos4.
                      (let pos5 = skip_ws tx pos4 in
                       if pos5 < length tx \<and> tx ! pos5 = CHR '','' then jskip JObject tx (Suc pos5)
                       else if pos5 < length tx \<and> tx ! pos5 = CHR ''}'' then Some (Suc pos5)
                       else jskip JObject tx pos5))))
           else Some (length tx))
      | JArray \<Rightarrow>
          (if pos0 < length tx then
             (let pos = skip_ws tx pos0 in
              if pos < length tx \<and> tx ! pos = CHR '']'' then Some (Suc pos)
              else
                Option.bind (jskip JValue tx pos) (\<lambda>pos2.
                  (let pos3 = skip_ws tx pos2 in
                   if pos3 < length tx \<and> tx ! pos3 = CHR '','' then jskip JArray tx (Suc pos3)
                   else if pos3 < length tx \<and> tx ! pos3 = CHR '']'' then Some (Suc pos3)
                   else jskip JArray tx pos3)))
           else Some (length tx)))"

definition skip_json_value :: "string \<Rightarrow> nat \<Rightarrow> nat res" where
  "skip_json_value tx pos = (case jskip JValue tx pos of None \<Rightarrow> Inl Diverges | Some p \<Rightarrow> Inr p)"

section \<open>Facts about the skipping functions\<close>

lemma skip_ws_end [simp]: "length tx \<le> pos \<Longrightarrow> skip_ws tx pos = pos"
  by (subst skip_ws.simps) simp

lemma skip_scalar_end [simp]: "length tx \<le> pos \<Longrightarrow> skip_scalar tx pos = pos"
  by (subst skip_scalar.simps) simp

lemma skip_ws_ge: "pos \<le> skip_ws tx pos"
proof (induction tx pos rule: skip_ws.induct)
  case (1 tx pos)
  then show ?case by (cases "pos < length tx \<and> isspace (tx ! pos)")
      (auto simp: skip_ws.simps [of tx pos])
qed

lemma skip_ws_le: "pos \<le> length tx \<Longrightarrow> skip_ws tx pos \<le> length tx"
proof (induction tx pos rule: skip_ws.induct)
  case (1 tx pos)
  then show ?case by (cases "pos < length tx \<and> isspace (tx ! pos)")
      (auto simp: skip_ws.simps [of tx pos])
qed

lemma skip_ws_stop:
  "skip_ws tx pos < length tx \<Longrightarrow> \<not> isspace (tx ! skip_ws tx pos)"
proof (induction tx pos rule: skip_ws.induct)
  case (1 tx pos)
  then show ?case by (cases "pos < length tx \<and> isspace (tx ! pos)")
      (auto simp: skip_ws.simps [of tx pos])
qed

lemma skip_string_loop_bounds:
  "pos \<le> length tx \<Longrightarrow>
    pos \<le> skip_string_loop tx pos esc \<and> skip_string_loop tx pos esc \<le> length tx"
proof (induction tx pos esc rule: skip_string_loop.induct)
  case (1 tx pos esc)
  note un = skip_string_loop.simps [of tx pos esc]
  show ?case
  proof (cases "pos < length tx")
    case True
    have T: "\<not> esc \<and> tx ! pos = BSL \<Longrightarrow> Suc pos \<le> skip_string_loop tx (Suc pos) True \<and>
        skip_string_loop tx (Suc pos) True \<le> length tx"
      using 1 True by auto
    have F: "esc \<or> tx ! pos \<noteq> BSL \<and> tx ! pos \<noteq> DQ \<Longrightarrow> Suc pos \<le> skip_string_loop tx (Suc pos) False \<and>
        skip_string_loop tx (Suc pos) False \<le> length tx"
      using 1 True by (cases esc) auto
    from True T F show ?thesis by (auto simp: un Let_def)
  next
    case False
    with "1.prems" show ?thesis by (auto simp: skip_string_loop.simps)
  qed
qed

lemma skip_json_string_ge: "pos \<le> skip_json_string tx pos"
  using skip_string_loop_bounds [of "Suc pos" tx False] by (auto simp: skip_json_string_def)

lemma skip_json_string_le: "pos \<le> length tx \<Longrightarrow> skip_json_string tx pos \<le> length tx"
  using skip_string_loop_bounds [of "Suc pos" tx False] by (auto simp: skip_json_string_def)

lemma skip_scalar_bounds:
  "pos \<le> skip_scalar tx pos \<and> (pos \<le> length tx \<longrightarrow> skip_scalar tx pos \<le> length tx)"
proof (induction tx pos rule: skip_scalar.induct)
  case (1 tx pos)
  then show ?case by (auto simp: skip_scalar.simps [of tx pos])
qed

lemmas skip_bounds = skip_ws_ge skip_ws_le skip_json_string_ge skip_json_string_le

text \<open>Whatever \<open>jskip\<close> returns lies between the start position and the end of the text.\<close>

lemma jskip_bounds:
  assumes "jskip m tx pos = Some q" and "pos \<le> length tx"
  shows "pos \<le> q \<and> q \<le> length tx"
proof -
  have "pos \<le> length tx \<longrightarrow> pos \<le> q \<and> q \<le> length tx"
  proof (rule jskip.raw_induct [where P = "\<lambda>m tx pos q. pos \<le> length tx \<longrightarrow> pos \<le> q \<and> q \<le> length tx",
        OF _ assms(1)], rule impI, goal_cases)
    case (1 f mode tx pos q)
    note IH = "1"(1) [rule_format] and eq = "1"(2) and le = "1"(3)
    have ws: "a \<le> p \<Longrightarrow> a \<le> skip_ws tx p" "p \<le> length tx \<Longrightarrow> skip_ws tx p \<le> length tx" for a p
      using skip_ws_ge [of p tx] by (simp_all add: skip_ws_le)
    have st: "a \<le> p \<Longrightarrow> a \<le> skip_json_string tx p" "p \<le> length tx \<Longrightarrow> skip_json_string tx p \<le> length tx"
      for a p using skip_json_string_ge [of p tx] by (simp_all add: skip_json_string_le)
    have sc: "a \<le> p \<Longrightarrow> a \<le> skip_scalar tx p" "p \<le> length tx \<Longrightarrow> skip_scalar tx p \<le> length tx" for a p
      using skip_scalar_bounds [of p tx] by auto
    have go: "a \<le> p \<Longrightarrow> p \<le> length tx \<Longrightarrow> f m tx p = Some r \<Longrightarrow> a \<le> r \<and> r \<le> length tx" for a m p r
      using IH [of m tx p r] by auto
    note mv = ws st sc
    show ?case
    proof (cases mode)
      case JValue
      define w where "w = skip_ws tx pos"
      have w: "pos \<le> w" "w \<le> length tx" using le mv by (auto simp: w_def)
      have "pos \<le> r \<and> r \<le> length tx" if "w < length tx" "f m tx (Suc w) = Some r" for m r
        using go [of pos "Suc w" m r] w that by simp
      moreover have "skip_json_string tx w \<le> length tx" "skip_scalar tx w \<le> length tx"
        "pos \<le> skip_json_string tx w" "pos \<le> skip_scalar tx w" using w mv by auto
      ultimately show ?thesis using eq w unfolding JValue
        by (auto simp: Let_def simp flip: w_def split: if_splits)
    next
      case JObject
      show ?thesis
      proof (cases "pos < length tx \<and> \<not> (skip_ws tx pos < length tx \<and> tx ! skip_ws tx pos = CHR ''}'')")
        case False
        moreover have "pos \<le> skip_ws tx pos" using mv by simp
        ultimately show ?thesis using eq le by (auto simp: JObject Let_def split: if_splits)
      next
        case True
        define p2 where "p2 = skip_ws tx (skip_json_string tx (skip_ws tx pos))"
        define p3 where "p3 = (if p2 < length tx \<and> tx ! p2 = CHR '':'' then Suc p2 else p2)"
        have b: "pos \<le> p3" "p3 \<le> length tx"
        proof -
          have "pos \<le> p2" "p2 \<le> length tx" unfolding p2_def using le mv by simp_all
          then show "pos \<le> p3" "p3 \<le> length tx" by (simp_all add: p3_def)
        qed
        have "Option.bind (f JValue tx p3) (\<lambda>p4. (let p5 = skip_ws tx p4 in
              if p5 < length tx \<and> tx ! p5 = CHR '','' then f JObject tx (Suc p5)
              else if p5 < length tx \<and> tx ! p5 = CHR ''}'' then Some (Suc p5)
              else f JObject tx p5)) = Some q"
          using eq True unfolding p3_def p2_def by (simp add: JObject Let_def split del: if_split)
        then obtain p4 where p4: "f JValue tx p3 = Some p4"
          and rest: "(let p5 = skip_ws tx p4 in
              if p5 < length tx \<and> tx ! p5 = CHR '','' then f JObject tx (Suc p5)
              else if p5 < length tx \<and> tx ! p5 = CHR ''}'' then Some (Suc p5)
              else f JObject tx p5) = Some q"
          by (auto simp: bind_eq_Some_conv)
        have "pos \<le> skip_ws tx p4" "skip_ws tx p4 \<le> length tx" using go [OF b p4] mv by auto
        with rest show ?thesis using go [of pos "skip_ws tx p4" JObject q]
            go [of pos "Suc (skip_ws tx p4)" JObject q]
          by (auto simp: Let_def split: if_splits)
      qed
    next
      case JArray
      show ?thesis
      proof (cases "pos < length tx \<and> \<not> (skip_ws tx pos < length tx \<and> tx ! skip_ws tx pos = CHR '']'')")
        case False
        moreover have "pos \<le> skip_ws tx pos" using mv by simp
        ultimately show ?thesis using eq le by (auto simp: JArray Let_def split: if_splits)
      next
        case True
        have b: "pos \<le> skip_ws tx pos" "skip_ws tx pos \<le> length tx" using le mv by auto
        have "Option.bind (f JValue tx (skip_ws tx pos)) (\<lambda>p2. (let p3 = skip_ws tx p2 in
              if p3 < length tx \<and> tx ! p3 = CHR '','' then f JArray tx (Suc p3)
              else if p3 < length tx \<and> tx ! p3 = CHR '']'' then Some (Suc p3)
              else f JArray tx p3)) = Some q"
          using eq True by (simp add: JArray Let_def split del: if_split)
        then obtain p2 where p2: "f JValue tx (skip_ws tx pos) = Some p2"
          and rest: "(let p3 = skip_ws tx p2 in
              if p3 < length tx \<and> tx ! p3 = CHR '','' then f JArray tx (Suc p3)
              else if p3 < length tx \<and> tx ! p3 = CHR '']'' then Some (Suc p3)
              else f JArray tx p3) = Some q"
          by (auto simp: bind_eq_Some_conv)
        have "pos \<le> skip_ws tx p2" "skip_ws tx p2 \<le> length tx" using go [OF b p2] mv by auto
        with rest show ?thesis using go [of pos "skip_ws tx p2" JArray q]
            go [of pos "Suc (skip_ws tx p2)" JArray q]
          by (auto simp: Let_def split: if_splits)
      qed
    qed
  qed
  with assms(2) show ?thesis by simp
qed

lemma skip_json_value_Inr:
  "skip_json_value tx pos = Inr q \<Longrightarrow> pos \<le> length tx \<Longrightarrow> pos \<le> q \<and> q \<le> length tx"
  by (auto simp: skip_json_value_def split: option.splits dest: jskip_bounds)

section \<open>Extraction by key\<close>

definition quoted :: "string \<Rightarrow> string" where
  "quoted key = DQ # key @ [DQ]"

lemma length_quoted [simp]: "length (quoted key) = length key + 2"
  by (simp add: quoted_def)

text \<open>The loop of \<open>extract_json_value\<close>; \<open>search_from\<close> is its state.\<close>

function extract_value_loop :: "string \<Rightarrow> string \<Rightarrow> nat \<Rightarrow> string option res" where
  "extract_value_loop json key search_from =
     (if search_from < length json then
        (case find_str (quoted key) json search_from of
           None \<Rightarrow> Inr None
         | Some key_pos \<Rightarrow>
             (case find_ch CHR '':'' json (key_pos + length (quoted key)) of
                None \<Rightarrow> Inr None
              | Some colon_pos \<Rightarrow>
                  (let value_begin = skip_ws json (Suc colon_pos) in
                   rbind (skip_json_value json value_begin) (\<lambda>value_end.
                     if value_begin < value_end
                     then Inr (Some (substr json value_begin (value_end - value_begin)))
                     else extract_value_loop json key (key_pos + length (quoted key))))))
      else Inr None)"
  by pat_completeness auto
termination
  by (relation "measure (\<lambda>(json, key, from). length json - from)") (auto dest!: find_str_Some)

declare extract_value_loop.simps [simp del]

definition extract_json_value :: "string \<Rightarrow> string \<Rightarrow> string option res" where
  "extract_json_value json key = extract_value_loop json key 0"

text \<open>\<open>parse_json_string\<close>: the loop over the characters between the quotes.\<close>

definition unescape_char :: "char \<Rightarrow> char" where
  "unescape_char ch =
     (if ch = CHR ''b'' then char_of (8 :: nat)
      else if ch = CHR ''f'' then char_of (12 :: nat)
      else if ch = CHR ''n'' then char_of (10 :: nat)
      else if ch = CHR ''r'' then char_of (13 :: nat)
      else if ch = CHR ''t'' then char_of (9 :: nat)
      else ch)"

fun unescape_loop :: "bool \<Rightarrow> string \<Rightarrow> string" where
  "unescape_loop escaped [] = []"
| "unescape_loop escaped (ch # cs) =
     (if escaped then unescape_char ch # unescape_loop False cs
      else if ch = BSL then unescape_loop True cs
      else ch # unescape_loop False cs)"

definition parse_json_string :: "string \<Rightarrow> string option" where
  "parse_json_string raw =
     (if length raw < 2 \<or> hd raw \<noteq> DQ \<or> last raw \<noteq> DQ then None
      else Some (unescape_loop False (substr raw 1 (length raw - 2))))"

definition extract_json_string :: "string \<Rightarrow> string \<Rightarrow> string option res" where
  "extract_json_string json key =
     rbind (extract_json_value json key) (\<lambda>raw.
       case raw of None \<Rightarrow> Inr None | Some r \<Rightarrow> Inr (parse_json_string r))"

text \<open>\<open>catch (...)\<close> turns the exceptions of \<open>std::stoi\<close> and \<open>std::stoll\<close> into \<open>nullopt\<close>.\<close>

definition catch_all :: "'a res \<Rightarrow> 'a option" where
  "catch_all r = (case r of Inl _ \<Rightarrow> None | Inr v \<Rightarrow> Some v)"

definition extract_json_int :: "string \<Rightarrow> string \<Rightarrow> int option res" where
  "extract_json_int json key =
     rbind (extract_json_value json key) (\<lambda>raw.
       case raw of None \<Rightarrow> Inr None | Some r \<Rightarrow> Inr (catch_all (stoi r)))"

definition extract_json_int64 :: "string \<Rightarrow> string \<Rightarrow> int option res" where
  "extract_json_int64 json key =
     rbind (extract_json_value json key) (\<lambda>raw.
       case raw of None \<Rightarrow> Inr None | Some r \<Rightarrow> Inr (catch_all (stoll r)))"

definition extract_json_bool :: "string \<Rightarrow> string \<Rightarrow> bool option res" where
  "extract_json_bool json key =
     rbind (extract_json_value json key) (\<lambda>raw.
       case raw of
         None \<Rightarrow> Inr None
       | Some r \<Rightarrow> Inr (if r = ''true'' then Some True
                       else if r = ''false'' then Some False else None))"

definition extract_json_object :: "string \<Rightarrow> string \<Rightarrow> string option res" where
  "extract_json_object json key =
     rbind (extract_json_value json key) (\<lambda>raw.
       case raw of
         None \<Rightarrow> Inr None
       | Some r \<Rightarrow> Inr (if r = [] \<or> hd r \<noteq> CHR ''{'' then None else Some r))"

definition extract_json_array :: "string \<Rightarrow> string \<Rightarrow> string option res" where
  "extract_json_array json key =
     rbind (extract_json_value json key) (\<lambda>raw.
       case raw of
         None \<Rightarrow> Inr None
       | Some r \<Rightarrow> Inr (if r = [] \<or> hd r \<noteq> CHR ''['' then None else Some r))"

section \<open>Arrays\<close>

function split_array_loop :: "string \<Rightarrow> nat \<Rightarrow> string list \<Rightarrow> string list res" where
  "split_array_loop array pos0 out =
     (if pos0 + 1 < length array then
        (let pos = skip_ws array pos0 in
         if length array - 1 \<le> pos \<or> array ! pos = CHR '']'' then Inr out
         else rbind (skip_json_value array pos) (\<lambda>end_pos.
           if end_pos \<le> pos then Inr out
           else
             (let out' = out @ [substr array pos (end_pos - pos)];
                  pos' = skip_ws array end_pos in
              split_array_loop array
                (if pos' < length array \<and> array ! pos' = CHR '','' then Suc pos' else pos') out')))
      else Inr out)"
  by pat_completeness auto
termination
proof (relation "measure (\<lambda>(array, pos, out). length array - pos)", goal_cases)
  case (2 array pos0 out pos end_pos out' pos')
  have "pos0 \<le> pos" "end_pos \<le> pos'" using skip_ws_ge 2 by simp_all
  with 2 show ?case by auto
qed simp

declare split_array_loop.simps [simp del]

definition split_json_array_elements :: "string \<Rightarrow> string list res" where
  "split_json_array_elements array =
     (if length array < 2 \<or> hd array \<noteq> CHR ''['' \<or> last array \<noteq> CHR '']'' then Inr []
      else split_array_loop array 1 [])"

text \<open>The elements that are not strings are dropped.\<close>

definition extract_json_string_array :: "string \<Rightarrow> string \<Rightarrow> string list res" where
  "extract_json_string_array json key =
     rbind (extract_json_array json key) (\<lambda>raw.
       case raw of
         None \<Rightarrow> Inr []
       | Some r \<Rightarrow> rbind (split_json_array_elements r) (\<lambda>elements.
           Inr (List.map_filter parse_json_string elements)))"

section \<open>Words and sets of strings\<close>

definition is_word_sep :: "char \<Rightarrow> bool" where
  "is_word_sep c \<longleftrightarrow> c = CHR '' '' \<or> c = char_of (9 :: nat) \<or> c = char_of (13 :: nat) \<or> c = char_of (10 :: nat)"

function split_ws_loop :: "string \<Rightarrow> nat \<Rightarrow> string list" where
  "split_ws_loop input pos0 =
     (if pos0 < length input then
        (let pos = skip_ws input pos0 in
         if length input \<le> pos then []
         else (case find_if is_word_sep input pos of
                 None \<Rightarrow> [drop pos input]
               | Some e \<Rightarrow> substr input pos (e - pos) # split_ws_loop input (Suc e)))
      else [])"
  by pat_completeness auto
termination
proof (relation "measure (\<lambda>(input, pos). length input - pos)", goal_cases)
  case (2 input pos0 pos e)
  have "pos0 \<le> pos" using skip_ws_ge 2 by simp
  with 2 show ?case by (auto dest!: find_if_Some)
qed simp

declare split_ws_loop.simps [simp del]

definition split_ws :: "string \<Rightarrow> string list" where
  "split_ws input = split_ws_loop input 0"

fun append_unique :: "string list \<Rightarrow> string list \<Rightarrow> string list" where
  "append_unique target [] = target"
| "append_unique target (value # source) =
     (if value \<in> set target then append_unique target source
      else append_unique (target @ [value]) source)"

end
