(* ===== verification/JwtUtils.thy ===== *)
theory JwtUtils
  imports JsonUtils
begin

unbundle bit_operations_syntax

text \<open>
  \<open>keycloak/detail/jwt_utils.hpp\<close>: base64url decoding, splitting a compact JWT, reading a JWKS
  document, the audience and role claims, and RSA signature verification through OpenSSL.

  OpenSSL is not part of the sources. The calls made of it are the fields of the record
  \<open>openssl\<close>, an argument of the definitions that use them; a public key handle is the pair of
  its modulus and exponent. \<open>new\<close> functions that return a null pointer on failure are booleans.
\<close>

section \<open>Base64url\<close>

record decoded_jwt =
  signing_input :: string
  header_json :: string
  payload_json :: string
  signature :: string

record jwk =
  jwk_kid :: string
  jwk_kty :: string
  jwk_alg :: string
  jwk_n :: string
  jwk_e :: string

text \<open>The result is an \<open>unsigned char\<close>.\<close>

definition decode_base64url_char :: "char \<Rightarrow> 8 word option" where
  "decode_base64url_char ch =
     (if is_upper_az ch then Some (of_nat (code ch - 65))
      else if is_lower_az ch then Some (of_nat (26 + code ch - 97))
      else if is_digit ch then Some (of_nat (52 + code ch - 48))
      else if ch = CHR ''-'' then Some 62
      else if ch = CHR ''_'' then Some 63
      else None)"

text \<open>
  The decoder's state is the C++ one: \<open>val\<close> is an \<open>int\<close> that only ever grows to the left (C++20
  defines the shift modulo \<open>2 ^ 32\<close>, and the six free low bits make the addition exact), \<open>valb\<close>
  counts the bits not yet written.
\<close>

fun base64url_loop :: "string \<Rightarrow> 32 word \<Rightarrow> int \<Rightarrow> string \<Rightarrow> string option" where
  "base64url_loop [] val valb out = Some out"
| "base64url_loop (ch # cs) val valb out =
     (if ch = CHR ''='' then Some out
      else
        (case decode_base64url_char ch of
           None \<Rightarrow> None
         | Some decoded \<Rightarrow>
             (let val' = push_bit 6 val + ucast decoded;
                  valb' = valb + 6
              in if valb' \<ge> 0
                 then base64url_loop cs val' (valb' - 8)
                        (out @ [char_of (unat (signed_drop_bit (nat valb') val' AND 0xFF))])
                 else base64url_loop cs val' valb' out)))"

definition base64url_decode :: "string \<Rightarrow> string option" where
  "base64url_decode input = base64url_loop input 0 (- 8) []"

section \<open>The compact JWT\<close>

definition decode_jwt :: "string \<Rightarrow> decoded_jwt option" where
  "decode_jwt token =
     (case find_ch CHR ''.'' token 0 of
        None \<Rightarrow> None
      | Some first_dot \<Rightarrow>
          (case find_ch CHR ''.'' token (Suc first_dot) of
             None \<Rightarrow> None
           | Some second_dot \<Rightarrow>
               (case base64url_decode (substr token 0 first_dot) of
                  None \<Rightarrow> None
                | Some h \<Rightarrow>
                    (case base64url_decode (substr token (Suc first_dot) (second_dot - first_dot - 1)) of
                       None \<Rightarrow> None
                     | Some p \<Rightarrow>
                         (case base64url_decode (drop (Suc second_dot) token) of
                            None \<Rightarrow> None
                          | Some sg \<Rightarrow>
                              Some \<lparr>signing_input = substr token 0 second_dot, header_json = h,
                                    payload_json = p, signature = sg\<rparr>)))))"

section \<open>Claims\<close>

definition value_or :: "'a \<Rightarrow> 'a option \<Rightarrow> 'a" where
  "value_or d x = (case x of None \<Rightarrow> d | Some v \<Rightarrow> v)"

text \<open>\<open>extract_json_string(json, key).value_or(d)\<close>\<close>

definition json_string_or :: "string \<Rightarrow> string \<Rightarrow> string \<Rightarrow> string res" where
  "json_string_or json key d = rbind (extract_json_string json key) (\<lambda>s. Inr (value_or d s))"

fun extract_jwks_loop :: "string list \<Rightarrow> jwk list \<Rightarrow> jwk list res" where
  "extract_jwks_loop [] keys = Inr keys"
| "extract_jwks_loop (element # elements) keys =
     (if element = [] \<or> hd element \<noteq> CHR ''{'' then extract_jwks_loop elements keys
      else
        rbind (json_string_or element ''kid'' []) (\<lambda>kid.
        rbind (json_string_or element ''kty'' []) (\<lambda>kty.
        rbind (json_string_or element ''alg'' []) (\<lambda>alg.
        rbind (json_string_or element ''n'' []) (\<lambda>n.
        rbind (json_string_or element ''e'' []) (\<lambda>e.
          extract_jwks_loop elements
            (if kty \<noteq> []
             then keys @ [\<lparr>jwk_kid = kid, jwk_kty = kty, jwk_alg = alg, jwk_n = n, jwk_e = e\<rparr>]
             else keys)))))))"

definition extract_jwks :: "string \<Rightarrow> jwk list res" where
  "extract_jwks jwks_json =
     rbind (extract_json_array jwks_json ''keys'') (\<lambda>array.
       case array of
         None \<Rightarrow> Inr []
       | Some a \<Rightarrow> rbind (split_json_array_elements a) (\<lambda>elements. extract_jwks_loop elements []))"

definition extract_audience_values :: "string \<Rightarrow> string list res" where
  "extract_audience_values payload =
     rbind (extract_json_string_array payload ''aud'') (\<lambda>values.
       if values = [] then
         rbind (extract_json_string payload ''aud'') (\<lambda>aud.
           Inr (case aud of Some a \<Rightarrow> [a] | None \<Rightarrow> []))
       else Inr values)"

text \<open>The walk over the members of \<open>resource_access\<close>; \<open>ra\<close> is the text of that object.\<close>

function resource_roles_loop :: "string \<Rightarrow> nat \<Rightarrow> string list \<Rightarrow> string list res" where
  "resource_roles_loop ra pos0 roles =
     (if pos0 + 1 < length ra then
        (let pos1 = skip_ws ra pos0 in
         if length ra - 1 \<le> pos1 \<or> ra ! pos1 = CHR ''}'' then Inr roles
         else
           (let key_end = skip_json_string ra pos1 in
            if key_end \<le> pos1 then Inr roles
            else
              (let p = skip_ws ra key_end;
                   p' = (if p < length ra \<and> ra ! p = CHR '':'' then Suc p else p);
                   pos2 = skip_ws ra p'
               in rbind (skip_json_value ra pos2) (\<lambda>value_end.
                    if value_end \<le> pos2 then Inr roles
                    else
                      (let v = substr ra pos2 (value_end - pos2);
                           q = skip_ws ra value_end;
                           pos3 = (if q < length ra \<and> ra ! q = CHR '','' then Suc q else q)
                       in rbind (if v \<noteq> [] \<and> hd v = CHR ''{''
                                 then rbind (extract_json_string_array v ''roles'') (\<lambda>rs.
                                        Inr (append_unique roles rs))
                                 else Inr roles)
                            (\<lambda>roles'. resource_roles_loop ra pos3 roles'))))))
      else Inr roles)"
  by pat_completeness auto
termination
proof (relation "measure (\<lambda>(ra, pos, roles). length ra - pos)", goal_cases)
  case (2 ra pos0 roles pos1 key_end p p' pos2 value_end v q pos3 roles')
  have "pos0 \<le> pos1" "key_end \<le> p" "p' \<le> pos2" "value_end \<le> q"
    using skip_ws_ge 2(2,6,8,12) by simp_all
  moreover have "p \<le> p'" "q \<le> pos3" using 2(7,13) by simp_all
  ultimately show ?case using 2(1,5,10) by simp
qed simp

declare resource_roles_loop.simps [simp del]

definition extract_all_roles :: "string \<Rightarrow> string list res" where
  "extract_all_roles payload =
     rbind (extract_json_object payload ''realm_access'') (\<lambda>realm_access.
     rbind (case realm_access of
              None \<Rightarrow> Inr []
            | Some ra \<Rightarrow> rbind (extract_json_string_array ra ''roles'') (\<lambda>rs. Inr (append_unique [] rs)))
       (\<lambda>roles.
     rbind (extract_json_object payload ''resource_access'') (\<lambda>resource_access.
       case resource_access of
         None \<Rightarrow> Inr roles
       | Some ra \<Rightarrow> resource_roles_loop ra 1 roles)))"

definition contains_string :: "string list \<Rightarrow> string \<Rightarrow> bool" where
  "contains_string values expected \<longleftrightarrow> expected \<in> set values"

section \<open>Signatures\<close>

datatype evp_md = MD_sha256 | MD_sha384 | MD_sha512

definition evp_digest_for_alg :: "string \<Rightarrow> evp_md option" where
  "evp_digest_for_alg alg =
     (if alg = ''RS256'' then Some MD_sha256
      else if alg = ''RS384'' then Some MD_sha384
      else if alg = ''RS512'' then Some MD_sha512
      else None)"

type_synonym rsa_key = "nat \<times> nat"

record openssl =
  BN_bin2bn :: "string \<Rightarrow> nat option"
  RSA_new_ok :: bool
  RSA_set0_key :: "nat \<Rightarrow> nat \<Rightarrow> int"
  EVP_PKEY_new_ok :: bool
  EVP_PKEY_assign_RSA :: "rsa_key \<Rightarrow> int"
  EVP_MD_CTX_new_ok :: bool
  EVP_DigestVerifyInit :: "evp_md \<Rightarrow> rsa_key \<Rightarrow> int"
  EVP_DigestVerifyUpdate :: "evp_md \<Rightarrow> rsa_key \<Rightarrow> string \<Rightarrow> int"
  EVP_DigestVerifyFinal :: "evp_md \<Rightarrow> rsa_key \<Rightarrow> string \<Rightarrow> string \<Rightarrow> int"

definition make_rsa_public_key :: "openssl \<Rightarrow> jwk \<Rightarrow> rsa_key option" where
  "make_rsa_public_key ssl k =
     (if jwk_kty k \<noteq> ''RSA'' \<or> jwk_n k = [] \<or> jwk_e k = [] then None
      else
        (case (base64url_decode (jwk_n k), base64url_decode (jwk_e k)) of
           (Some n_bytes, Some e_bytes) \<Rightarrow>
             (case (BN_bin2bn ssl n_bytes, BN_bin2bn ssl e_bytes) of
                (Some n, Some e) \<Rightarrow>
                  (if \<not> RSA_new_ok ssl then None
                   else if RSA_set0_key ssl n e \<noteq> 1 then None
                   else if \<not> EVP_PKEY_new_ok ssl \<or> EVP_PKEY_assign_RSA ssl (n, e) \<noteq> 1 then None
                   else Some (n, e))
              | _ \<Rightarrow> None)
         | _ \<Rightarrow> None))"

definition verify_rsa_signature :: "openssl \<Rightarrow> jwk \<Rightarrow> string \<Rightarrow> string \<Rightarrow> string \<Rightarrow> bool" where
  "verify_rsa_signature ssl k alg input sg =
     (case evp_digest_for_alg alg of
        None \<Rightarrow> False
      | Some digest \<Rightarrow>
          (case make_rsa_public_key ssl k of
             None \<Rightarrow> False
           | Some pkey \<Rightarrow>
               (if \<not> EVP_MD_CTX_new_ok ssl then False
                else EVP_DigestVerifyInit ssl digest pkey = 1 \<and>
                     EVP_DigestVerifyUpdate ssl digest pkey input = 1 \<and>
                     EVP_DigestVerifyFinal ssl digest pkey input sg = 1)))"

end
