(* ===== verification/Pkce.thy ===== *)
theory Pkce
  imports UrlEncode JwtUtils
begin

text \<open>
  \<open>src/keycloak/pkce.cpp\<close>: the PKCE verifier and challenge. SHA-256 and the base64 filter are
  OpenSSL's: the record \<open>pkce_lib\<close> holds what the calls return. The theory also relates the
  encoder here to the decoder of \<open>jwt_utils.hpp\<close>.
\<close>

section \<open>The code\<close>

record pkce_lib =
  sha_ctx_ok :: bool
  sha_init :: int
  sha_update :: "string \<Rightarrow> int"
  sha_final :: "string \<Rightarrow> int \<times> string"
  bio_b64_ok :: bool
  bio_mem_ok :: bool
  bio_base64 :: "string \<Rightarrow> string"

record pkce_pair =
  code_verifier :: string
  code_challenge :: string

definition kCharset :: string where
  "kCharset = ''ABCDEFGHIJKLMNOPQRSTUVWXYZabcdefghijklmnopqrstuvwxyz0123456789-._~''"

definition generate_random_string :: "nat \<Rightarrow> (sysenv, string) act" where
  "generate_random_string len =
     abind (RAND_bytes len) (\<lambda>r.
       case r of
         None \<Rightarrow> athrow (Runtime_error ''RAND_bytes failed'')
       | Some bytes \<Rightarrow> aret (map (\<lambda>byte. kCharset ! (code byte mod length kCharset)) bytes))"

definition sha256_raw :: "pkce_lib \<Rightarrow> string \<Rightarrow> string res" where
  "sha256_raw lib input =
     (if \<not> sha_ctx_ok lib then Inl (Runtime_error ''EVP_MD_CTX_new failed'')
      else if sha_init lib \<noteq> 1 \<or> sha_update lib input \<noteq> 1 \<or> fst (sha_final lib input) \<noteq> 1
      then Inl (Runtime_error ''SHA256 digest failed'')
      else Inr (snd (sha_final lib input)))"

definition replace_char :: "char \<Rightarrow> char \<Rightarrow> string \<Rightarrow> string" where
  "replace_char old new s = map (\<lambda>c. if c = old then new else c) s"

definition base64url_encode :: "pkce_lib \<Rightarrow> string \<Rightarrow> string res" where
  "base64url_encode lib input =
     (if \<not> bio_b64_ok lib \<or> \<not> bio_mem_ok lib then Inl (Runtime_error ''BIO_new failed'')
      else Inr (strip_back CHR ''=''
                 (replace_char CHR ''/'' CHR ''_''
                   (replace_char CHR ''+'' CHR ''-'' (bio_base64 lib input)))))"

definition generate_pkce_pair :: "pkce_lib \<Rightarrow> nat \<Rightarrow> (sysenv, pkce_pair) act" where
  "generate_pkce_pair lib verifier_len =
     (let len1 = (if verifier_len < 43 then 43 else verifier_len);
          len = (if len1 > 128 then 128 else len1)
      in abind (generate_random_string len) (\<lambda>verifier.
         abind (alift (rbind (sha256_raw lib verifier) (base64url_encode lib))) (\<lambda>challenge.
         aret \<lparr>code_verifier = verifier, code_challenge = challenge\<rparr>)))"

section \<open>The verifier\<close>

lemma length_kCharset [simp]: "length kCharset = 66"
  by (simp add: kCharset_def)

lemma kCharset_unreserved: "\<forall>c \<in> set kCharset. unreserved c"
  by (simp add: kCharset_def unreserved_def should_encode_def char_class_defs)

lemma generate_random_string_Inr:
  assumes "generate_random_string n s = (Inr v, s')" and "rand_fills s"
  shows "length v = n \<and> (\<forall>c \<in> set v. unreserved c)"
proof -
  obtain bs where bs: "rand_bytes s (rand_pos s) n = Some bs"
    and v: "v = map (\<lambda>byte. kCharset ! (code byte mod length kCharset)) bs"
    using assms(1)
    by (auto simp: generate_random_string_def abind_def RAND_bytes_def split: option.splits)
  have "kCharset ! (code b mod 66) \<in> set kCharset" for b by (rule nth_mem) simp
  then show ?thesis using v bs assms(2) kCharset_unreserved by (auto simp: rand_fills_def)
qed

lemma generate_pkce_pair_Inr:
  assumes "generate_pkce_pair lib n s = (Inr p, s')" and "rand_fills s"
  shows "length (code_verifier p) = max 43 (min 128 n)"
    and "\<forall>c \<in> set (code_verifier p). unreserved c"
    and "rbind (sha256_raw lib (code_verifier p)) (base64url_encode lib) = Inr (code_challenge p)"
    and "s' = s\<lparr>rand_pos := Suc (rand_pos s)\<rparr>"
proof -
  let ?len = "if (if n < 43 then 43 else n) > 128 then 128 else (if n < 43 then 43 else n)"
  have len: "?len = max 43 (min 128 n)" by simp
  obtain v s1 where v: "generate_random_string ?len s = (Inr v, s1)"
    and rest: "p = \<lparr>code_verifier = v, code_challenge = code_challenge p\<rparr>" "s' = s1"
      "rbind (sha256_raw lib v) (base64url_encode lib) = Inr (code_challenge p)"
    using assms(1)
    by (auto simp: generate_pkce_pair_def Let_def abind_eq_Inr simp del: rbind_eq_Inr split del: if_split)
  have cv: "code_verifier p = v" using rest(1) by (metis pkce_pair.select_convs(1))
  show "length (code_verifier p) = max 43 (min 128 n)" "\<forall>c \<in> set (code_verifier p). unreserved c"
    using generate_random_string_Inr [OF v assms(2)] cv len by auto
  show "rbind (sha256_raw lib (code_verifier p)) (base64url_encode lib) = Inr (code_challenge p)"
    using rest(3) cv by simp
  show "s' = s\<lparr>rand_pos := Suc (rand_pos s)\<rparr>" using v rest(2)
    by (auto simp: generate_random_string_def abind_def RAND_bytes_def split: option.splits)
qed

section \<open>Base64\<close>

text \<open>
  The documented output of the base64 filter with \<open>BIO_FLAGS_BASE64_NO_NL\<close>: RFC 4648 on one line.
\<close>

definition b64_alnum :: string where
  "b64_alnum = ''ABCDEFGHIJKLMNOPQRSTUVWXYZabcdefghijklmnopqrstuvwxyz0123456789''"

definition b64_char :: "nat \<Rightarrow> char" where
  "b64_char n = (b64_alnum @ ''+/'') ! n"

fun rfc4648 :: "string \<Rightarrow> string" where
  "rfc4648 (a # b # c # r) =
     b64_char (code a div 4) # b64_char (code a mod 4 * 16 + code b div 16) #
     b64_char (code b mod 16 * 4 + code c div 64) # b64_char (code c mod 64) # rfc4648 r"
| "rfc4648 [a, b] =
     [b64_char (code a div 4), b64_char (code a mod 4 * 16 + code b div 16),
      b64_char (code b mod 16 * 4), CHR ''='']"
| "rfc4648 [a] = [b64_char (code a div 4), b64_char (code a mod 4 * 16), CHR ''='', CHR ''='']"
| "rfc4648 [] = []"

definition b64url_char :: "nat \<Rightarrow> char" where
  "b64url_char n = (b64_alnum @ ''-_'') ! n"

text \<open>The same without padding and with the URL alphabet.\<close>

fun b64url :: "string \<Rightarrow> string" where
  "b64url (a # b # c # r) =
     b64url_char (code a div 4) # b64url_char (code a mod 4 * 16 + code b div 16) #
     b64url_char (code b mod 16 * 4 + code c div 64) # b64url_char (code c mod 64) # b64url r"
| "b64url [a, b] =
     [b64url_char (code a div 4), b64url_char (code a mod 4 * 16 + code b div 16),
      b64url_char (code b mod 16 * 4)]"
| "b64url [a] = [b64url_char (code a div 4), b64url_char (code a mod 4 * 16)]"
| "b64url [] = []"

lemma b64_alnum_ranges:
  "b64_alnum = map (\<lambda>n. char_of (65 + n)) [0..<26] @ map (\<lambda>n. char_of (97 + n)) [0..<26] @
     map (\<lambda>n. char_of (48 + n)) [0..<10]"
  by (simp add: b64_alnum_def upt_rec char_of_def bit_0)

lemma b64url_char_cases:
  assumes "n < 64"
  shows "b64url_char n =
    (if n < 26 then char_of (65 + n) else if n < 52 then char_of (97 + (n - 26))
     else if n < 62 then char_of (48 + (n - 52)) else if n = 62 then CHR ''-'' else CHR ''_'')"
proof -
  have "n - 62 = 0 \<or> n - 62 = 1" using assms by auto
  then show ?thesis using assms
    by (auto simp: b64url_char_def b64_alnum_ranges nth_append simp del: upt_rec)
qed

lemma decode_b64url_char:
  assumes "n < 64"
  shows "decode_base64url_char (b64url_char n) = Some (of_nat n) \<and> b64url_char n \<noteq> CHR ''=''"
proof -
  consider "n < 26" | "26 \<le> n" "n < 52" | "52 \<le> n" "n < 62" | "n = 62" | "n = 63"
    using assms by linarith
  then have "decode_base64url_char (b64url_char n) = Some (of_nat n)"
    by cases (auto simp: b64url_char_cases decode_base64url_char_def char_class_defs)
  moreover have "decode_base64url_char CHR ''='' = None"
    by (simp add: decode_base64url_char_def char_class_defs)
  ultimately show ?thesis by auto
qed

lemma length_b64_alnum [simp]: "length b64_alnum = 62"
  by (simp add: b64_alnum_def)

lemma b64_alnum_plain: "CHR ''+'' \<notin> set b64_alnum" "CHR ''/'' \<notin> set b64_alnum"
  by (simp_all add: b64_alnum_def)

definition url_alphabet :: "char \<Rightarrow> char" where
  "url_alphabet c = (let d = (if c = CHR ''+'' then CHR ''-'' else c) in if d = CHR ''/'' then CHR ''_'' else d)"

lemma url_alphabet_b64_char [simp]:
  assumes "n < 64"
  shows "url_alphabet (b64_char n) = b64url_char n"
proof (cases "n < 62")
  case True
  then have "b64_alnum ! n \<in> set b64_alnum" by simp
  then have "b64_alnum ! n \<noteq> CHR ''+''" "b64_alnum ! n \<noteq> CHR ''/''" using b64_alnum_plain by metis+
  with True show ?thesis by (simp add: b64_char_def b64url_char_def url_alphabet_def nth_append)
next
  case False
  with assms have "n = 62 \<or> n = 63" by auto
  then show ?thesis by (auto simp: b64_char_def b64url_char_def url_alphabet_def nth_append)
qed

lemma replace_url_alphabet:
  "replace_char CHR ''/'' CHR ''_'' (replace_char CHR ''+'' CHR ''-'' s) = map url_alphabet s"
  by (simp add: replace_char_def url_alphabet_def Let_def comp_def)

lemma url_alphabet_pad [simp]: "url_alphabet CHR ''='' = CHR ''=''"
  by (simp add: url_alphabet_def)

lemma sextets [simp]:
  "code a div 4 < 64" "code a mod 4 * 16 + code b div 16 < 64" "code b mod 16 * 4 + code c div 64 < 64"
  "code c mod 64 < 64" "code a mod 4 * 16 < 64" "code b mod 16 * 4 < 64"
proof -
  have d: "code x div 4 < 64" "code x div 16 < 16" "code x div 64 < 4" for x
    using code_bound [of x] by (simp_all add: less_mult_imp_div_less)
  have m: "code x mod 4 < 4" "code x mod 16 < 16" "code x mod 64 < 64" for x by simp_all
  show "code a div 4 < 64" "code c mod 64 < 64" using d m by simp_all
  show "code a mod 4 * 16 + code b div 16 < 64" using m(1) [of a] d(2) [of b] by linarith
  show "code b mod 16 * 4 + code c div 64 < 64" using m(2) [of b] d(3) [of c] by linarith
  show "code a mod 4 * 16 < 64" using m(1) [of a] by linarith
  show "code b mod 16 * 4 < 64" using m(2) [of b] by linarith
qed

text \<open>Padding, as the base64 filter writes it and the code strips it.\<close>

lemma rfc4648_to_url: "\<exists>n. map url_alphabet (rfc4648 s) = b64url s @ replicate n CHR ''=''"
proof (induction s rule: rfc4648.induct)
  case (1 a b c r)
  then show ?case by auto
next
  case (2 a b)
  show ?case by (rule exI [of _ 1]) simp
next
  case (3 a)
  show ?case by (rule exI [of _ 2]) (simp add: numeral_2_eq_2)
qed simp

lemma b64url_chars: "\<forall>c \<in> set (b64url s). c \<noteq> CHR ''='' \<and> decode_base64url_char c \<noteq> None"
  by (induction s rule: b64url.induct) (simp_all add: decode_b64url_char)

lemma strip_rfc4648: "strip_back CHR ''='' (map url_alphabet (rfc4648 s)) = b64url s"
proof -
  obtain n where n: "map url_alphabet (rfc4648 s) = b64url s @ replicate n CHR ''=''"
    using rfc4648_to_url by blast
  have "b64url s = [] \<or> last (b64url s) \<noteq> CHR ''=''" using b64url_chars last_in_set by blast
  then show ?thesis unfolding n by (simp add: strip_back_stop)
qed

lemma base64url_encode_rfc:
  assumes "bio_b64_ok lib" and "bio_mem_ok lib" and "bio_base64 lib s = rfc4648 s"
  shows "base64url_encode lib s = Inr (b64url s)"
  using assms by (simp add: base64url_encode_def replace_url_alphabet strip_rfc4648)

section \<open>The decoder undoes the encoder\<close>

lemma sextet_push:
  fixes v :: "32 word" and d :: "8 word"
  assumes "unat d < 64"
  shows "unat (push_bit 6 v + ucast d) mod 4096 = unat v mod 64 * 64 + unat d"
proof -
  have d: "unat (ucast d :: 32 word) = unat d"
    by (simp add: unsigned_ucast_eq take_bit_nat_eq_self less_trans [OF assms])
  have "unat (push_bit 6 v) = unat v * 64 mod 2 ^ 32"
    by (simp add: push_bit_eq_mult unat_word_ariths mult.commute)
  then have "unat (push_bit 6 v + ucast d) = (unat v * 64 mod 2 ^ 32 + unat d) mod 2 ^ 32"
    by (simp only: unat_word_ariths(1) d) simp
  then have "unat (push_bit 6 v + ucast d) = (unat v * 64 + unat d) mod 2 ^ 32"
    by (simp only: mod_add_left_eq)
  then have "unat (push_bit 6 v + ucast d) mod 4096 = (unat v * 64 + unat d) mod 4096"
    by (simp add: mod_mod_cancel)
  also have "\<dots> = unat v mod 64 * 64 + unat d"
    using assms mod_mult2_eq [of "unat v * 64 + unat d" 64 64] by simp
  finally show ?thesis .
qed

lemma byte_of_val:
  fixes w :: "32 word"
  assumes "k \<le> 4"
  shows "unat (signed_drop_bit k w AND 0xFF) = unat w mod 4096 div 2 ^ k mod 256"
proof -
  have "signed_drop_bit k w AND 0xFF = take_bit 8 (drop_bit k w)"
  proof (rule bit_word_eqI)
    fix n assume "n < LENGTH(32)"
    have m: "(0xFF :: 32 word) = mask 8" by (simp add: mask_eq_exp_minus_1)
    show "bit (signed_drop_bit k w AND 0xFF) n \<longleftrightarrow> bit (take_bit 8 (drop_bit k w)) n"
      unfolding m using assms by (auto simp: bit_and_iff bit_mask_iff bit_take_bit_iff bit_drop_bit_eq bit_signed_drop_bit_iff)
  qed
  then have "unat (signed_drop_bit k w AND 0xFF) = take_bit 8 (drop_bit k (unat w))"
    by (simp only: unsigned_take_bit_eq unat_drop_bit_eq)
  also have "\<dots> = unat w div 2 ^ k mod 256" by (simp add: take_bit_eq_mod drop_bit_eq_div)
  also have "\<dots> = unat w mod 4096 div 2 ^ k mod 256"
  proof -
    have "take_bit 8 (drop_bit k (take_bit 12 (unat w))) = take_bit 8 (drop_bit k (unat w))"
    proof -
      have "min 8 (12 - k) = 8" using assms by simp
      then show ?thesis by (simp only: drop_bit_take_bit take_bit_take_bit)
    qed
    then show ?thesis by (simp add: take_bit_eq_mod drop_bit_eq_div)
  qed
  finally show ?thesis .
qed

text \<open>One character of a group of four, from each of the four bit counts.\<close>

definition push6 :: "nat \<Rightarrow> 32 word \<Rightarrow> 32 word" where
  "push6 n v = push_bit 6 v + ucast (of_nat n :: 8 word)"

lemma push6_mod:
  assumes "n < 64"
  shows "unat (push6 n v) mod 4096 = unat v mod 64 * 64 + n" and "unat (push6 n v) mod 64 = n"
proof -
  have n: "unat (of_nat n :: 8 word) = n" using assms by (simp add: unsigned_of_nat take_bit_nat_eq_self)
  then show m: "unat (push6 n v) mod 4096 = unat v mod 64 * 64 + n"
    using sextet_push [of "of_nat n" v] assms by (simp add: push6_def)
  have "unat (push6 n v) mod 64 = unat (push6 n v) mod 4096 mod 64" by (simp add: mod_mod_cancel)
  then show "unat (push6 n v) mod 64 = n" using assms unfolding m by simp
qed

lemma base64url_step:
  assumes "n < 64"
  shows "base64url_loop (b64url_char n # cs) v (- 8) out = base64url_loop cs (push6 n v) (- 2) out"
    and "base64url_loop (b64url_char n # cs) v (- 2) out =
      base64url_loop cs (push6 n v) (- 4) (out @ [char_of ((unat v mod 64 * 64 + n) div 16 mod 256)])"
    and "base64url_loop (b64url_char n # cs) v (- 4) out =
      base64url_loop cs (push6 n v) (- 6) (out @ [char_of ((unat v mod 64 * 64 + n) div 4 mod 256)])"
    and "base64url_loop (b64url_char n # cs) v (- 6) out =
      base64url_loop cs (push6 n v) (- 8) (out @ [char_of ((unat v mod 64 * 64 + n) mod 256)])"
  using decode_b64url_char [OF assms] byte_of_val [of 4 "push6 n v"] byte_of_val [of 2 "push6 n v"]
    byte_of_val [of 0 "push6 n v"] push6_mod(1) [OF assms, of v]
  by (simp_all add: Let_def flip: push6_def)

lemma group_bytes:
  "(code a div 4 * 64 + (code a mod 4 * 16 + code b div 16)) div 16 mod 256 = code a"
  "((code a mod 4 * 16 + code b div 16) * 64 + (code b mod 16 * 4 + code c div 64)) div 4 mod 256 = code b"
  "((code b mod 16 * 4 + code c div 64) * 64 + code c mod 64) mod 256 = code c"
  "(code a div 4 * 64 + code a mod 4 * 16) div 16 mod 256 = code a"
  "((code a mod 4 * 16 + code b div 16) * 64 + code b mod 16 * 4) div 4 mod 256 = code b"
proof -
  have A': "x = q * 4 + r \<Longrightarrow> q * 64 + r * 16 = x * 16"
    and B': "x = q * 16 + r \<Longrightarrow> (y * 16 + q) * 64 + r * 4 = (y * 256 + x) * 4"
    and C': "x = q * 64 + r \<Longrightarrow> (y * 4 + q) * 64 + r = y * 256 + x" for x q r y :: nat
    by simp_all
  note split = div_mult_mod_eq [symmetric]
  have A: "code a div 4 * 64 + code a mod 4 * 16 = code a * 16" by (rule A' [OF split])
  have B: "(code a mod 4 * 16 + code b div 16) * 64 + code b mod 16 * 4 = (code a mod 4 * 256 + code b) * 4"
    by (rule B' [OF split])
  have C: "(code b mod 16 * 4 + code c div 64) * 64 + code c mod 64 = code b mod 16 * 256 + code c"
    by (rule C' [OF split])
  have d: "code x div 16 < 16" "code x div 64 < 4" for x
    using code_bound [of x] by (simp_all add: less_mult_imp_div_less)
  show "(code a div 4 * 64 + code a mod 4 * 16) div 16 mod 256 = code a" unfolding A by simp
  show "((code a mod 4 * 16 + code b div 16) * 64 + code b mod 16 * 4) div 4 mod 256 = code b"
    unfolding B by simp
  show "((code b mod 16 * 4 + code c div 64) * 64 + code c mod 64) mod 256 = code c" unfolding C by simp
  have q: "n = m * k + r \<Longrightarrow> r < k \<Longrightarrow> n div k = m" for n m k r :: nat by simp
  have "code a div 4 * 64 + (code a mod 4 * 16 + code b div 16) = code a * 16 + code b div 16"
    using A by linarith
  from q [OF this d(1)]
  show "(code a div 4 * 64 + (code a mod 4 * 16 + code b div 16)) div 16 mod 256 = code a" by simp
  have "(code a mod 4 * 16 + code b div 16) * 64 + (code b mod 16 * 4 + code c div 64) =
      (code a mod 4 * 256 + code b) * 4 + code c div 64" using B by linarith
  from q [OF this d(2)]
  show "((code a mod 4 * 16 + code b div 16) * 64 + (code b mod 16 * 4 + code c div 64)) div 4 mod 256
      = code b" by simp
qed

lemma base64url_loop_b64url: "base64url_loop (b64url s) v (- 8) out = Some (out @ s)"
proof (induction s arbitrary: v out rule: b64url.induct)
  case (1 a b c r)
  then show ?case by (simp only: b64url.simps base64url_step push6_mod sextets group_bytes char_of_char
        base64url_loop.simps(1) append_assoc append.simps)
next
  case (2 a b)
  show ?case by (simp only: b64url.simps base64url_step push6_mod sextets group_bytes char_of_char
        base64url_loop.simps(1) append_assoc append.simps)
next
  case (3 a)
  show ?case by (simp only: b64url.simps base64url_step push6_mod sextets group_bytes char_of_char
        base64url_loop.simps(1) append_assoc append.simps)
qed simp

lemma base64url_decode_b64url [simp]: "base64url_decode (b64url s) = Some s"
  by (simp add: base64url_decode_def base64url_loop_b64url)

lemma b64url_eq_Nil [simp]: "b64url s = [] \<longleftrightarrow> s = []"
  by (cases s rule: b64url.cases) auto

end
