(* ===== verification/HttpTypes.thy ===== *)
theory HttpTypes
  imports Base
begin

text \<open>
  \<open>api_models/http_context.hpp\<close> and \<open>api_models/concepts.hpp\<close>: the request context, the
  configuration and result types, and the transport the services are templated over.

  The HTTP classes themselves belong to \<open>unet\<close>, which is not part of the sources. Of a request
  and a URI only the fields the sources read or write are kept; a header list is the sequence of
  \<open>addHeader\<close> calls. Everything else of \<open>unet\<close> is a field of \<open>http_lib\<close>: the value a default
  constructed URI or request has, the header lookup, and the injected client's \<open>send\<close>.
\<close>

record request_context =
  ctx_authenticated :: bool
  ctx_sub :: string
  ctx_preferred_username :: string
  ctx_realm :: string
  ctx_issuer :: string
  ctx_client_id :: string
  ctx_roles :: "string list"
  ctx_scopes :: "string list"

definition empty_context :: request_context where
  "empty_context = \<lparr>ctx_authenticated = False, ctx_sub = [], ctx_preferred_username = [],
     ctx_realm = [], ctx_issuer = [], ctx_client_id = [], ctx_roles = [], ctx_scopes = []\<rparr>"

record auth_config =
  expected_issuer :: string
  jwks_url :: string
  jwks_cache_ttl :: int
  require_audience :: bool
  expected_audience :: string
  expected_azp :: string
  clock_skew_seconds :: int

record auth_result =
  ar_ok :: bool
  ar_http_status :: int
  ar_error :: string

text \<open>\<open>request.user_data\<close> is a \<open>std::any\<close>: empty, a context, or a value of another type.\<close>

datatype user_data = Any_empty | Any_context request_context | Any_other

record uri =
  uri_scheme :: string
  uri_host :: string
  uri_port :: "16 word"
  uri_path :: string
  uri_query :: string

type_synonym headers = "(string \<times> string) list"

record request =
  method_token :: string
  req_uri :: uri
  req_authority :: string
  req_headers :: headers
  req_body :: string
  req_user_data :: user_data

record http_response =
  status_code :: int
  resp_body :: string

record 'h http_lib =
  default_uri :: uri
  default_request :: request
  header_value :: "headers \<Rightarrow> string \<Rightarrow> string option"
  http_send :: "request \<Rightarrow> ('h, http_response) act"

definition get_request_context :: "request \<Rightarrow> request_context option" where
  "get_request_context r = (case req_user_data r of Any_context c \<Rightarrow> Some c | _ \<Rightarrow> None)"

definition set_request_context :: "request \<Rightarrow> request_context \<Rightarrow> request" where
  "set_request_context r c = r\<lparr>req_user_data := Any_context c\<rparr>"

definition add_header :: "string \<Rightarrow> string \<Rightarrow> request \<Rightarrow> request" where
  "add_header name val r = r\<lparr>req_headers := req_headers r @ [(name, val)]\<rparr>"

text \<open>\<open>response.metadata.status_code > 0 ? response.metadata.status_code : 502\<close>\<close>

definition effective_status :: "http_response \<Rightarrow> int" where
  "effective_status resp = (if status_code resp > 0 then status_code resp else 502)"

definition is_2xx :: "int \<Rightarrow> bool" where
  "is_2xx st \<longleftrightarrow> 200 \<le> st \<and> st < 300"

text \<open>The documented state of default constructed \<open>unet\<close> values: everything empty.\<close>

definition blank_uri :: uri where
  "blank_uri = \<lparr>uri_scheme = [], uri_host = [], uri_port = 0, uri_path = [], uri_query = []\<rparr>"

definition blank_request :: request where
  "blank_request = \<lparr>method_token = [], req_uri = blank_uri, req_authority = [], req_headers = [],
     req_body = [], req_user_data = Any_empty\<rparr>"

definition blank_defaults :: "('h, 'm) http_lib_scheme \<Rightarrow> bool" where
  "blank_defaults lib \<longleftrightarrow> default_uri lib = blank_uri \<and> default_request lib = blank_request"

lemma context_set_get: "get_request_context (set_request_context r c) = Some c"
  by (simp add: get_request_context_def set_request_context_def)

end
