(* ===== verification/OidcUtils.thy ===== *)
theory OidcUtils
  imports HttpTypes UrlEncode
begin

text \<open>
  \<open>keycloak/detail/oidc_utils.hpp\<close>: endpoint URLs, the URL parser, form bodies and the two kinds
  of outgoing requests. The parser and the endpoint builders are tied together: the request for
  an endpoint goes to the host of the configured base URL, whatever the realm is called.
\<close>

section \<open>Endpoints\<close>

definition trim_trailing_slash :: "string \<Rightarrow> string" where
  "trim_trailing_slash value = strip_back CHR ''/'' value"

definition realm_root :: "string \<Rightarrow> string \<Rightarrow> string" where
  "realm_root base_url realm = trim_trailing_slash base_url @ ''/realms/'' @ url_encode realm"

definition authorization_endpoint :: "string \<Rightarrow> string \<Rightarrow> string" where
  "authorization_endpoint base_url realm = realm_root base_url realm @ ''/protocol/openid-connect/auth''"

definition token_endpoint :: "string \<Rightarrow> string \<Rightarrow> string" where
  "token_endpoint base_url realm = realm_root base_url realm @ ''/protocol/openid-connect/token''"

definition jwks_endpoint :: "string \<Rightarrow> string \<Rightarrow> string" where
  "jwks_endpoint base_url realm = realm_root base_url realm @ ''/protocol/openid-connect/certs''"

definition userinfo_endpoint :: "string \<Rightarrow> string \<Rightarrow> string" where
  "userinfo_endpoint base_url realm = realm_root base_url realm @ ''/protocol/openid-connect/userinfo''"

definition revocation_endpoint :: "string \<Rightarrow> string \<Rightarrow> string" where
  "revocation_endpoint base_url realm = realm_root base_url realm @ ''/protocol/openid-connect/revoke''"

definition introspection_endpoint :: "string \<Rightarrow> string \<Rightarrow> string" where
  "introspection_endpoint base_url realm =
     realm_root base_url realm @ ''/protocol/openid-connect/token/introspect''"

definition logout_endpoint :: "string \<Rightarrow> string \<Rightarrow> string" where
  "logout_endpoint base_url realm = realm_root base_url realm @ ''/protocol/openid-connect/logout''"

definition discovery_endpoint :: "string \<Rightarrow> string \<Rightarrow> string" where
  "discovery_endpoint base_url realm = realm_root base_url realm @ ''/.well-known/openid-configuration''"

definition last_path_segment :: "string \<Rightarrow> string" where
  "last_path_segment value =
     (let v = strip_back CHR ''/'' value in
      case rfind_ch CHR ''/'' v of None \<Rightarrow> v | Some slash \<Rightarrow> drop (Suc slash) v)"

section \<open>URLs\<close>

text \<open>Host and port of the authority part; a port that is not a number makes \<open>std::stoi\<close> throw.\<close>

definition parse_authority :: "uri \<Rightarrow> string \<Rightarrow> uri res" where
  "parse_authority u authority =
     (case rfind_ch CHR '':'' authority of
        Some colon_pos \<Rightarrow>
          (let u' = u\<lparr>uri_host := substr authority 0 colon_pos\<rparr>;
               port_text = drop (Suc colon_pos) authority
           in if port_text \<noteq> []
              then rbind (stoi port_text) (\<lambda>v. Inr (u'\<lparr>uri_port := of_int v\<rparr>))
              else Inr u')
      | None \<Rightarrow> Inr (u\<lparr>uri_host := authority\<rparr>))"

text \<open>
  The count of the second \<open>substr\<close> is an unsigned difference. Where the first \<open>/\<close> stands behind
  the first \<open>?\<close> it wraps around, and \<open>substr\<close> takes everything to the end.
\<close>

definition parse_absolute_uri :: "('h, 'm) http_lib_scheme \<Rightarrow> string \<Rightarrow> uri res" where
  "parse_absolute_uri lib url =
     (let u0 = default_uri lib;
          scheme_pos = find_str ''://'' url 0;
          authority_start = (case scheme_pos of None \<Rightarrow> 0 | Some p \<Rightarrow> p + 3);
          u1 = (case scheme_pos of None \<Rightarrow> u0 | Some p \<Rightarrow> u0\<lparr>uri_scheme := substr url 0 p\<rparr>);
          path_start = find_ch CHR ''/'' url authority_start;
          query_start = find_ch CHR ''?'' url authority_start;
          authority_end = min (value_at path_start (length url)) (value_at query_start (length url));
          authority = substr url authority_start (authority_end - authority_start)
      in rbind (parse_authority u1 authority)
           (\<lambda>u3.
              let u4 = (case path_start of
                          None \<Rightarrow> u3
                        | Some ps \<Rightarrow>
                            (let path_end = value_at query_start (length url)
                             in u3\<lparr>uri_path := (if ps \<le> path_end then substr url ps (path_end - ps)
                                               else drop ps url)\<rparr>));
                  u5 = (if uri_path u4 = [] then u4\<lparr>uri_path := ''/''\<rparr> else u4)
              in Inr (case query_start of
                        None \<Rightarrow> u5
                      | Some qs \<Rightarrow> u5\<lparr>uri_query := drop (Suc qs) url\<rparr>)))"

text \<open>\<open>std::to_string\<close> of a port.\<close>

definition port_text :: "16 word \<Rightarrow> string" where
  "port_text p = to_string_nat (unat p)"

definition request_url :: "request \<Rightarrow> string" where
  "request_url r =
     (if uri_scheme (req_uri r) \<noteq> [] then uri_scheme (req_uri r) @ ''://'' else []) @
     (if req_authority r \<noteq> [] then req_authority r
      else uri_host (req_uri r) @
           (if uri_port (req_uri r) \<noteq> 0 then '':'' @ port_text (uri_port (req_uri r)) else [])) @
     (if uri_path (req_uri r) = [] then ''/'' else uri_path (req_uri r)) @
     (if uri_query (req_uri r) \<noteq> [] then ''?'' @ uri_query (req_uri r) else [])"

section \<open>Requests\<close>

fun build_form_loop :: "(string \<times> string) list \<Rightarrow> bool \<Rightarrow> string \<Rightarrow> string" where
  "build_form_loop [] first body = body"
| "build_form_loop ((key, val) # kvs) first body =
     build_form_loop kvs False
       ((if first then body else body @ ''&'') @ url_encode key @ ''='' @ url_encode val)"

definition build_form_body :: "(string \<times> string) list \<Rightarrow> string" where
  "build_form_body kvs = build_form_loop kvs True []"

text \<open>\<open>metadata.authority\<close> as both request builders set it.\<close>

definition authority_of :: "uri \<Rightarrow> string" where
  "authority_of u = uri_host u @ (if uri_port u \<noteq> 0 then '':'' @ port_text (uri_port u) else [])"

definition add_bearer :: "string option \<Rightarrow> request \<Rightarrow> request" where
  "add_bearer tok r = (case tok of None \<Rightarrow> r | Some t \<Rightarrow> add_header ''Authorization'' (''Bearer '' @ t) r)"

definition make_form_post ::
  "('h, 'm) http_lib_scheme \<Rightarrow> string \<Rightarrow> string \<Rightarrow> string option \<Rightarrow> request res" where
  "make_form_post lib url body bearer_token =
     rbind (parse_absolute_uri lib url) (\<lambda>u.
       let r0 = (default_request lib)\<lparr>method_token := ''POST'', req_uri := u, req_authority := authority_of u\<rparr>;
           r1 = add_header ''Accept'' ''application/json''
                  (add_header ''Content-Type'' ''application/x-www-form-urlencoded'' r0);
           r2 = r1\<lparr>req_body := body\<rparr>;
           r3 = add_header ''Content-Length'' (to_string_nat (length body)) r2
       in Inr (add_bearer bearer_token r3))"

definition make_json_get ::
  "('h, 'm) http_lib_scheme \<Rightarrow> string \<Rightarrow> string option \<Rightarrow> request res" where
  "make_json_get lib url bearer_token =
     rbind (parse_absolute_uri lib url) (\<lambda>u.
       let r0 = (default_request lib)\<lparr>method_token := ''GET'', req_uri := u, req_authority := authority_of u\<rparr>;
           r1 = (add_header ''Accept'' ''application/json'' r0)\<lparr>req_body := []\<rparr>
       in Inr (add_bearer bearer_token r1))"

section \<open>The parser on a well formed URL\<close>

definition port_part :: "16 word \<Rightarrow> string" where
  "port_part p = (if p = 0 then [] else CHR '':'' # port_text p)"

definition url_text :: "string \<Rightarrow> string \<Rightarrow> 16 word \<Rightarrow> string \<Rightarrow> string \<Rightarrow> string" where
  "url_text scheme host port path query =
     scheme @ ''://'' @ host @ port_part port @ path @ (if query = [] then [] else CHR ''?'' # query)"

text \<open>
  The shape the services need: a scheme without colon, a host without delimiters and a path that
  starts with a slash and has no question mark.
\<close>

definition url_parts_ok :: "string \<Rightarrow> string \<Rightarrow> string \<Rightarrow> bool" where
  "url_parts_ok scheme host path \<longleftrightarrow>
     scheme \<noteq> [] \<and> CHR '':'' \<notin> set scheme \<and>
     CHR '':'' \<notin> set host \<and> CHR ''/'' \<notin> set host \<and> CHR ''?'' \<notin> set host \<and>
     path \<noteq> [] \<and> hd path = CHR ''/'' \<and> CHR ''?'' \<notin> set path"

lemma port_text_digits: "\<forall>c \<in> set (port_text p). is_digit c"
  by (simp add: port_text_def to_string_nat_digits)

lemma port_part_plain: "c \<in> set (port_part p) \<Longrightarrow> c \<noteq> CHR ''/'' \<and> c \<noteq> CHR ''?''"
  using port_text_digits [of p] by (auto simp: port_part_def is_digit_def split: if_splits)

lemma stoi_port_text: "stoi (port_text p) = Inr (uint p)"
proof -
  have "uint p < 65536" "0 \<le> uint p" using uint_lt2p [of p] by simp_all
  then have "- (2 ^ 31) \<le> uint p" "uint p < 2 ^ 31"
    by (auto intro: order_trans [of _ 0] less_trans [of _ 65536])
  then have f: "fits_int32 (int (unat p))" by (simp add: fits_int32_def)
  have "to_string_int (int (unat p)) = port_text p" by (simp add: to_string_int_def port_text_def)
  with stoi_to_string [OF f] show ?thesis by simp
qed

lemma parse_port:
  assumes "CHR '':'' \<notin> set host"
  shows "parse_authority u1 (host @ port_part port) =
    Inr (if port = 0 then u1\<lparr>uri_host := host\<rparr> else u1\<lparr>uri_host := host, uri_port := port\<rparr>)"
proof (cases "port = 0")
  case True
  then show ?thesis using rfind_ch_none [OF assms] by (simp add: port_part_def parse_authority_def)
next
  case False
  have "CHR '':'' \<notin> set (port_text port)" using port_text_digits [of port] by (auto simp: is_digit_def)
  then have "rfind_ch CHR '':'' (host @ CHR '':'' # port_text port) = Some (length host)"
    by (rule rfind_ch_found)
  moreover have "port_text port \<noteq> []" by (simp add: port_text_def to_string_nat_nonempty)
  ultimately show ?thesis using False
    by (simp add: port_part_def parse_authority_def Let_def substr_def stoi_port_text)
qed

lemma parse_url_text:
  assumes ok: "url_parts_ok scheme host path" and lib: "blank_defaults lib"
  shows "parse_absolute_uri lib (url_text scheme host port path query) =
    Inr \<lparr>uri_scheme = scheme, uri_host = host, uri_port = port, uri_path = path, uri_query = query\<rparr>"
proof -
  define q where "q = (if query = [] then [] else CHR ''?'' # query)"
  define auth where "auth = host @ port_part port"
  obtain p' where path: "path = CHR ''/'' # p'" using ok by (cases path) (auto simp: url_parts_ok_def)
  define url where "url = scheme @ ''://'' @ auth @ path @ q"
  have url_eq: "url_text scheme host port path query = url"
    by (simp add: url_def url_text_def q_def auth_def)
  have as: "at url (length scheme + 3) (auth @ path @ q)"
    using at_append [of url 0 "scheme @ ''://''"] by (simp add: url_def numeral_3_eq_3)
  have no_delim: "\<forall>d \<in> set auth. d \<noteq> CHR ''/'' \<and> d \<noteq> CHR ''?''"
    using ok port_part_plain by (auto simp: auth_def url_parts_ok_def)
  have sch: "find_str ''://'' url 0 = Some (length scheme)"
  proof (rule find_str_first [of 0 _ _ _ "auth @ path @ q"])
    show "at url (length scheme) (''://'' @ auth @ path @ q)"
      using at_append [of url 0 scheme] by (simp add: url_def)
    fix i assume "i < length scheme"
    then have "drop i url = scheme ! i # drop (Suc i) url"
      by (simp add: url_def nth_append flip: Cons_nth_drop_Suc)
    moreover have "scheme ! i \<noteq> CHR '':''"
      using ok \<open>i < length scheme\<close> by (metis nth_mem url_parts_ok_def)
    ultimately show "\<not> prefix ''://'' (drop i url)" by simp
  qed simp
  have ps: "find_ch CHR ''/'' url (length scheme + 3) = Some (length scheme + 3 + length auth)"
    using as no_delim by (intro find_ch_found [of _ _ auth _ "p' @ q"]) (auto simp: path)
  have path_at: "at url (length scheme + 3 + length auth) (path @ q)" using at_append [OF as] .
  have qs: "find_ch CHR ''?'' url (length scheme + 3) =
      (if query = [] then None else Some (length scheme + 3 + length auth + length path))"
  proof (cases "query = []")
    case True
    then have "CHR ''?'' \<notin> set (auth @ path @ q)" using no_delim ok by (auto simp: q_def url_parts_ok_def)
    from find_ch_none [OF as this] True show ?thesis by simp
  next
    case False
    then have "at url (length scheme + 3) ((auth @ path) @ CHR ''?'' # query)" using as by (simp add: q_def)
    moreover have "CHR ''?'' \<notin> set (auth @ path)" using no_delim ok by (auto simp: url_parts_ok_def)
    ultimately show ?thesis using find_ch_found False by fastforce
  qed
  have len: "length url = length scheme + 3 + length auth + length path + length q" by (simp add: url_def)
  have a_sub: "substr url (length scheme + 3) (length auth) = auth" by (rule substr_at [OF as])
  have p_sub: "substr url (length scheme + 3 + length auth) (length path) = path"
    by (rule substr_at [OF path_at])
  have q_drop: "drop (Suc (length scheme + 3 + length auth + length path)) url = query" if "query \<noteq> []"
  proof -
    have "at url (length scheme + 3 + length auth + length path) (CHR ''?'' # query)"
      using at_append [OF path_at] that by (simp add: q_def)
    from at_Cons [OF this] show ?thesis by (simp only: at_def)
  qed
  have s_sub: "substr url 0 (length scheme) = scheme" by (simp add: substr_def url_def)
  have d: "default_uri lib = blank_uri" using lib by (simp add: blank_defaults_def)
  have hc: "CHR '':'' \<notin> set host" using ok by (simp add: url_parts_ok_def)
  note port = parse_port [OF hc, of _ port, folded auth_def]
  have ne: "path \<noteq> []" by (simp add: path)
  show ?thesis
  proof (cases "query = []")
    case True
    have "parse_absolute_uri lib url =
        Inr \<lparr>uri_scheme = scheme, uri_host = host, uri_port = port, uri_path = path, uri_query = []\<rparr>"
      using True len ne
      by (simp add: parse_absolute_uri_def Let_def sch ps qs a_sub p_sub s_sub port d blank_uri_def q_def
          del: rbind_eq_Inr)
    then show ?thesis using url_eq True by simp
  next
    case False
    have "parse_absolute_uri lib url =
        Inr \<lparr>uri_scheme = scheme, uri_host = host, uri_port = port, uri_path = path, uri_query = query\<rparr>"
      using False q_drop [OF False] ne
      by (simp add: parse_absolute_uri_def Let_def sch ps qs a_sub p_sub s_sub port d blank_uri_def
          del: rbind_eq_Inr)
    then show ?thesis using url_eq by simp
  qed
qed

section \<open>Endpoints and requests stay on the configured host\<close>

text \<open>
  \<open>base_url_ok base scheme host port ctx\<close>: without its trailing slashes the base URL is
  \<open>scheme://host[:port]\<close> followed by the context path \<open>ctx\<close>, which may be empty.
\<close>

definition base_url_ok :: "string \<Rightarrow> string \<Rightarrow> string \<Rightarrow> 16 word \<Rightarrow> string \<Rightarrow> bool" where
  "base_url_ok base scheme host port ctx \<longleftrightarrow>
     trim_trailing_slash base = scheme @ ''://'' @ host @ port_part port @ ctx \<and>
     scheme \<noteq> [] \<and> CHR '':'' \<notin> set scheme \<and>
     CHR '':'' \<notin> set host \<and> CHR ''/'' \<notin> set host \<and> CHR ''?'' \<notin> set host \<and>
     (ctx = [] \<or> hd ctx = CHR ''/'') \<and> CHR ''?'' \<notin> set ctx"

definition endpoint_path :: "string \<Rightarrow> string \<Rightarrow> string \<Rightarrow> string" where
  "endpoint_path ctx realm suf = ctx @ ''/realms/'' @ url_encode realm @ suf"

lemma realm_root_slashes: "realm_root (base @ replicate n CHR ''/'') realm = realm_root base realm"
  by (simp add: realm_root_def trim_trailing_slash_def)

lemma endpoint_uri:
  assumes "base_url_ok base scheme host port ctx" and "blank_defaults lib" and "CHR ''?'' \<notin> set suf"
  shows "parse_absolute_uri lib (realm_root base realm @ suf) =
    Inr \<lparr>uri_scheme = scheme, uri_host = host, uri_port = port,
         uri_path = endpoint_path ctx realm suf, uri_query = []\<rparr>"
proof -
  have "realm_root base realm @ suf = url_text scheme host port (endpoint_path ctx realm suf) []"
    using assms(1) by (simp add: base_url_ok_def realm_root_def url_text_def endpoint_path_def)
  moreover have "url_parts_ok scheme host (endpoint_path ctx realm suf)"
    using assms by (cases ctx) (auto simp: base_url_ok_def url_parts_ok_def endpoint_path_def)
  ultimately show ?thesis using parse_url_text assms(2) by metis
qed

lemma authority_of_text: "authority_of u = uri_host u @ port_part (uri_port u)"
  by (simp add: authority_of_def port_part_def)

lemma make_json_get_fields:
  assumes "parse_absolute_uri lib url = Inr u" and "blank_defaults lib"
  shows "make_json_get lib url tok = Inr \<lparr>method_token = ''GET'', req_uri = u,
    req_authority = authority_of u,
    req_headers = (''Accept'', ''application/json'') #
      (case tok of None \<Rightarrow> [] | Some t \<Rightarrow> [(''Authorization'', ''Bearer '' @ t)]),
    req_body = [], req_user_data = Any_empty\<rparr>"
  using assms
  by (auto simp: make_json_get_def Let_def add_bearer_def add_header_def blank_defaults_def
      blank_request_def split: option.splits)

lemma request_url_get:
  assumes "url_parts_ok scheme host path" and "host \<noteq> []" and "blank_defaults lib"
  shows "map_sum id request_url (make_json_get lib (url_text scheme host port path query) tok) =
    Inr (url_text scheme host port path query)"
proof -
  have ne: "scheme \<noteq> []" "path \<noteq> []" using assms(1) by (auto simp: url_parts_ok_def)
  show ?thesis
    unfolding make_json_get_fields [OF parse_url_text [OF assms(1,3)] assms(3)]
    using ne assms(2) by (simp add: request_url_def authority_of_text url_text_def)
qed

lemma make_form_post_fields:
  assumes "parse_absolute_uri lib url = Inr u" and "blank_defaults lib"
  shows "make_form_post lib url body None = Inr \<lparr>method_token = ''POST'', req_uri = u,
    req_authority = authority_of u,
    req_headers = [(''Content-Type'', ''application/x-www-form-urlencoded''),
      (''Accept'', ''application/json''), (''Content-Length'', to_string_nat (length body))],
    req_body = body, req_user_data = Any_empty\<rparr>"
  using assms
  by (auto simp: make_form_post_def Let_def add_bearer_def add_header_def blank_defaults_def
      blank_request_def split: option.splits)

section \<open>Form bodies\<close>

definition form_pair :: "string \<times> string \<Rightarrow> string" where
  "form_pair kv = url_encode (fst kv) @ CHR ''='' # url_encode (snd kv)"

lemma build_form_loop_False:
  "build_form_loop kvs False body = body @ concat (map (\<lambda>kv. CHR ''&'' # form_pair kv) kvs)"
  by (induction kvs arbitrary: body) (auto simp: form_pair_def)

lemma build_form_body_Cons:
  "build_form_body (kv # kvs) = form_pair kv @ concat (map (\<lambda>kv. CHR ''&'' # form_pair kv) kvs)"
  by (cases kv) (simp add: build_form_body_def build_form_loop_False form_pair_def)

lemma build_form_body_Nil [simp]: "build_form_body [] = []"
  by (simp add: build_form_body_def)

lemma form_pair_plain: "CHR ''&'' \<notin> set (form_pair kv)"
  by (simp add: form_pair_def)

end
