(* ===== verification/PkceStrategy.thy ===== *)
theory PkceStrategy
  imports Pkce OidcUtils
begin

text \<open>
  \<open>keycloak/config.hpp\<close> and \<open>keycloak/auth/pkce_auth_strat.hpp\<close>: the realm configuration and the
  authorization URL.
\<close>

record realm_config =
  rc_base_url :: string
  rc_realm :: string
  rc_client_id :: string
  rc_redirect_uri :: string
  rc_scopes :: "string list"
  rc_pkce_verifier_len :: nat
  rc_omit_default_port :: bool

record auth_start =
  authorization_url :: string
  as_state :: string

fun build_query_loop :: "(string \<times> string) list \<Rightarrow> bool \<Rightarrow> string \<Rightarrow> string" where
  "build_query_loop [] first q = q"
| "build_query_loop ((k, v) # params) first q =
     build_query_loop params False ((if first then q else q @ ''&'') @ url_encode k @ ''='' @ url_encode v)"

definition build_query :: "(string \<times> string) list \<Rightarrow> string" where
  "build_query params = build_query_loop params True []"

text \<open>
  \<open>detail::authorization_endpoint(cfg)\<close> of this header: unlike the one of \<open>oidc_utils.hpp\<close> it
  does not trim slashes from the base URL.
\<close>

definition strategy_endpoint :: "realm_config \<Rightarrow> string" where
  "strategy_endpoint cfg =
     rc_base_url cfg @ ''/realms/'' @ url_encode (rc_realm cfg) @ ''/protocol/openid-connect/auth''"

fun join_scopes_loop :: "string list \<Rightarrow> bool \<Rightarrow> string \<Rightarrow> string" where
  "join_scopes_loop [] first out = out"
| "join_scopes_loop (s # ss) first out =
     join_scopes_loop ss False ((if first then out else out @ '' '') @ s)"

definition join_scopes :: "string list \<Rightarrow> string" where
  "join_scopes scopes = join_scopes_loop scopes True []"

text \<open>The constructor of \<open>PkceAuthStrategy\<close>.\<close>

definition pkce_auth_strategy :: "realm_config \<Rightarrow> realm_config res" where
  "pkce_auth_strategy cfg =
     (if rc_base_url cfg = [] \<or> rc_realm cfg = [] \<or> rc_client_id cfg = [] \<or> rc_redirect_uri cfg = []
      then Inl (Runtime_error ''PkceAuthStrategy: missing required config fields'')
      else Inr cfg)"

definition auth_params :: "realm_config \<Rightarrow> string \<Rightarrow> pkce_pair \<Rightarrow> (string \<times> string) list" where
  "auth_params cfg st pkce =
     [(''response_type'', ''code''), (''client_id'', rc_client_id cfg),
      (''redirect_uri'', rc_redirect_uri cfg), (''state'', st),
      (''code_challenge'', code_challenge pkce), (''code_challenge_method'', ''S256''),
      (''scope'', join_scopes (rc_scopes cfg))]"

definition create_authorization_url :: "realm_config \<Rightarrow> string \<Rightarrow> pkce_pair \<Rightarrow> auth_start" where
  "create_authorization_url cfg st pkce =
     \<lparr>authorization_url = strategy_endpoint cfg @ ''?'' @ build_query (auth_params cfg st pkce),
      as_state = st\<rparr>"

section \<open>The query is the form body of its parameters\<close>

lemma build_query_loop_form: "build_query_loop params first q = build_form_loop params first q"
  by (induction params first q rule: build_query_loop.induct) simp_all

lemma build_query_form: "build_query params = build_form_body params"
  by (simp add: build_query_def build_form_body_def build_query_loop_form)

text \<open>Joining scopes and splitting a scope string are inverse to each other on real scopes.\<close>

lemma join_scopes_loop_False:
  "join_scopes_loop ss False out = out @ concat (map (\<lambda>s. CHR '' '' # s) ss)"
  by (induction ss arbitrary: out) auto

lemma join_scopes_simps:
  "join_scopes [] = []"
  "join_scopes (s # ss) = s @ concat (map (\<lambda>s. CHR '' '' # s) ss)"
  by (simp_all add: join_scopes_def join_scopes_loop_False)

lemma strategy_endpoint_url:
  assumes "base_url_ok (rc_base_url cfg) scheme host port ctx"
    and "rc_base_url cfg = [] \<or> last (rc_base_url cfg) \<noteq> CHR ''/''"
  shows "authorization_url (create_authorization_url cfg st pkce) =
    url_text scheme host port (endpoint_path ctx (rc_realm cfg) ''/protocol/openid-connect/auth'')
      (build_form_body (auth_params cfg st pkce))"
proof -
  have "strip_back CHR ''/'' (rc_base_url cfg) = rc_base_url cfg" using assms(2) by (rule strip_back_stop)
  then have base: "rc_base_url cfg = scheme @ ''://'' @ host @ port_part port @ ctx"
    using assms(1) by (simp add: base_url_ok_def trim_trailing_slash_def)
  have "build_form_body (auth_params cfg st pkce) \<noteq> []"
    by (simp add: auth_params_def build_form_body_Cons form_pair_def)
  then show ?thesis
    by (simp add: create_authorization_url_def strategy_endpoint_def base url_text_def
        endpoint_path_def build_query_form)
qed

end
