(* ===== verification/JsonText.thy ===== *)
theory JsonText
  imports JsonUtils
begin

text \<open>
  What the JSON reader does on JSON. \<open>jclosed\<close>, \<open>jitem\<close>, \<open>jmembers\<close> and \<open>jelems\<close> are a
  grammar of JSON texts with arbitrary white space; it contains every RFC 8259 value (numbers
  and literals are taken loosely: any run of characters without a delimiter). On such texts
  \<open>jskip\<close> returns, and spans exactly the value. Outside the grammar it need not return:
  the two stuck configurations of its loops are identified here.
\<close>

section \<open>The grammar\<close>

definition blank :: "string \<Rightarrow> bool" where
  "blank w \<longleftrightarrow> (\<forall>c \<in> set w. isspace c)"

definition delim :: "char \<Rightarrow> bool" where
  "delim c \<longleftrightarrow> c = CHR '','' \<or> c = CHR ''}'' \<or> c = CHR '']''"

text \<open>The characters between the quotes of a string, escapes kept as written.\<close>

fun str_body :: "string \<Rightarrow> bool" where
  "str_body [] \<longleftrightarrow> True"
| "str_body (c # cs) \<longleftrightarrow>
     (if c = BSL then (case cs of [] \<Rightarrow> False | _ # r \<Rightarrow> str_body r)
      else c \<noteq> DQ \<and> str_body cs)"

definition scalar_text :: "string \<Rightarrow> bool" where
  "scalar_text u \<longleftrightarrow>
     u \<noteq> [] \<and> (\<forall>c \<in> set u. \<not> delim c) \<and>
     \<not> isspace (hd u) \<and> hd u \<noteq> DQ \<and> hd u \<noteq> CHR ''{'' \<and> hd u \<noteq> CHR ''[''"

definition string_text :: "string \<Rightarrow> string" where
  "string_text b = DQ # b @ [DQ]"

text \<open>
  An item is what stands between two delimiters: a closed value (string, object or array) with
  white space behind it, or a scalar. A scalar owns the white space behind it, because
  \<open>skip_json_value\<close> runs on to the next delimiter.
\<close>

inductive jclosed :: "string \<Rightarrow> bool"
  and jitem :: "string \<Rightarrow> bool"
  and jmembers :: "string \<Rightarrow> bool"
  and jelems :: "string \<Rightarrow> bool" where
  closed_string: "str_body b \<Longrightarrow> jclosed (string_text b)"
| closed_object_empty: "blank w \<Longrightarrow> jclosed (CHR ''{'' # w @ ''}'')"
| closed_object: "jmembers m \<Longrightarrow> jclosed (CHR ''{'' # m @ ''}'')"
| closed_array_empty: "blank w \<Longrightarrow> jclosed (CHR ''['' # w @ '']'')"
| closed_array: "jelems e \<Longrightarrow> jclosed (CHR ''['' # e @ '']'')"
| item_closed: "jclosed v \<Longrightarrow> blank w \<Longrightarrow> jitem (v @ w)"
| item_scalar: "scalar_text u \<Longrightarrow> jitem u"
| members_one: "blank w1 \<Longrightarrow> str_body k \<Longrightarrow> blank w2 \<Longrightarrow> blank w3 \<Longrightarrow> jitem i \<Longrightarrow>
    jmembers (w1 @ string_text k @ w2 @ CHR '':'' # w3 @ i)"
| members_more: "blank w1 \<Longrightarrow> str_body k \<Longrightarrow> blank w2 \<Longrightarrow> blank w3 \<Longrightarrow> jitem i \<Longrightarrow> jmembers m \<Longrightarrow>
    jmembers (w1 @ string_text k @ w2 @ CHR '':'' # w3 @ i @ CHR '','' # m)"
| elems_one: "blank w \<Longrightarrow> jitem i \<Longrightarrow> jelems (w @ i)"
| elems_more: "blank w \<Longrightarrow> jitem i \<Longrightarrow> jelems e \<Longrightarrow> jelems (w @ i @ CHR '','' # e)"

text \<open>The reader's view of a place where a value ends.\<close>

definition ends_item :: "string \<Rightarrow> bool" where
  "ends_item post \<longleftrightarrow> post = [] \<or> delim (hd post)"

lemma blank_simps [simp]: "blank []" "blank (c # w) \<longleftrightarrow> isspace c \<and> blank w"
  "blank (u @ v) \<longleftrightarrow> blank u \<and> blank v"
  by (auto simp: blank_def)

lemma ends_item_simps [simp]: "ends_item []" "ends_item (c # s) \<longleftrightarrow> delim c"
  by (auto simp: ends_item_def)

lemma delim_simps [simp]: "delim (CHR '','')" "delim (CHR ''}'')" "delim (CHR '']'')"
  by (simp_all add: delim_def)

lemma punct_not_space [simp]:
  "\<not> isspace DQ" "\<not> isspace (CHR '':'')" "\<not> isspace (CHR '','')"
  "\<not> isspace (CHR ''}'')" "\<not> isspace (CHR '']'')" "\<not> isspace (CHR ''{'')" "\<not> isspace (CHR ''['')"
  by (simp_all add: isspace_def)

lemma delim_not_space: "delim c \<Longrightarrow> \<not> isspace c"
  by (auto simp: delim_def)

section \<open>The scanners on a known suffix\<close>

lemma skip_ws_here [scan_simps]:
  "at tx pos s \<Longrightarrow> s = [] \<or> \<not> isspace (hd s) \<Longrightarrow> skip_ws tx pos = pos"
  by (cases s) (auto simp: skip_ws.simps [of tx pos] at_Nil dest: at_nth)

lemma skip_ws_skip: "at tx pos (w @ s) \<Longrightarrow> blank w \<Longrightarrow> skip_ws tx pos = skip_ws tx (pos + length w)"
proof (induction w arbitrary: pos)
  case (Cons c w)
  then have "at tx pos (c # (w @ s))" by simp
  note st = at_step [OF this]
  then have "skip_ws tx pos = skip_ws tx (Suc pos)"
    using Cons.prems by (simp add: skip_ws.simps [of tx pos])
  with Cons st show ?case by simp
qed simp

lemma skip_ws_blank:
  "at tx pos (w @ s) \<Longrightarrow> blank w \<Longrightarrow> s = [] \<or> \<not> isspace (hd s) \<Longrightarrow>
    skip_ws tx pos = pos + length w"
  using skip_ws_skip skip_ws_here at_append by metis

lemma skip_string_loop_body:
  "at tx pos (b @ DQ # s) \<Longrightarrow> str_body b \<Longrightarrow> skip_string_loop tx pos False = pos + length b + 1"
proof (induction b arbitrary: pos rule: str_body.induct)
  case 1
  then show ?case by (simp add: skip_string_loop.simps [of tx pos] at_step)
next
  case (2 c cs)
  then have "at tx pos (c # (cs @ DQ # s))" by simp
  note st = at_step [OF this]
  show ?case
  proof (cases "c = BSL")
    case True
    with 2 obtain d r where cs: "cs = d # r" and r: "str_body r" by (auto split: list.splits)
    then have "at tx (Suc pos) (d # (r @ DQ # s))" using st by simp
    note st2 = at_step [OF this]
    have "skip_string_loop tx pos False = skip_string_loop tx (Suc (Suc pos)) False"
      using st st2 True by (simp add: skip_string_loop.simps [of tx pos] skip_string_loop.simps [of tx "Suc pos"])
    then show ?thesis using 2(1) [OF True cs] st2(3) r True cs by simp
  next
    case False
    with 2(4) have "c \<noteq> DQ" "str_body cs" by auto
    moreover have "skip_string_loop tx pos False = skip_string_loop tx (Suc pos) False"
      using st False \<open>c \<noteq> DQ\<close> by (simp add: skip_string_loop.simps [of tx pos])
    ultimately show ?thesis using 2(2) [OF False] st(3) by simp
  qed
qed

lemma skip_json_string_body:
  "at tx pos (string_text b @ s) \<Longrightarrow> str_body b \<Longrightarrow> skip_json_string tx pos = pos + length (string_text b)"
proof -
  assume "at tx pos (string_text b @ s)" and b: "str_body b"
  then have "at tx pos (DQ # (b @ DQ # s))" by (simp add: string_text_def)
  note st = at_step [OF this]
  then show ?thesis using skip_string_loop_body [OF st(3) b]
    by (simp add: skip_json_string_def string_text_def)
qed

lemma skip_json_string_other:
  "at tx pos s \<Longrightarrow> s = [] \<or> hd s \<noteq> DQ \<Longrightarrow> skip_json_string tx pos = pos"
  by (cases s) (auto simp: skip_json_string_def at_Nil dest: at_nth)

lemma skip_scalar_run:
  "at tx pos (u @ s) \<Longrightarrow> \<forall>c \<in> set u. \<not> delim c \<Longrightarrow> ends_item s \<Longrightarrow> skip_scalar tx pos = pos + length u"
proof (induction u arbitrary: pos)
  case Nil
  then show ?case
    by (cases s) (auto simp: skip_scalar.simps [of tx pos] at_Nil delim_def dest: at_nth)
next
  case (Cons c u)
  then have "at tx pos (c # (u @ s))" by simp
  note st = at_step [OF this]
  then have "skip_scalar tx pos = skip_scalar tx (Suc pos)"
    using Cons.prems by (simp add: skip_scalar.simps [of tx pos] delim_def)
  with Cons st show ?case by simp
qed

section \<open>One unfolding of \<open>jskip\<close> per situation\<close>

lemma jskip_value_skip:
  "at tx pos (w @ s) \<Longrightarrow> blank w \<Longrightarrow> jskip JValue tx pos = jskip JValue tx (pos + length w)"
  using skip_ws_skip [of tx pos w s]
  by (subst (1 2) jskip.simps) simp

lemma jskip_value_string:
  assumes "at tx pos (string_text b @ s)" and "str_body b"
  shows "jskip JValue tx pos = Some (pos + length (string_text b))"
proof -
  have a: "at tx pos (DQ # (b @ DQ # s))" using assms(1) by (simp add: string_text_def)
  have "skip_ws tx pos = pos" by (rule skip_ws_here [OF a]) simp
  then show ?thesis using at_step [OF a] skip_json_string_body [OF assms]
    by (subst jskip.simps) simp
qed

lemma jskip_value_object:
  assumes "at tx pos (CHR ''{'' # s)"
  shows "jskip JValue tx pos = jskip JObject tx (Suc pos)"
proof -
  have "skip_ws tx pos = pos" by (rule skip_ws_here [OF assms]) simp
  then show ?thesis using at_step [OF assms] by (subst jskip.simps) simp
qed

lemma jskip_value_array:
  assumes "at tx pos (CHR ''['' # s)"
  shows "jskip JValue tx pos = jskip JArray tx (Suc pos)"
proof -
  have "skip_ws tx pos = pos" by (rule skip_ws_here [OF assms]) simp
  then show ?thesis using at_step [OF assms] by (subst jskip.simps) simp
qed

lemma jskip_value_scalar:
  assumes "at tx pos (u @ s)" and "scalar_text u" and "ends_item s"
  shows "jskip JValue tx pos = Some (pos + length u)"
proof -
  obtain c u' where u: "u = c # u'" using assms(2) by (cases u) (auto simp: scalar_text_def)
  then have a: "at tx pos (c # (u' @ s))" using assms(1) by simp
  have c: "\<not> isspace c" "c \<noteq> DQ" "c \<noteq> CHR ''{''" "c \<noteq> CHR ''[''"
    using assms(2) by (auto simp: scalar_text_def u)
  have "skip_ws tx pos = pos" by (rule skip_ws_here [OF a]) (simp add: c)
  moreover have "skip_scalar tx pos = pos + length u"
    using skip_scalar_run assms by (auto simp: scalar_text_def)
  ultimately show ?thesis using at_step [OF a] c by (subst jskip.simps) simp
qed

lemma jskip_object_close:
  assumes "at tx pos (w @ CHR ''}'' # s)" and "blank w"
  shows "jskip JObject tx pos = Some (Suc (pos + length w))"
proof -
  have ws: "skip_ws tx pos = pos + length w" by (rule skip_ws_blank [OF assms]) simp
  have a: "at tx (pos + length w) (CHR ''}'' # s)" using at_append [OF assms(1)] .
  have "pos < length tx" using at_length [OF assms(1)] by simp
  with ws at_step [OF a] show ?thesis by (subst jskip.simps) simp
qed

lemma jskip_array_close:
  assumes "at tx pos (w @ CHR '']'' # s)" and "blank w"
  shows "jskip JArray tx pos = Some (Suc (pos + length w))"
proof -
  have ws: "skip_ws tx pos = pos + length w" by (rule skip_ws_blank [OF assms]) simp
  have a: "at tx (pos + length w) (CHR '']'' # s)" using at_append [OF assms(1)] .
  have "pos < length tx" using at_length [OF assms(1)] by simp
  with ws at_step [OF a] show ?thesis by (subst jskip.simps) simp
qed

lemma jskip_object_member:
  assumes "at tx pos (w1 @ string_text k @ w2 @ CHR '':'' # s)"
    and "blank w1" and "str_body k" and "blank w2"
    and "jskip JValue tx (pos + length w1 + length (string_text k) + length w2 + 1) = Some q"
  shows "jskip JObject tx pos =
    (let p = skip_ws tx q in
     if p < length tx \<and> tx ! p = CHR '','' then jskip JObject tx (Suc p)
     else if p < length tx \<and> tx ! p = CHR ''}'' then Some (Suc p)
     else jskip JObject tx p)"
proof -
  have q: "string_text k @ w2 @ CHR '':'' # s = DQ # (k @ DQ # w2 @ CHR '':'' # s)"
    by (simp add: string_text_def)
  have p1: "skip_ws tx pos = pos + length w1"
    by (rule skip_ws_blank [OF assms(1,2)]) (simp add: q)
  have a1: "at tx (pos + length w1) (string_text k @ w2 @ CHR '':'' # s)"
    using at_append [OF assms(1)] .
  then have open_quote: "tx ! (pos + length w1) = DQ" "pos + length w1 < length tx"
    unfolding q by (auto dest: at_step)
  have str: "skip_json_string tx (pos + length w1) = pos + length w1 + length (string_text k)"
    by (rule skip_json_string_body [OF a1 assms(3)])
  note a2 = at_append [OF a1]
  have p2: "skip_ws tx (pos + length w1 + length (string_text k)) =
      pos + length w1 + length (string_text k) + length w2"
    by (rule skip_ws_blank [OF a2 assms(4)]) simp
  note a3 = at_step [OF at_append [OF a2]]
  show ?thesis
    by (subst jskip.simps) (use p1 open_quote str p2 a3 assms(5) in \<open>simp add: Let_def split del: if_split\<close>)
qed

lemma jskip_array_elem:
  assumes "at tx pos (w @ i @ s)" and "blank w" and "i \<noteq> []" and "\<not> isspace (hd i)"
    and "hd i \<noteq> CHR '']''" and "jskip JValue tx (pos + length w) = Some q"
  shows "jskip JArray tx pos =
    (let p = skip_ws tx q in
     if p < length tx \<and> tx ! p = CHR '','' then jskip JArray tx (Suc p)
     else if p < length tx \<and> tx ! p = CHR '']'' then Some (Suc p)
     else jskip JArray tx p)"
proof -
  obtain c i' where i: "i = c # i'" using assms(3) by (cases i) auto
  have p1: "skip_ws tx pos = pos + length w"
    by (rule skip_ws_blank [OF assms(1,2)]) (use assms(4) i in simp)
  have "at tx (pos + length w) (c # (i' @ s))" using at_append [OF assms(1)] i by simp
  then have "tx ! (pos + length w) = c" "pos + length w < length tx" by (auto dest: at_step)
  then show ?thesis
    by (subst jskip.simps) (use p1 assms(5,6) i in \<open>simp add: Let_def split del: if_split\<close>)
qed

section \<open>On the grammar, the scanner returns and spans the value\<close>

lemma jclosed_head: "jclosed v \<Longrightarrow> v \<noteq> [] \<and> \<not> isspace (hd v) \<and> \<not> delim (hd v)"
  by (cases v rule: jclosed.cases) (auto simp: string_text_def delim_def)

lemma jitem_head: "jitem i \<Longrightarrow> i \<noteq> [] \<and> \<not> isspace (hd i) \<and> \<not> delim (hd i)"
  by (cases i rule: jitem.cases) (auto simp: scalar_text_def dest: jclosed_head)

text \<open>Where an item was read up to \<open>q\<close>: only white space is left before the delimiter.\<close>

definition reads_item :: "string \<Rightarrow> nat \<Rightarrow> string \<Rightarrow> bool" where
  "reads_item tx pos i \<longleftrightarrow>
     (\<exists>q. jskip JValue tx pos = Some q \<and> skip_ws tx q = pos + length i)"

lemma item_value:
  assumes "at tx pos (w @ i @ d # s)" and "blank w" and "delim d"
    and "\<forall>tx pos s. at tx pos (i @ s) \<longrightarrow> ends_item s \<longrightarrow> reads_item tx pos i"
  obtains q where "jskip JValue tx pos = Some q" and "jskip JValue tx (pos + length w) = Some q"
    and "skip_ws tx q = pos + length w + length i"
    and "at tx (pos + length w + length i) (d # s)"
proof -
  have a: "at tx (pos + length w) (i @ d # s)" using at_append [OF assms(1)] .
  with assms(3,4) have "reads_item tx (pos + length w) i" by simp
  then obtain q where q: "jskip JValue tx (pos + length w) = Some q"
    "skip_ws tx q = pos + length w + length i" unfolding reads_item_def by blast
  moreover have "jskip JValue tx pos = Some q"
    using jskip_value_skip [OF assms(1,2)] q(1) by simp
  ultimately show thesis using that at_append [OF a] by blast
qed

lemma jskip_text:
  "jclosed v \<Longrightarrow> \<forall>tx pos s. at tx pos (v @ s) \<longrightarrow> jskip JValue tx pos = Some (pos + length v)"
  "jitem i \<Longrightarrow> \<forall>tx pos s. at tx pos (i @ s) \<longrightarrow> ends_item s \<longrightarrow> reads_item tx pos i"
  "jmembers m \<Longrightarrow> \<forall>tx pos s. at tx pos (m @ CHR ''}'' # s) \<longrightarrow>
     jskip JObject tx pos = Some (Suc (pos + length m))"
  "jelems e \<Longrightarrow> \<forall>tx pos s. at tx pos (e @ CHR '']'' # s) \<longrightarrow>
     jskip JArray tx pos = Some (Suc (pos + length e))"
proof (induction rule: jclosed_jitem_jmembers_jelems.inducts)
  case (closed_string b)
  then show ?case using jskip_value_string by blast
next
  case (closed_object_empty w)
  show ?case
  proof (intro allI impI)
    fix tx pos s assume "at tx pos ((CHR ''{'' # w @ ''}'') @ s)"
    then have a: "at tx pos (CHR ''{'' # (w @ CHR ''}'' # s))" by simp
    show "jskip JValue tx pos = Some (pos + length (CHR ''{'' # w @ ''}''))"
      using jskip_value_object [OF a] jskip_object_close [OF at_Cons [OF a] closed_object_empty] by simp
  qed
next
  case (closed_object m)
  show ?case
  proof (intro allI impI)
    fix tx pos s assume "at tx pos ((CHR ''{'' # m @ ''}'') @ s)"
    then have a: "at tx pos (CHR ''{'' # (m @ CHR ''}'' # s))" by simp
    show "jskip JValue tx pos = Some (pos + length (CHR ''{'' # m @ ''}''))"
      using jskip_value_object [OF a] closed_object.IH at_Cons [OF a] by simp
  qed
next
  case (closed_array_empty w)
  show ?case
  proof (intro allI impI)
    fix tx pos s assume "at tx pos ((CHR ''['' # w @ '']'') @ s)"
    then have a: "at tx pos (CHR ''['' # (w @ CHR '']'' # s))" by simp
    show "jskip JValue tx pos = Some (pos + length (CHR ''['' # w @ '']''))"
      using jskip_value_array [OF a] jskip_array_close [OF at_Cons [OF a] closed_array_empty] by simp
  qed
next
  case (closed_array e)
  show ?case
  proof (intro allI impI)
    fix tx pos s assume "at tx pos ((CHR ''['' # e @ '']'') @ s)"
    then have a: "at tx pos (CHR ''['' # (e @ CHR '']'' # s))" by simp
    show "jskip JValue tx pos = Some (pos + length (CHR ''['' # e @ '']''))"
      using jskip_value_array [OF a] closed_array.IH at_Cons [OF a] by simp
  qed
next
  case (item_closed v w)
  show ?case
  proof (intro allI impI)
    fix tx pos s assume "at tx pos ((v @ w) @ s)" and s: "ends_item s"
    then have a: "at tx pos (v @ (w @ s))" by simp
    have v: "jskip JValue tx pos = Some (pos + length v)" using item_closed.IH a by blast
    have "skip_ws tx (pos + length v) = pos + length v + length w"
      using item_closed.hyps(2) s
      by (intro skip_ws_blank [OF at_append [OF a]]) (auto simp: ends_item_def delim_not_space)
    with v show "reads_item tx pos (v @ w)" by (simp add: reads_item_def)
  qed
next
  case (item_scalar u)
  show ?case
  proof (intro allI impI)
    fix tx pos s assume a: "at tx pos (u @ s)" and s: "ends_item s"
    have "skip_ws tx (pos + length u) = pos + length u"
      using s by (intro skip_ws_here [OF at_append [OF a]]) (auto simp: ends_item_def delim_not_space)
    with jskip_value_scalar [OF a item_scalar s] show "reads_item tx pos u"
      by (simp add: reads_item_def)
  qed
next
  case (members_one w1 k w2 w3 i)
  show ?case
  proof (intro allI impI)
    fix tx pos s
    let ?m = "w1 @ string_text k @ w2 @ CHR '':'' # w3 @ i"
    assume "at tx pos (?m @ CHR ''}'' # s)"
    then have a: "at tx pos (w1 @ string_text k @ w2 @ CHR '':'' # w3 @ i @ CHR ''}'' # s)" by simp
    have v: "at tx (pos + length w1 + length (string_text k) + length w2 + 1) (w3 @ i @ CHR ''}'' # s)"
      using at_Cons [OF at_append [OF at_append [OF at_append [OF a]]]] by simp
    obtain q where q: "jskip JValue tx (pos + length w1 + length (string_text k) + length w2 + 1) = Some q"
      "skip_ws tx q = pos + length ?m" "at tx (pos + length ?m) (CHR ''}'' # s)"
      using item_value [OF v members_one(4) _ members_one(6)] by (auto simp: algebra_simps)
    show "jskip JObject tx pos = Some (Suc (pos + length ?m))"
      using jskip_object_member [OF a members_one(1-3) q(1)] q(2) at_step [OF q(3)]
      by (simp add: Let_def)
  qed
next
  case (members_more w1 k w2 w3 i m)
  show ?case
  proof (intro allI impI)
    fix tx pos s
    let ?n = "w1 @ string_text k @ w2 @ CHR '':'' # w3 @ i"
    let ?m = "w1 @ string_text k @ w2 @ CHR '':'' # w3 @ i @ CHR '','' # m"
    assume "at tx pos (?m @ CHR ''}'' # s)"
    then have a: "at tx pos (w1 @ string_text k @ w2 @ CHR '':'' # w3 @ i @ CHR '','' # m @ CHR ''}'' # s)"
      by simp
    have v: "at tx (pos + length w1 + length (string_text k) + length w2 + 1)
        (w3 @ i @ CHR '','' # m @ CHR ''}'' # s)"
      using at_Cons [OF at_append [OF at_append [OF at_append [OF a]]]] by simp
    obtain q where q: "jskip JValue tx (pos + length w1 + length (string_text k) + length w2 + 1) = Some q"
      "skip_ws tx q = pos + length ?n" "at tx (pos + length ?n) (CHR '','' # m @ CHR ''}'' # s)"
      using item_value [OF v members_more(4) _ members_more(7)] by (auto simp: algebra_simps)
    have "jskip JObject tx (Suc (pos + length ?n)) = Some (Suc (Suc (pos + length ?n) + length m))"
      using members_more(8) at_Cons [OF q(3)] by blast
    then show "jskip JObject tx pos = Some (Suc (pos + length ?m))"
      using jskip_object_member [OF a members_more(1-3) q(1)] q(2) at_step [OF q(3)]
      by (simp add: Let_def)
  qed
next
  case (elems_one w i)
  show ?case
  proof (intro allI impI)
    fix tx pos s
    assume "at tx pos ((w @ i) @ CHR '']'' # s)"
    then have a: "at tx pos (w @ i @ CHR '']'' # s)" by simp
    obtain q where q: "jskip JValue tx (pos + length w) = Some q"
      "skip_ws tx q = pos + length w + length i" "at tx (pos + length w + length i) (CHR '']'' # s)"
      using item_value [OF a elems_one(1) _ elems_one(3)] by auto
    show "jskip JArray tx pos = Some (Suc (pos + length (w @ i)))"
      using jskip_array_elem [OF a elems_one(1) _ _ _ q(1)] jitem_head [OF elems_one(2)] q(2) at_step [OF q(3)]
      by (auto simp add: Let_def delim_def)
  qed
next
  case (elems_more w i e)
  show ?case
  proof (intro allI impI)
    fix tx pos s
    assume "at tx pos ((w @ i @ CHR '','' # e) @ CHR '']'' # s)"
    then have a: "at tx pos (w @ i @ CHR '','' # e @ CHR '']'' # s)" by simp
    obtain q where q: "jskip JValue tx (pos + length w) = Some q"
      "skip_ws tx q = pos + length w + length i"
      "at tx (pos + length w + length i) (CHR '','' # e @ CHR '']'' # s)"
      using item_value [OF a elems_more(1) _ elems_more(4)] by auto
    let ?p = "pos + length w + length i"
    have "jskip JArray tx (Suc ?p) = Some (Suc (Suc ?p + length e))"
      using elems_more(5) at_Cons [OF q(3)] by blast
    then show "jskip JArray tx pos = Some (Suc (pos + length (w @ i @ CHR '','' # e)))"
      using jskip_array_elem [OF a elems_more(1) _ _ _ q(1)] jitem_head [OF elems_more(2)] q(2)
        at_step [OF q(3)] by (auto simp add: Let_def delim_def)
  qed
qed

lemmas jskip_closed = jskip_text(1) [rule_format]
lemmas jskip_item = jskip_text(2) [rule_format]

section \<open>Off the grammar: the stuck loops\<close>

text \<open>
  In the object loop a closing bracket is neither a member nor the end: the value scanner stops
  on it at once, nothing is skipped, and the loop starts again at the same place. The array loop
  has the same trouble with a closing brace.
\<close>

definition stuck_at :: "jmode \<Rightarrow> string \<Rightarrow> nat \<Rightarrow> bool" where
  "stuck_at m tx pos \<longleftrightarrow> pos < length tx \<and>
     (m = JObject \<and> tx ! pos = CHR '']'' \<or> m = JArray \<and> tx ! pos = CHR ''}'')"

lemma jskip_stuck:
  assumes "stuck_at m tx pos"
  shows "jskip m tx pos = None"
proof (rule ccontr)
  assume "jskip m tx pos \<noteq> None"
  then obtain q where q: "jskip m tx pos = Some q" by blast
  have "\<not> stuck_at m tx pos \<and>
      (m = JValue \<longrightarrow> pos < length tx \<longrightarrow> tx ! pos = CHR '']'' \<or> tx ! pos = CHR ''}'' \<longrightarrow> q = pos)"
  proof (rule jskip.raw_induct [OF _ q], goal_cases)
    case (1 f mode tx pos q)
    note IH = "1"(1) and eq = "1"(2)
    have ws: "skip_ws tx pos = pos" if "pos < length tx" "tx ! pos = CHR '']'' \<or> tx ! pos = CHR ''}''"
      using that by (subst skip_ws.simps) auto
    have str: "skip_json_string tx pos = pos"
      if "pos < length tx" "tx ! pos = CHR '']'' \<or> tx ! pos = CHR ''}''"
      using that by (auto simp: skip_json_string_def)
    have sc: "skip_scalar tx pos = pos" if "pos < length tx" "tx ! pos = CHR '']'' \<or> tx ! pos = CHR ''}''"
      using that by (subst skip_scalar.simps) auto
    show ?case
    proof (intro conjI impI notI)
      assume st: "stuck_at mode tx pos"
      then have c: "pos < length tx" "tx ! pos = CHR '']'' \<or> tx ! pos = CHR ''}''"
        by (auto simp: stuck_at_def)
      have V: "y = pos" if "f JValue tx pos = Some y" for y using IH [OF that] c by simp
      have no: "f mode tx pos \<noteq> Some y" for y using IH [of mode tx pos y] st by blast
      show False using eq st c ws [OF c] str [OF c] V no
        by (cases mode) (auto simp: stuck_at_def Let_def bind_eq_Some_conv dest!: V)
    next
      assume "mode = JValue" "pos < length tx" "tx ! pos = CHR '']'' \<or> tx ! pos = CHR ''}''"
      then show "q = pos" using eq ws sc by (auto simp: Let_def)
    qed
  qed
  with assms show False by blast
qed

section \<open>Finding a key\<close>

text \<open>\<open>key_free pat pre rest\<close>: \<open>pat\<close> does not start inside \<open>pre\<close> in the text \<open>pre @ rest\<close>.\<close>

fun key_free :: "string \<Rightarrow> string \<Rightarrow> string \<Rightarrow> bool" where
  "key_free pat [] rest \<longleftrightarrow> True"
| "key_free pat (c # cs) rest \<longleftrightarrow> \<not> prefix pat (c # cs @ rest) \<and> key_free pat cs rest"

lemma key_free_drop: "key_free pat pre rest \<Longrightarrow> i < length pre \<Longrightarrow> \<not> prefix pat (drop i (pre @ rest))"
proof (induction pre arbitrary: i)
  case (Cons c cs)
  then show ?case by (cases i) auto
qed simp

lemma find_str_key:
  assumes "key_free pat pre (pat @ rest)"
  shows "find_str pat (pre @ pat @ rest) 0 = Some (length pre)"
  by (rule find_str_first [of 0 "length pre" _ pat rest]) (use key_free_drop [OF assms] in auto)

lemma find_str_absent:
  assumes "key_free pat s []" and "pat \<noteq> []"
  shows "find_str pat s pos = None"
proof (rule ccontr)
  assume "find_str pat s pos \<noteq> None"
  then obtain q where q: "find_str pat s pos = Some q" by blast
  from find_str_Some [OF this] have "take (length pat) (drop q s) = pat" "q + length pat \<le> length s" by auto
  then have "prefix pat (drop q s)" by (metis take_is_prefix)
  moreover have "q < length s" using \<open>q + length pat \<le> length s\<close> assms(2) by (cases pat) auto
  ultimately show False using key_free_drop [OF assms(1), of q] by simp
qed

lemma extract_absent:
  "key_free (quoted key) json [] \<Longrightarrow> extract_json_value json key = Inr None"
  using find_str_absent [of "quoted key" json 0]
  by (auto simp: extract_json_value_def extract_value_loop.simps [of json key 0] quoted_def)

lemma key_free_no_quote: "DQ \<notin> set s \<Longrightarrow> key_free (quoted key) s []"
  by (induction s) (auto simp: quoted_def)

lemma extract_string_absent:
  "key_free (quoted key) json [] \<Longrightarrow> extract_json_string json key = Inr None"
  by (simp add: extract_json_string_def extract_absent)

text \<open>
  The first occurrence of the quoted key decides: the value is whatever stands behind the next
  colon.
\<close>

lemma extract_first:
  assumes json: "json = pre @ quoted key @ g @ CHR '':'' # w @ rest"
    and free: "key_free (quoted key) pre (quoted key @ g @ CHR '':'' # w @ rest)"
    and g: "CHR '':'' \<notin> set g" and w: "blank w" and rest: "rest = [] \<or> \<not> isspace (hd rest)"
  defines "vb \<equiv> length pre + length (quoted key) + length g + 1 + length w"
  shows "extract_json_value json key =
    rbind (skip_json_value json vb) (\<lambda>e.
      if vb < e then Inr (Some (substr json vb (e - vb)))
      else extract_value_loop json key (length pre + length (quoted key)))"
    and "at json vb rest"
proof -
  have f: "find_str (quoted key) json 0 = Some (length pre)"
    unfolding json by (rule find_str_key [OF free])
  have a1: "at json (length pre + length (quoted key)) (g @ CHR '':'' # w @ rest)"
    using at_append [OF at_append [of json 0 pre "quoted key @ g @ CHR '':'' # w @ rest"]] json by simp
  have c: "find_ch CHR '':'' json (length pre + length (quoted key)) =
      Some (length pre + length (quoted key) + length g)"
    by (rule find_ch_found [OF a1 g])
  have a2: "at json (Suc (length pre + length (quoted key) + length g)) (w @ rest)"
    by (rule at_Cons [OF at_append [OF a1]])
  have s: "skip_ws json (Suc (length pre + length (quoted key) + length g)) = vb"
    using skip_ws_blank [OF a2 w rest] by (simp add: vb_def)
  show "at json vb rest" using at_append [OF a2] by (simp add: vb_def)
  have "0 < length json" using json by simp
  with f c s show "extract_json_value json key =
    rbind (skip_json_value json vb) (\<lambda>e.
      if vb < e then Inr (Some (substr json vb (e - vb)))
      else extract_value_loop json key (length pre + length (quoted key)))"
    unfolding extract_json_value_def by (subst extract_value_loop.simps) (simp add: Let_def)
qed

text \<open>The readable case: a closed value, or a scalar up to its delimiter.\<close>

lemma extract_found:
  assumes json: "json = pre @ quoted key @ g @ CHR '':'' # w @ v @ post"
    and free: "key_free (quoted key) pre (quoted key @ g @ CHR '':'' # w @ v @ post)"
    and g: "CHR '':'' \<notin> set g" and w: "blank w"
    and v: "jclosed v \<or> scalar_text v \<and> ends_item post"
  shows "extract_json_value json key = Inr (Some v)"
proof -
  let ?vb = "length pre + length (quoted key) + length g + 1 + length w"
  have hd: "v \<noteq> []" "\<not> isspace (hd v)" using v by (auto dest: jclosed_head simp: scalar_text_def)
  then have "v @ post = [] \<or> \<not> isspace (hd (v @ post))" by simp
  note ex = extract_first [OF json free g w this]
  have "jskip JValue json ?vb = Some (?vb + length v)"
    using v jskip_closed [OF _ ex(2)] jskip_value_scalar [OF ex(2)] by blast
  then have "skip_json_value json ?vb = Inr (?vb + length v)" by (simp add: skip_json_value_def)
  then show ?thesis using ex(1) substr_at [OF ex(2)] hd(1) by simp
qed

lemma parse_string_text [simp]: "parse_json_string (string_text b) = Some (unescape_loop False b)"
  by (simp add: parse_json_string_def string_text_def substr_def)

lemma extract_string_found:
  assumes "json = pre @ quoted key @ g @ CHR '':'' # w @ string_text b @ post"
    and "key_free (quoted key) pre (quoted key @ g @ CHR '':'' # w @ string_text b @ post)"
    and "CHR '':'' \<notin> set g" and "blank w" and "str_body b"
  shows "extract_json_string json key = Inr (Some (unescape_loop False b))"
  using extract_found [OF assms(1-4)] closed_string [OF assms(5)]
  by (simp add: extract_json_string_def)

lemma unescape_plain: "BSL \<notin> set b \<Longrightarrow> unescape_loop False b = b"
  by (induction b) auto

lemma str_body_plain: "BSL \<notin> set b \<Longrightarrow> DQ \<notin> set b \<Longrightarrow> str_body b"
  by (induction b) auto

section \<open>Words and sets\<close>

text \<open>\<open>split_ws\<close> on words with single spaces in between.\<close>

definition word_text :: "string \<Rightarrow> bool" where
  "word_text u \<longleftrightarrow> u \<noteq> [] \<and> (\<forall>c \<in> set u. \<not> isspace c)"

lemma word_sep_space: "is_word_sep c \<Longrightarrow> isspace c"
  by (auto simp: is_word_sep_def isspace_def)

lemma split_ws_loop_words:
  assumes "at tx pos (u @ concat (map (\<lambda>v. CHR '' '' # v) us))" and "word_text u" and "\<forall>v \<in> set us. word_text v"
  shows "split_ws_loop tx pos = u # us"
  using assms
proof (induction us arbitrary: u pos)
  case Nil
  then have a: "at tx pos u" and u: "u \<noteq> []" "\<forall>c \<in> set u. \<not> isspace c" by (simp_all add: word_text_def)
  have "skip_ws tx pos = pos" by (rule skip_ws_here [OF a]) (use u hd_in_set in auto)
  moreover have "find_if is_word_sep tx pos = None"
    by (rule find_if_none [OF a]) (use u word_sep_space in blast)
  moreover have "pos < length tx" "drop pos tx = u" using at_length [OF a] u(1) a by (auto simp: at_def)
  ultimately show ?case by (simp add: split_ws_loop.simps [of tx pos])
next
  case (Cons v us)
  let ?rest = "v @ concat (map (\<lambda>v. CHR '' '' # v) us)"
  have a: "at tx pos (u @ CHR '' '' # ?rest)" and u: "u \<noteq> []" "\<forall>c \<in> set u. \<not> isspace c"
    using Cons.prems by (simp_all add: word_text_def)
  have "skip_ws tx pos = pos" by (rule skip_ws_here [OF a]) (use u hd_in_set in auto)
  moreover have "find_if is_word_sep tx pos = Some (pos + length u)"
    by (rule find_if_found [OF a]) (use u word_sep_space in \<open>auto simp: is_word_sep_def\<close>)
  moreover have "substr tx pos (length u) = u" by (rule substr_at [OF a])
  moreover have "split_ws_loop tx (Suc (pos + length u)) = v # us"
    by (rule Cons.IH [OF at_Cons [OF at_append [OF a]]]) (use Cons.prems(3) in auto)
  moreover have "pos < length tx" using at_length [OF a] by simp
  ultimately show ?case by (simp add: split_ws_loop.simps [of tx pos])
qed

lemma split_ws_words:
  "\<forall>v \<in> set (u # us). word_text v \<Longrightarrow> split_ws (u @ concat (map (\<lambda>v. CHR '' '' # v) us)) = u # us"
  unfolding split_ws_def by (rule split_ws_loop_words) auto

lemma append_unique_set: "set (append_unique t s) = set t \<union> set s"
  by (induction t s rule: append_unique.induct) auto

lemma append_unique_distinct: "distinct t \<Longrightarrow> distinct (append_unique t s)"
  by (induction t s rule: append_unique.induct) auto

end
