(* ===== verification/TokenService.thy ===== *)
theory TokenService
  imports OidcUtils JwtUtils JsonText
begin

text \<open>
  \<open>keycloak/oauth/token_service.hpp\<close> and \<open>oauth/types.hpp\<close>: the calls to the token, revocation,
  introspection and user info endpoints. Each is one request to the injected HTTP client and a
  reading of its response. The state is the client's.
\<close>

section \<open>Configuration and results\<close>

record token_service_config =
  ts_base_url :: string
  ts_realm :: string
  ts_client_id :: string
  ts_client_secret :: "string option"
  ts_redirect_uri :: string

record token_set =
  access_token :: string
  id_token :: string
  refresh_token :: string
  token_type :: string
  tk_scope :: string
  expires_in :: int
  refresh_expires_in :: int

record user_info =
  ui_sub :: string
  ui_preferred_username :: string
  ui_email :: string
  ui_roles :: "string list"

record oauth_result =
  oa_ok :: bool
  oa_http_status :: int
  oa_error :: string
  oa_tokens :: token_set
  oa_user_info :: user_info

definition empty_token_set :: token_set where
  "empty_token_set = \<lparr>access_token = [], id_token = [], refresh_token = [], token_type = ''Bearer'',
     tk_scope = [], expires_in = 0, refresh_expires_in = 0\<rparr>"

definition empty_user_info :: user_info where
  "empty_user_info = \<lparr>ui_sub = [], ui_preferred_username = [], ui_email = [], ui_roles = []\<rparr>"

text \<open>A result with the default tokens and user info, as the designated initialisers leave them.\<close>

definition oauth_plain :: "bool \<Rightarrow> int \<Rightarrow> string \<Rightarrow> oauth_result" where
  "oauth_plain ok http_status error = \<lparr>oa_ok = ok, oa_http_status = http_status, oa_error = error,
     oa_tokens = empty_token_set, oa_user_info = empty_user_info\<rparr>"

section \<open>Reading responses\<close>

definition compose_error_message :: "http_response \<Rightarrow> string \<Rightarrow> string res" where
  "compose_error_message resp fallback_error =
     rbind (json_string_or (resp_body resp) ''error'' fallback_error) (\<lambda>error.
     rbind (json_string_or (resp_body resp) ''error_description'' []) (\<lambda>description.
       Inr (if description = [] then error else error @ '': '' @ description)))"

definition failed_response :: "http_response \<Rightarrow> string \<Rightarrow> oauth_result res" where
  "failed_response resp fallback_error =
     rbind (compose_error_message resp fallback_error) (\<lambda>error.
       Inr (oauth_plain False (effective_status resp) error))"

definition json_int_or :: "string \<Rightarrow> string \<Rightarrow> int \<Rightarrow> int res" where
  "json_int_or json key d = rbind (extract_json_int json key) (\<lambda>v. Inr (value_or d v))"

definition parse_token_response :: "http_response \<Rightarrow> string \<Rightarrow> oauth_result res" where
  "parse_token_response resp fallback_error =
     (let http_status = effective_status resp; body = resp_body resp in
      if \<not> is_2xx http_status then failed_response resp fallback_error
      else
        rbind (extract_json_string body ''access_token'') (\<lambda>access.
          case access of
            None \<Rightarrow> Inr (oauth_plain False http_status ''token_response_missing_access_token'')
          | Some tok \<Rightarrow>
              rbind (json_string_or body ''id_token'' []) (\<lambda>idt.
              rbind (json_string_or body ''refresh_token'' []) (\<lambda>refresh.
              rbind (json_string_or body ''token_type'' ''Bearer'') (\<lambda>ty.
              rbind (json_string_or body ''scope'' []) (\<lambda>sc.
              rbind (json_int_or body ''expires_in'' 0) (\<lambda>ex.
              rbind (json_int_or body ''refresh_expires_in'' 0) (\<lambda>rex.
                Inr ((oauth_plain True http_status [])\<lparr>oa_tokens :=
                  \<lparr>access_token = tok, id_token = idt, refresh_token = refresh, token_type = ty,
                   tk_scope = sc, expires_in = ex, refresh_expires_in = rex\<rparr>\<rparr>)))))))))"

definition read_user_info :: "string \<Rightarrow> user_info res" where
  "read_user_info body =
     rbind (json_string_or body ''sub'' []) (\<lambda>sub.
     rbind (json_string_or body ''preferred_username'' []) (\<lambda>name.
     rbind (json_string_or body ''email'' []) (\<lambda>email.
     rbind (extract_all_roles body) (\<lambda>roles.
       Inr \<lparr>ui_sub = sub, ui_preferred_username = name, ui_email = email, ui_roles = roles\<rparr>))))"

definition revoke_result :: "http_response \<Rightarrow> oauth_result res" where
  "revoke_result resp =
     (let http_status = effective_status resp in
      if is_2xx http_status then Inr (oauth_plain True http_status [])
      else failed_response resp ''token_revoke_failed'')"

definition introspect_result :: "http_response \<Rightarrow> oauth_result res" where
  "introspect_result resp =
     (let http_status = effective_status resp; body = resp_body resp in
      if \<not> is_2xx http_status then failed_response resp ''token_introspection_failed''
      else
        rbind (extract_json_bool body ''active'') (\<lambda>active.
          if \<not> value_or False active then Inr (oauth_plain False 401 ''inactive_token'')
          else
            rbind (read_user_info body) (\<lambda>info.
            rbind (json_string_or body ''scope'' []) (\<lambda>sc.
            rbind (json_string_or body ''token_type'' ''Bearer'') (\<lambda>ty.
            rbind (extract_json_int body ''exp'') (\<lambda>ex.
              Inr ((oauth_plain True http_status [])
                \<lparr>oa_tokens := empty_token_set\<lparr>tk_scope := sc, token_type := ty,
                   expires_in := value_or (expires_in empty_token_set) ex\<rparr>,
                 oa_user_info := info\<rparr>)))))))"

definition userinfo_result :: "http_response \<Rightarrow> oauth_result res" where
  "userinfo_result resp =
     (let http_status = effective_status resp in
      if \<not> is_2xx http_status then failed_response resp ''userinfo_request_failed''
      else rbind (read_user_info (resp_body resp)) (\<lambda>info.
        Inr ((oauth_plain True http_status [])\<lparr>oa_user_info := info\<rparr>)))"

section \<open>The operations\<close>

definition has_realm :: "token_service_config \<Rightarrow> string \<Rightarrow> bool" where
  "has_realm cfg realm \<longleftrightarrow> realm = ts_realm cfg"

definition with_secret :: "token_service_config \<Rightarrow> (string \<times> string) list \<Rightarrow> (string \<times> string) list" where
  "with_secret cfg kvs =
     (case ts_client_secret cfg of None \<Rightarrow> kvs | Some secret \<Rightarrow> kvs @ [(''client_secret'', secret)])"

text \<open>\<open>co_await http_client_.send(make_form_post(url, body))\<close>, and the reading of the response.\<close>

definition post_form ::
  "('h, 'm) http_lib_scheme \<Rightarrow> string \<Rightarrow> (string \<times> string) list \<Rightarrow>
    (http_response \<Rightarrow> oauth_result res) \<Rightarrow> ('h, oauth_result) act" where
  "post_form lib url kvs read =
     abind (alift (make_form_post lib url (build_form_body kvs) None)) (\<lambda>req.
     abind (http_send lib req) (\<lambda>resp. alift (read resp)))"

definition exchange_fields :: "token_service_config \<Rightarrow> string \<Rightarrow> string \<Rightarrow> (string \<times> string) list" where
  "exchange_fields cfg code_text code_verifier = with_secret cfg
     [(''grant_type'', ''authorization_code''), (''code'', code_text), (''client_id'', ts_client_id cfg),
      (''redirect_uri'', ts_redirect_uri cfg), (''code_verifier'', code_verifier)]"

definition refresh_fields :: "token_service_config \<Rightarrow> string \<Rightarrow> (string \<times> string) list" where
  "refresh_fields cfg refresh = with_secret cfg
     [(''grant_type'', ''refresh_token''), (''refresh_token'', refresh), (''client_id'', ts_client_id cfg)]"

definition revoke_fields :: "token_service_config \<Rightarrow> string \<Rightarrow> string \<Rightarrow> (string \<times> string) list" where
  "revoke_fields cfg token hint = with_secret cfg
     [(''client_id'', ts_client_id cfg), (''token'', token), (''token_type_hint'', hint)]"

definition introspect_fields :: "token_service_config \<Rightarrow> string \<Rightarrow> (string \<times> string) list" where
  "introspect_fields cfg token = with_secret cfg
     [(''client_id'', ts_client_id cfg), (''token'', token)]"

definition exchange_authorization_code ::
  "('h, 'm) http_lib_scheme \<Rightarrow> token_service_config \<Rightarrow> string \<Rightarrow> string \<Rightarrow> ('h, oauth_result) act" where
  "exchange_authorization_code lib cfg code_text code_verifier =
     (if code_text = [] \<or> code_verifier = [] then aret (oauth_plain False 400 ''missing_code_or_code_verifier'')
      else post_form lib (token_endpoint (ts_base_url cfg) (ts_realm cfg))
             (exchange_fields cfg code_text code_verifier)
             (\<lambda>resp. parse_token_response resp ''token_exchange_failed''))"

definition refresh_tokens ::
  "('h, 'm) http_lib_scheme \<Rightarrow> token_service_config \<Rightarrow> string \<Rightarrow> ('h, oauth_result) act" where
  "refresh_tokens lib cfg refresh =
     (if refresh = [] then aret (oauth_plain False 400 ''missing_refresh_token'')
      else post_form lib (token_endpoint (ts_base_url cfg) (ts_realm cfg)) (refresh_fields cfg refresh)
             (\<lambda>resp. parse_token_response resp ''token_refresh_failed''))"

definition refresh_tokens_realm ::
  "('h, 'm) http_lib_scheme \<Rightarrow> token_service_config \<Rightarrow> string \<Rightarrow> string \<Rightarrow> ('h, oauth_result) act" where
  "refresh_tokens_realm lib cfg realm refresh =
     (if \<not> has_realm cfg realm then athrow (Invalid_argument ''unknown realm'')
      else refresh_tokens lib cfg refresh)"

definition revoke_token ::
  "('h, 'm) http_lib_scheme \<Rightarrow> token_service_config \<Rightarrow> string \<Rightarrow> string \<Rightarrow> ('h, oauth_result) act" where
  "revoke_token lib cfg token hint =
     (if token = [] then aret (oauth_plain False 400 ''missing_token'')
      else post_form lib (revocation_endpoint (ts_base_url cfg) (ts_realm cfg))
             (revoke_fields cfg token hint) revoke_result)"

definition revoke_token_realm ::
  "('h, 'm) http_lib_scheme \<Rightarrow> token_service_config \<Rightarrow> string \<Rightarrow> string \<Rightarrow> string \<Rightarrow> ('h, oauth_result) act" where
  "revoke_token_realm lib cfg realm token hint =
     (if \<not> has_realm cfg realm then athrow (Invalid_argument ''unknown realm'')
      else revoke_token lib cfg token hint)"

definition introspect_token ::
  "('h, 'm) http_lib_scheme \<Rightarrow> token_service_config \<Rightarrow> string \<Rightarrow> ('h, oauth_result) act" where
  "introspect_token lib cfg token =
     (if token = [] then aret (oauth_plain False 400 ''missing_token'')
      else post_form lib (introspection_endpoint (ts_base_url cfg) (ts_realm cfg))
             (introspect_fields cfg token) introspect_result)"

definition fetch_user_info ::
  "('h, 'm) http_lib_scheme \<Rightarrow> token_service_config \<Rightarrow> string \<Rightarrow> ('h, oauth_result) act" where
  "fetch_user_info lib cfg access =
     (if access = [] then aret (oauth_plain False 400 ''missing_access_token'')
      else
        abind (alift (make_json_get lib (userinfo_endpoint (ts_base_url cfg) (ts_realm cfg)) (Some access)))
          (\<lambda>req. abind (http_send lib req) (\<lambda>resp. alift (userinfo_result resp))))"

section \<open>Soundness of the readings\<close>

lemma oauth_plain_simps [simp]:
  "oa_ok (oauth_plain ok st err) = ok" "oa_http_status (oauth_plain ok st err) = st"
  "oa_error (oauth_plain ok st err) = err" "oa_tokens (oauth_plain ok st err) = empty_token_set"
  "oa_user_info (oauth_plain ok st err) = empty_user_info"
  by (simp_all add: oauth_plain_def)

lemma json_string_or_Inr: "json_string_or json key d = Inr v \<Longrightarrow>
    \<exists>x. extract_json_string json key = Inr x \<and> v = value_or d x"
  by (auto simp: json_string_or_def)

lemma failed_response_not_ok: "failed_response resp fb = Inr r \<Longrightarrow>
    \<not> oa_ok r \<and> oa_http_status r = effective_status resp \<and> oa_tokens r = empty_token_set"
  by (auto simp: failed_response_def)

text \<open>Success is a 2xx status and an access token in the body; a failure carries no token.\<close>

lemma parse_token_response_cases:
  assumes "parse_token_response resp fb = Inr r"
  obtains (failed) "\<not> is_2xx (effective_status resp)" "failed_response resp fb = Inr r"
  | (no_token) "is_2xx (effective_status resp)" "extract_json_string (resp_body resp) ''access_token'' = Inr None"
      "r = oauth_plain False (effective_status resp) ''token_response_missing_access_token''"
  | (tokens) tok ts where "is_2xx (effective_status resp)"
      "extract_json_string (resp_body resp) ''access_token'' = Inr (Some tok)"
      "r = (oauth_plain True (effective_status resp) [])\<lparr>oa_tokens := ts\<rparr>" "access_token ts = tok"
proof (cases "is_2xx (effective_status resp)")
  case False
  with assms failed show thesis by (simp add: parse_token_response_def Let_def)
next
  case True
  with assms obtain access where access: "extract_json_string (resp_body resp) ''access_token'' = Inr access"
    by (auto simp: parse_token_response_def Let_def)
  show thesis
  proof (cases access)
    case None
    with True access assms no_token show thesis by (simp add: parse_token_response_def Let_def)
  next
    case (Some tok)
    from assms True access obtain idt refresh ty sc ex rex where
      "r = (oauth_plain True (effective_status resp) [])\<lparr>oa_tokens :=
         \<lparr>access_token = tok, id_token = idt, refresh_token = refresh, token_type = ty,
          tk_scope = sc, expires_in = ex, refresh_expires_in = rex\<rparr>\<rparr>"
      unfolding parse_token_response_def Let_def by (simp add: Some) metis
    with tokens True access Some show thesis by simp
  qed
qed

lemma parse_token_response_sound:
  assumes "parse_token_response resp fb = Inr r"
  shows "oa_http_status r = effective_status resp"
    and "oa_ok r \<longleftrightarrow> is_2xx (effective_status resp) \<and>
      (\<exists>tok. extract_json_string (resp_body resp) ''access_token'' = Inr (Some tok))"
    and "oa_ok r \<Longrightarrow> extract_json_string (resp_body resp) ''access_token'' = Inr (Some (access_token (oa_tokens r)))"
    and "\<not> oa_ok r \<Longrightarrow> oa_tokens r = empty_token_set"
  using assms by (cases rule: parse_token_response_cases; simp add: failed_response_not_ok)+

lemma introspect_result_sound:
  assumes "introspect_result resp = Inr r"
  shows "oa_ok r \<longleftrightarrow> is_2xx (effective_status resp) \<and>
      extract_json_bool (resp_body resp) ''active'' = Inr (Some True)"
    and "oa_http_status r = (if is_2xx (effective_status resp) \<and> \<not> oa_ok r then 401 else effective_status resp)"
  using assms by (auto simp: introspect_result_def oauth_plain_def value_or_def Let_def split: if_splits option.splits
      dest: failed_response_not_ok)

lemma userinfo_result_sound:
  "userinfo_result resp = Inr r \<Longrightarrow> oa_http_status r = effective_status resp \<and>
    (oa_ok r \<longleftrightarrow> is_2xx (effective_status resp))"
  by (auto simp: userinfo_result_def Let_def split: if_splits dest: failed_response_not_ok)

lemma revoke_result_sound:
  "revoke_result resp = Inr r \<Longrightarrow> oa_http_status r = effective_status resp \<and>
    (oa_ok r \<longleftrightarrow> is_2xx (effective_status resp))"
  by (auto simp: revoke_result_def Let_def split: if_splits dest: failed_response_not_ok)

lemmas result_sound = parse_token_response_sound introspect_result_sound userinfo_result_sound
  revoke_result_sound

section \<open>What goes over the wire\<close>

text \<open>For a well formed base URL the request is fixed completely.\<close>

definition form_request :: "string \<Rightarrow> string \<Rightarrow> 16 word \<Rightarrow> string \<Rightarrow> (string \<times> string) list \<Rightarrow> request" where
  "form_request scheme host port path kvs =
     (let u = \<lparr>uri_scheme = scheme, uri_host = host, uri_port = port, uri_path = path, uri_query = []\<rparr>
      in \<lparr>method_token = ''POST'', req_uri = u, req_authority = authority_of u,
          req_headers = [(''Content-Type'', ''application/x-www-form-urlencoded''),
            (''Accept'', ''application/json''),
            (''Content-Length'', to_string_nat (length (build_form_body kvs)))],
          req_body = build_form_body kvs, req_user_data = Any_empty\<rparr>)"

lemma post_form_sends:
  assumes "base_url_ok base scheme host port ctx" and "blank_defaults lib" and "CHR ''?'' \<notin> set suf"
  shows "post_form lib (realm_root base realm @ suf) kvs read h =
    abind (http_send lib (form_request scheme host port (endpoint_path ctx realm suf) kvs))
      (\<lambda>resp. alift (read resp)) h"
  unfolding post_form_def make_form_post_fields [OF endpoint_uri [OF assms] assms(2)]
  by (simp add: abind_def form_request_def Let_def)

lemma post_form_Inr:
  "post_form lib url kvs read h = (Inr r, h') \<Longrightarrow> \<exists>resp. read resp = Inr r"
  by (auto simp: post_form_def abind_eq_Inr)

end
