(* ===== verification/StateStore.thy ===== *)
theory StateStore
  imports Base
begin

text \<open>
  \<open>keycloak/state_store/state_store.hpp\<close> and the \<open>StateStoreLike\<close> concept of
  \<open>api_models/concepts.hpp\<close>: what a PKCE state entry is, and the contract a store of them owes
  its clients. The contract is the locale \<open>state_store\<close>; \<open>MemoryStore\<close> and \<open>RedisStore\<close>
  interpret it, the two login clients rest on it. Its main consequence is that a state is consumed at most once, in any order of
  operations that any number of clients issue.
\<close>

record state_entry =
  se_code_verifier :: string
  se_realm :: string

section \<open>Sequences of operations\<close>

datatype store_op = Op_create state_entry int | Op_consume string

datatype store_obs =
    Created "string res"
  | Consumed string "state_entry option res"

type_synonym 'w create_op = "state_entry \<Rightarrow> int \<Rightarrow> ('w, string) act"
type_synonym 'w consume_op = "string \<Rightarrow> ('w, state_entry option) act"

text \<open>
  Each operation is one step (the memory store holds its mutex throughout, Redis serves one
  command at a time), so an interleaving of clients is a sequence of operations. \<open>run_ops\<close>
  records what each of them returned.
\<close>

fun run_ops :: "'w create_op \<Rightarrow> 'w consume_op \<Rightarrow> store_op list \<Rightarrow> 'w \<Rightarrow> store_obs list \<times> 'w" where
  "run_ops create consume [] w = ([], w)"
| "run_ops create consume (Op_create e ttl # ops) w =
     (case create e ttl w of (r, w1) \<Rightarrow>
        (case run_ops create consume ops w1 of (obs, w2) \<Rightarrow> (Created r # obs, w2)))"
| "run_ops create consume (Op_consume st # ops) w =
     (case consume st w of (r, w1) \<Rightarrow>
        (case run_ops create consume ops w1 of (obs, w2) \<Rightarrow> (Consumed st r # obs, w2)))"

text \<open>
  The same as a step relation. Between two operations the client may change the part of the world
  that the store does not own (it draws random bytes, it talks to the token endpoint); such a
  change is a \<open>noise\<close> step.
\<close>

inductive store_steps ::
  "'w create_op \<Rightarrow> 'w consume_op \<Rightarrow> ('w \<Rightarrow> 'w \<Rightarrow> bool) \<Rightarrow> 'w \<Rightarrow> store_obs list \<Rightarrow> 'w \<Rightarrow> bool"
  for create consume noise where
  none: "store_steps create consume noise w [] w"
| create: "create e ttl w = (r, w1) \<Longrightarrow> store_steps create consume noise w1 obs w' \<Longrightarrow>
    store_steps create consume noise w (Created r # obs) w'"
| consume: "consume st w = (r, w1) \<Longrightarrow> store_steps create consume noise w1 obs w' \<Longrightarrow>
    store_steps create consume noise w (Consumed st r # obs) w'"
| noise: "noise w w1 \<Longrightarrow> store_steps create consume noise w1 obs w' \<Longrightarrow>
    store_steps create consume noise w obs w'"

text \<open>The usual noise: a change of the environment next to the store.\<close>

definition env_noise :: "'a \<times> sysenv \<Rightarrow> 'a \<times> sysenv \<Rightarrow> bool" where
  "env_noise w w' \<longleftrightarrow> fst w' = fst w"

lemma store_steps_append:
  "store_steps create consume noise w obs w1 \<Longrightarrow> store_steps create consume noise w1 obs' w' \<Longrightarrow>
    store_steps create consume noise w (obs @ obs') w'"
  by (induction rule: store_steps.induct) (auto intro: store_steps.intros)

lemma run_ops_steps:
  "run_ops create consume ops w = (obs, w') \<Longrightarrow> store_steps create consume noise w obs w'"
proof (induction ops arbitrary: w obs)
  case (Cons p ops)
  then show ?case
    by (cases p) (auto split: prod.splits intro: store_steps.intros)
qed (auto intro: store_steps.intros)

text \<open>\<open>KeycloakHandler\<close> and the verifier-only operations forward to the entry operations.\<close>

definition create_state :: "'w create_op \<Rightarrow> string \<Rightarrow> int \<Rightarrow> ('w, string) act" where
  "create_state create code_verifier ttl =
     create \<lparr>se_code_verifier = code_verifier, se_realm = []\<rparr> ttl"

definition consume_state :: "'w consume_op \<Rightarrow> string \<Rightarrow> ('w, string option) act" where
  "consume_state consume st =
     abind (consume st) (\<lambda>entry. aret (map_option se_code_verifier entry))"

section \<open>The contract\<close>

text \<open>
  \<open>stored w st\<close> is the entry that is kept for \<open>st\<close>, expired or not. \<open>issues st r\<close>: a call of
  \<open>create\<close> with the outcome \<open>r\<close> may have put \<open>st\<close> into the store; that is the state it returns
  and, for a remote store, any state when the call fails half way. \<open>noise\<close> is what clients do
  between the operations.
\<close>

locale state_store =
  fixes create :: "state_entry \<Rightarrow> int \<Rightarrow> 'w \<Rightarrow> string res \<times> 'w"
    and consume :: "string \<Rightarrow> 'w \<Rightarrow> state_entry option res \<times> 'w"
    and stored :: "'w \<Rightarrow> string \<Rightarrow> state_entry option"
    and issues :: "string \<Rightarrow> string res \<Rightarrow> bool"
    and noise :: "'w \<Rightarrow> 'w \<Rightarrow> bool"
  assumes create_stores: "se_code_verifier e \<noteq> [] \<Longrightarrow> create e ttl w = (Inr st, w') \<Longrightarrow>
      stored w' st = Some e"
    and create_keeps: "create e ttl w = (rc, w') \<Longrightarrow> \<not> issues st rc \<Longrightarrow>
      stored w' st = None \<or> stored w' st = stored w st"
    and consume_some: "consume st w = (Inr (Some e), w') \<Longrightarrow> stored w st = Some e"
    and consume_removes: "consume st w = (Inr oe, w') \<Longrightarrow> stored w' st = None"
    and consume_keeps: "consume st w = (r, w') \<Longrightarrow>
      stored w' st' = None \<or> stored w' st' = stored w st'"
    and noise_keeps: "noise w w' \<Longrightarrow> stored w' = stored w"
begin

text \<open>A state that is not stored is not consumed until some \<open>create\<close> issues it again.\<close>

lemma gone_until_created:
  assumes "store_steps create consume noise w obs w'" and "stored w st = None"
    and "obs = mid @ Consumed st (Inr (Some e)) # post"
  shows "\<exists>r. Created r \<in> set mid \<and> issues st r"
  using assms
proof (induction arbitrary: mid rule: store_steps.induct)
  case (create e' ttl w r w1 obs w')
  then obtain mid' where mid: "mid = Created r # mid'" "obs = mid' @ Consumed st (Inr (Some e)) # post"
    by (cases mid) auto
  show ?case
  proof (cases "issues st r")
    case False
    then have "stored w1 st = None" using create_keeps [OF create.hyps(1)] create.prems(1) by metis
    with create.IH mid show ?thesis by auto
  qed (use mid in auto)
next
  case (consume st' w r w1 obs w')
  show ?case
  proof (cases mid)
    case Nil
    with consume have "stored w st = Some e" using consume_some by auto
    with consume.prems(1) show ?thesis by simp
  next
    case (Cons o1 mid')
    have "stored w1 st = None" using consume_keeps [OF consume.hyps(1)] consume.prems(1) by metis
    with consume Cons show ?thesis by auto
  qed
next
  case (noise w w1 obs w')
  then show ?case using noise_keeps by metis
qed simp

text \<open>
  One-time use: between two successful consumptions of a state, the store has issued that state
  anew.
\<close>

lemma consumed_once:
  assumes "store_steps create consume noise w obs w'"
    and "obs = pre @ Consumed st (Inr (Some e)) # mid @ Consumed st (Inr (Some e')) # post"
  shows "\<exists>r. Created r \<in> set mid \<and> issues st r"
  using assms
proof (induction arbitrary: pre rule: store_steps.induct)
  case (create e0 ttl w r w1 obs w')
  then show ?case by (cases pre) auto
next
  case (consume st' w r w1 obs w')
  show ?case
  proof (cases pre)
    case Nil
    then have "stored w1 st = None" "obs = mid @ Consumed st (Inr (Some e')) # post"
      using consume.prems consume.hyps(1) consume_removes by auto
    then show ?thesis using gone_until_created [OF consume.hyps(2)] by blast
  qed (use consume in auto)
qed auto

text \<open>
  What is consumed is what was stored: an entry that a \<open>create\<close> put under the state it returned is
  the one that the next successful consumption of that state yields, unless the state is issued
  once more in between.
\<close>

lemma consumed_entry:
  assumes "store_steps create consume noise w obs w'" and "stored w st = Some e \<or> stored w st = None"
    and "obs = mid @ Consumed st (Inr (Some e')) # post"
    and "\<And>r. Created r \<in> set mid \<Longrightarrow> \<not> issues st r"
  shows "e' = e"
  using assms
proof (induction arbitrary: mid rule: store_steps.induct)
  case (create e0 ttl w r w1 obs w')
  then obtain mid' where mid: "mid = Created r # mid'" "obs = mid' @ Consumed st (Inr (Some e')) # post"
    by (cases mid) auto
  then have "\<not> issues st r" using create.prems(3) by auto
  then have "stored w1 st = Some e \<or> stored w1 st = None"
    using create_keeps [OF create.hyps(1)] create.prems(1) by metis
  with create.IH mid create.prems(3) show ?case by auto
next
  case (consume st' w r w1 obs w')
  show ?case
  proof (cases mid)
    case Nil
    with consume have "stored w st = Some e'" using consume_some by auto
    with consume.prems(1) show ?thesis by simp
  next
    case (Cons o1 mid')
    have "stored w1 st = Some e \<or> stored w1 st = None"
      using consume_keeps [OF consume.hyps(1)] consume.prems(1) by metis
    with consume Cons show ?thesis by auto
  qed
next
  case (noise w w1 obs w')
  then show ?case using noise_keeps by metis
qed simp

end

end
