(* ===== verification/TokenValidator.thy ===== *)
theory TokenValidator
  imports OidcUtils JwtUtils
begin

text \<open>
  \<open>keycloak/jwt/access_token_validator.hpp\<close>: validation of access tokens. The mutable state of a
  validator is its JWKS cache; a validation also reads both clocks and may send one request. The
  world is \<open>(cache, environment)\<close> paired with the state of the HTTP client. The cache mutex is
  held for single reads and writes only, which are single steps here as well.
\<close>

record jwt_result =
  jv_ok :: bool
  jv_http_status :: int
  jv_error :: string
  jv_context :: request_context

record jwks_fetch =
  jf_ok :: bool
  jf_http_status :: int
  jf_error :: string
  jf_keys :: "jwk list"

record jwks_cache =
  ca_keys :: "jwk list"
  ca_expires_at :: int

type_synonym 'h vworld = "(jwks_cache \<times> sysenv) \<times> 'h"

definition failure :: "int \<Rightarrow> string \<Rightarrow> jwt_result" where
  "failure http_status error =
     \<lparr>jv_ok = False, jv_http_status = http_status, jv_error = error, jv_context = empty_context\<rparr>"

section \<open>The key cache\<close>

definition v_steady :: "('h vworld, int) act" where
  "v_steady = on_fst (on_snd steady_now)"

definition v_system :: "('h vworld, int) act" where
  "v_system = on_fst (on_snd system_now)"

definition v_cache :: "'h vworld \<Rightarrow> jwks_cache" where
  "v_cache w = fst (fst w)"

definition set_cache :: "jwks_cache \<Rightarrow> 'h vworld \<Rightarrow> 'h vworld" where
  "set_cache c w = ((c, snd (fst w)), snd w)"

text \<open>The clock is only read when the cache holds a key.\<close>

definition cached_keys :: "('h vworld, jwk list) act" where
  "cached_keys = (\<lambda>w.
     if ca_keys (v_cache w) \<noteq> []
     then abind v_steady (\<lambda>now. aret (if now < ca_expires_at (v_cache w) then ca_keys (v_cache w) else [])) w
     else (Inr [], w))"

definition refresh_jwks :: "('h, 'm) http_lib_scheme \<Rightarrow> auth_config \<Rightarrow> ('h vworld, jwks_fetch) act" where
  "refresh_jwks lib cfg =
     abind (alift (make_json_get lib (jwks_url cfg) None)) (\<lambda>req.
     abind (on_snd (http_send lib req)) (\<lambda>resp.
       if \<not> is_2xx (effective_status resp) then
         aret \<lparr>jf_ok = False, jf_http_status = 502, jf_error = ''jwks_fetch_failed'', jf_keys = []\<rparr>
       else
         abind (alift (extract_jwks (resp_body resp))) (\<lambda>keys.
           if keys = [] then
             aret \<lparr>jf_ok = False, jf_http_status = 502, jf_error = ''jwks_parse_failed'', jf_keys = []\<rparr>
           else
             abind v_steady (\<lambda>now.
             abind (alift (steady_add now (jwks_cache_ttl cfg))) (\<lambda>expires. \<lambda>w.
               (Inr \<lparr>jf_ok = True, jf_http_status = 200, jf_error = [], jf_keys = keys\<rparr>,
                set_cache \<lparr>ca_keys = keys, ca_expires_at = expires\<rparr> w))))))"

section \<open>Validation\<close>

text \<open>The context built from the payload of an accepted token.\<close>

definition build_context :: "string \<Rightarrow> request_context res" where
  "build_context payload =
     rbind (json_string_or payload ''sub'' []) (\<lambda>sub.
     rbind (json_string_or payload ''preferred_username'' []) (\<lambda>name.
     rbind (json_string_or payload ''iss'' []) (\<lambda>iss.
     rbind (extract_json_string payload ''azp'') (\<lambda>azp.
     rbind (json_string_or payload ''client_id'' []) (\<lambda>client.
     rbind (extract_all_roles payload) (\<lambda>roles.
     rbind (json_string_or payload ''scope'' []) (\<lambda>scope.
       Inr \<lparr>ctx_authenticated = True, ctx_sub = sub, ctx_preferred_username = name,
            ctx_realm = (if iss = [] then [] else last_path_segment iss), ctx_issuer = iss,
            ctx_client_id = value_or client azp, ctx_roles = roles, ctx_scopes = split_ws scope\<rparr>)))))))"

text \<open>
  The checks behind the signature, in the order of the code: issuer, expiry, not-before, audience,
  authorized party. \<open>now + skew\<close> and \<open>exp + skew\<close> are signed 64-bit sums.
\<close>

definition check_party :: "auth_config \<Rightarrow> string \<Rightarrow> jwt_result res" where
  "check_party cfg payload =
     (let accept = rbind (build_context payload) (\<lambda>ctx.
            Inr \<lparr>jv_ok = True, jv_http_status = 200, jv_error = [], jv_context = ctx\<rparr>) in
      if expected_azp cfg \<noteq> [] then
        rbind (json_string_or payload ''azp'' []) (\<lambda>azp.
          if azp \<noteq> expected_azp cfg then Inr (failure 403 ''jwt_azp_mismatch'') else accept)
      else accept)"

definition check_audience :: "auth_config \<Rightarrow> string \<Rightarrow> jwt_result res" where
  "check_audience cfg payload =
     (if require_audience cfg then
        rbind (extract_audience_values payload) (\<lambda>audiences.
          if \<not> contains_string audiences (expected_audience cfg)
          then Inr (failure 403 ''jwt_audience_mismatch'') else check_party cfg payload)
      else check_party cfg payload)"

definition check_claims :: "auth_config \<Rightarrow> int \<Rightarrow> string \<Rightarrow> jwt_result res" where
  "check_claims cfg now payload =
     rbind (extract_json_string payload ''iss'') (\<lambda>issuer.
       if issuer = None \<or> issuer = Some [] then Inr (failure 401 ''jwt_missing_issuer'')
       else if issuer \<noteq> Some (expected_issuer cfg) then Inr (failure 401 ''jwt_issuer_mismatch'')
       else
         rbind (extract_json_int64 payload ''exp'') (\<lambda>exp.
           case exp of
             None \<Rightarrow> Inr (failure 401 ''jwt_missing_exp'')
           | Some e \<Rightarrow>
               rbind (add_int64 e (clock_skew_seconds cfg)) (\<lambda>limit.
                 if now > limit then Inr (failure 401 ''jwt_expired'')
                 else
                   rbind (extract_json_int64 payload ''nbf'') (\<lambda>nbf.
                     case nbf of
                       None \<Rightarrow> check_audience cfg payload
                     | Some n \<Rightarrow>
                         rbind (add_int64 now (clock_skew_seconds cfg)) (\<lambda>t.
                           if t < n then Inr (failure 401 ''jwt_not_yet_valid'')
                           else check_audience cfg payload)))))"

text \<open>The part behind the header: find the key, verify, read the clock, check the claims.\<close>

definition check_signed ::
  "openssl \<Rightarrow> auth_config \<Rightarrow> decoded_jwt \<Rightarrow> string \<Rightarrow> string \<Rightarrow> jwk list \<Rightarrow> ('h vworld, jwt_result) act" where
  "check_signed ssl cfg jwt alg kid keys =
     (case find (\<lambda>k. jwk_kid k = kid) keys of
        None \<Rightarrow> aret (failure 401 ''jwks_key_not_found'')
      | Some k \<Rightarrow>
          (if \<not> verify_rsa_signature ssl k alg (signing_input jwt) (signature jwt)
           then aret (failure 401 ''jwt_signature_invalid'')
           else abind v_system (\<lambda>now. alift (check_claims cfg now (payload_json jwt)))))"

definition validate_jwt ::
  "('h, 'm) http_lib_scheme \<Rightarrow> openssl \<Rightarrow> auth_config \<Rightarrow> decoded_jwt \<Rightarrow> ('h vworld, jwt_result) act" where
  "validate_jwt lib ssl cfg jwt =
     abind (alift (json_string_or (header_json jwt) ''alg'' [])) (\<lambda>alg.
       if alg = [] then aret (failure 401 ''jwt_missing_alg'')
       else if evp_digest_for_alg alg = None then aret (failure 401 ''unsupported_jwt_alg'')
       else
         abind (alift (json_string_or (header_json jwt) ''kid'' [])) (\<lambda>kid.
           if kid = [] then aret (failure 401 ''jwt_missing_kid'')
           else
             abind v_system (\<lambda>_.
             abind cached_keys (\<lambda>keys.
               if keys \<noteq> [] then check_signed ssl cfg jwt alg kid keys
               else
                 abind (refresh_jwks lib cfg) (\<lambda>refreshed.
                   if \<not> jf_ok refreshed
                   then aret (failure (jf_http_status refreshed) (jf_error refreshed))
                   else check_signed ssl cfg jwt alg kid (jf_keys refreshed))))))"

definition validate ::
  "('h, 'm) http_lib_scheme \<Rightarrow> openssl \<Rightarrow> auth_config \<Rightarrow> string \<Rightarrow> ('h vworld, jwt_result) act" where
  "validate lib ssl cfg tok =
     (if expected_issuer cfg = [] then aret (failure 500 ''auth_config_missing_expected_issuer'')
      else if jwks_url cfg = [] then aret (failure 500 ''auth_config_missing_jwks_url'')
      else if require_audience cfg \<and> expected_audience cfg = []
      then aret (failure 500 ''auth_config_missing_expected_audience'')
      else if tok = [] then aret (failure 401 ''missing_access_token'')
      else
        (case decode_jwt tok of
           None \<Rightarrow> aret (failure 401 ''invalid_jwt_format'')
         | Some jwt \<Rightarrow> validate_jwt lib ssl cfg jwt))"

section \<open>The claims\<close>

text \<open>What a payload must say at the time \<open>now\<close>, as one condition.\<close>

definition claims_ok :: "auth_config \<Rightarrow> int \<Rightarrow> string \<Rightarrow> bool" where
  "claims_ok cfg now payload \<longleftrightarrow>
     expected_issuer cfg \<noteq> [] \<and>
     extract_json_string payload ''iss'' = Inr (Some (expected_issuer cfg)) \<and>
     (\<exists>e. extract_json_int64 payload ''exp'' = Inr (Some e) \<and> now \<le> e + clock_skew_seconds cfg) \<and>
     (\<forall>n. extract_json_int64 payload ''nbf'' = Inr (Some n) \<longrightarrow> n \<le> now + clock_skew_seconds cfg) \<and>
     (require_audience cfg \<longrightarrow>
        (\<exists>auds. extract_audience_values payload = Inr auds \<and> expected_audience cfg \<in> set auds)) \<and>
     (expected_azp cfg \<noteq> [] \<longrightarrow>
        extract_json_string payload ''azp'' = Inr (Some (expected_azp cfg)))"

lemma failure_simps [simp]: "jv_ok (failure st err) = False" "jv_http_status (failure st err) = st"
  "jv_error (failure st err) = err" "jv_context (failure st err) = empty_context"
  by (simp_all add: failure_def)

definition accepts :: "string \<Rightarrow> jwt_result \<Rightarrow> bool" where
  "accepts payload r \<longleftrightarrow> jv_ok r \<and> jv_http_status r = 200 \<and> jv_error r = [] \<and>
     build_context payload = Inr (jv_context r)"

definition rejects :: "int set \<Rightarrow> jwt_result \<Rightarrow> bool" where
  "rejects sts r \<longleftrightarrow> \<not> jv_ok r \<and> jv_http_status r \<in> sts \<and> jv_error r \<noteq> [] \<and> jv_context r = empty_context"

lemma rejects_failure [simp]: "rejects sts (failure st err) \<longleftrightarrow> st \<in> sts \<and> err \<noteq> []"
  by (simp add: rejects_def)

lemma accepts_failure [simp]: "\<not> accepts payload (failure st err)"
  by (simp add: accepts_def)

lemma rejects_mono: "rejects a r \<Longrightarrow> a \<subseteq> b \<Longrightarrow> rejects b r"
  by (auto simp: rejects_def)

lemma check_party_Inr:
  assumes "check_party cfg payload = Inr r"
  shows "if expected_azp cfg \<noteq> [] \<longrightarrow> extract_json_string payload ''azp'' = Inr (Some (expected_azp cfg))
    then accepts payload r else rejects {403} r"
proof (cases "expected_azp cfg = []")
  case True
  with assms show ?thesis by (auto simp: check_party_def accepts_def)
next
  case False
  with assms obtain azp where azp: "extract_json_string payload ''azp'' = Inr azp"
    by (auto simp: check_party_def json_string_or_def)
  have "value_or [] azp = expected_azp cfg \<longleftrightarrow> azp = Some (expected_azp cfg)"
    using False by (cases azp) (auto simp: value_or_def)
  with assms False azp show ?thesis
    by (cases "azp = Some (expected_azp cfg)")
      (auto simp: check_party_def json_string_or_def accepts_def)
qed

lemma check_audience_Inr:
  assumes "check_audience cfg payload = Inr r"
  shows "if (require_audience cfg \<longrightarrow>
        (\<exists>auds. extract_audience_values payload = Inr auds \<and> expected_audience cfg \<in> set auds)) \<and>
     (expected_azp cfg \<noteq> [] \<longrightarrow> extract_json_string payload ''azp'' = Inr (Some (expected_azp cfg)))
    then accepts payload r else rejects {403} r"
proof (cases "require_audience cfg")
  case False
  with assms check_party_Inr [of cfg payload r] show ?thesis by (simp add: check_audience_def)
next
  case True
  with assms obtain auds where auds: "extract_audience_values payload = Inr auds"
    and rest: "(if expected_audience cfg \<notin> set auds then Inr (failure 403 ''jwt_audience_mismatch'')
      else check_party cfg payload) = Inr r"
    by (auto simp: check_audience_def contains_string_def)
  show ?thesis
  proof (cases "expected_audience cfg \<in> set auds")
    case False
    with rest auds True show ?thesis by auto
  next
    case in_auds: True
    with rest have "check_party cfg payload = Inr r" by simp
    from check_party_Inr [OF this] in_auds auds show ?thesis by simp
  qed
qed

text \<open>The checks accept exactly the payloads that satisfy the condition, with their context.\<close>

lemma check_claims_Inr:
  assumes "check_claims cfg now payload = Inr r" and "expected_issuer cfg \<noteq> []"
  shows "if claims_ok cfg now payload then accepts payload r else rejects {401, 403} r"
proof -
  from assms(1) obtain issuer where iss: "extract_json_string payload ''iss'' = Inr issuer"
    by (auto simp: check_claims_def)
  show ?thesis
  proof (cases "issuer = Some (expected_issuer cfg)")
    case False
    with assms iss show ?thesis by (auto simp: check_claims_def claims_ok_def split: if_splits)
  next
    case True
    with assms iss obtain exp where exp: "extract_json_int64 payload ''exp'' = Inr exp"
      by (auto simp: check_claims_def)
    show ?thesis
    proof (cases exp)
      case None
      with assms iss exp True show ?thesis by (auto simp: check_claims_def claims_ok_def)
    next
      case (Some e)
      show ?thesis
      proof (cases "now \<le> e + clock_skew_seconds cfg")
        case False
        with assms iss exp True Some show ?thesis
          by (auto simp: check_claims_def claims_ok_def add_int64_Inr)
      next
        case in_time: True
        from assms iss exp True Some in_time obtain nbf where
          nbf: "extract_json_int64 payload ''nbf'' = Inr nbf"
          and rest: "(case nbf of None \<Rightarrow> check_audience cfg payload
            | Some n \<Rightarrow> rbind (add_int64 now (clock_skew_seconds cfg)) (\<lambda>t.
                if t < n then Inr (failure 401 ''jwt_not_yet_valid'')
                else check_audience cfg payload)) = Inr r"
          by (auto simp: check_claims_def add_int64_Inr)
        consider (early) n where "nbf = Some n" "now + clock_skew_seconds cfg < n"
            "r = failure 401 ''jwt_not_yet_valid''"
          | (on_time) "\<forall>n. nbf = Some n \<longrightarrow> n \<le> now + clock_skew_seconds cfg"
            "check_audience cfg payload = Inr r"
          using rest by (cases nbf) (auto simp: add_int64_Inr split: if_splits)
        then show ?thesis
        proof cases
          case early
          then show ?thesis using nbf by (auto simp: claims_ok_def)
        next
          case on_time
          have "claims_ok cfg now payload \<longleftrightarrow> (require_audience cfg \<longrightarrow>
              (\<exists>auds. extract_audience_values payload = Inr auds \<and> expected_audience cfg \<in> set auds)) \<and>
            (expected_azp cfg \<noteq> [] \<longrightarrow> extract_json_string payload ''azp'' = Inr (Some (expected_azp cfg)))"
            using assms(2) iss True exp Some in_time nbf on_time(1) by (auto simp: claims_ok_def)
          with check_audience_Inr [OF on_time(2)] show ?thesis
            by (auto elim: rejects_mono split: if_splits)
        qed
      qed
    qed
  qed
qed

section \<open>The cache\<close>

definition v_sys :: "'h vworld \<Rightarrow> sysenv" where
  "v_sys w = snd (fst w)"

text \<open>The reading of the steady clock that a call which starts in \<open>w\<close> sees first.\<close>

definition v_now :: "'h vworld \<Rightarrow> int" where
  "v_now w = steady_ticks (v_sys w) (steady_pos (v_sys w))"

definition cache_fresh :: "'h vworld \<Rightarrow> bool" where
  "cache_fresh w \<longleftrightarrow> ca_keys (v_cache w) \<noteq> [] \<and> v_now w < ca_expires_at (v_cache w)"

definition tick_steady :: "'h vworld \<Rightarrow> 'h vworld" where
  "tick_steady w = ((fst (fst w), (v_sys w)\<lparr>steady_pos := Suc (steady_pos (v_sys w))\<rparr>), snd w)"

definition tick_wall :: "'h vworld \<Rightarrow> 'h vworld" where
  "tick_wall w = ((fst (fst w), (v_sys w)\<lparr>wall_pos := Suc (wall_pos (v_sys w))\<rparr>), snd w)"

lemma v_steady_eq [simp]: "v_steady w = (Inr (v_now w), tick_steady w)"
  by (cases w) (auto simp: v_steady_def on_fst_def on_snd_def steady_now_def v_now_def v_sys_def
      tick_steady_def)

lemma v_system_eq [simp]: "v_system w = (Inr (wall_secs (v_sys w) (wall_pos (v_sys w))), tick_wall w)"
  by (cases w) (auto simp: v_system_def on_fst_def on_snd_def system_now_def v_sys_def tick_wall_def)

lemma tick_simps [simp]:
  "v_cache (tick_steady w) = v_cache w" "v_cache (tick_wall w) = v_cache w"
  "snd (tick_steady w) = snd w" "snd (tick_wall w) = snd w"
  "v_now (tick_wall w) = v_now w"
  "steady_ticks (v_sys (tick_steady w)) = steady_ticks (v_sys w)"
  "steady_ticks (v_sys (tick_wall w)) = steady_ticks (v_sys w)"
  "steady_pos (v_sys (tick_wall w)) = steady_pos (v_sys w)"
  "steady_pos (v_sys (tick_steady w)) = Suc (steady_pos (v_sys w))"
  "wall_secs (v_sys (tick_steady w)) = wall_secs (v_sys w)"
  "wall_secs (v_sys (tick_wall w)) = wall_secs (v_sys w)"
  "wall_pos (v_sys (tick_steady w)) = wall_pos (v_sys w)"
  "wall_pos (v_sys (tick_wall w)) = Suc (wall_pos (v_sys w))"
  by (simp_all add: v_cache_def v_sys_def v_now_def tick_steady_def tick_wall_def)

lemma set_cache_simps [simp]:
  "v_cache (set_cache c w) = c" "v_sys (set_cache c w) = v_sys w" "snd (set_cache c w) = snd w"
  by (simp_all add: v_cache_def v_sys_def set_cache_def)

lemma cached_keys_eq:
  "cached_keys w = (Inr (if cache_fresh w then ca_keys (v_cache w) else []),
     if ca_keys (v_cache w) = [] then w else tick_steady w)"
  by (auto simp: cached_keys_def abind_def cache_fresh_def)

lemma abind_v_system: "abind v_system f w = f (wall_secs (v_sys w) (wall_pos (v_sys w))) (tick_wall w)"
  by (simp add: abind_def)

lemma abind_cached_keys:
  "abind cached_keys f w = f (if cache_fresh w then ca_keys (v_cache w) else [])
     (if ca_keys (v_cache w) = [] then w else tick_steady w)"
  by (simp add: abind_def cached_keys_eq)

text \<open>
  \<open>fetched lib cfg w w'\<close>: on the way from \<open>w\<close> to \<open>w'\<close> the key set was replaced by the one of a 2xx
  response to the one request for the configured URL, to be used for the configured time.
\<close>

definition fetched ::
  "('h, 'm) http_lib_scheme \<Rightarrow> auth_config \<Rightarrow> 'h vworld \<Rightarrow> 'h vworld \<Rightarrow> bool" where
  "fetched lib cfg w w' \<longleftrightarrow>
     (\<exists>req resp. make_json_get lib (jwks_url cfg) None = Inr req \<and>
        http_send lib req (snd w) = (Inr resp, snd w') \<and> is_2xx (effective_status resp) \<and>
        extract_jwks (resp_body resp) = Inr (ca_keys (v_cache w')) \<and>
        (\<exists>i. ca_expires_at (v_cache w') = steady_ticks (v_sys w) i + jwks_cache_ttl cfg * 10 ^ 9 \<and>
             steady_pos (v_sys w) \<le> i))"

definition same_env :: "'h vworld \<Rightarrow> 'h vworld \<Rightarrow> bool" where
  "same_env w w' \<longleftrightarrow> steady_ticks (v_sys w') = steady_ticks (v_sys w) \<and>
     wall_secs (v_sys w') = wall_secs (v_sys w) \<and> wall_pos (v_sys w') = wall_pos (v_sys w)"

lemma refresh_jwks_cases:
  assumes "refresh_jwks lib cfg w = (Inr f, w')"
  obtains (ok) "jf_ok f" "jf_keys f = ca_keys (v_cache w')" "jf_keys f \<noteq> []" "fetched lib cfg w w'"
      "same_env w w'"
  | (failed) "\<not> jf_ok f" "jf_http_status f = 502" "jf_error f \<noteq> []" "v_cache w' = v_cache w"
proof -
  from assms obtain req resp w1 where
    req: "make_json_get lib (jwks_url cfg) None = Inr req"
    and send: "on_snd (http_send lib req) w = (Inr resp, w1)"
    and rest: "(if \<not> is_2xx (effective_status resp) then
         aret \<lparr>jf_ok = False, jf_http_status = 502, jf_error = ''jwks_fetch_failed'', jf_keys = []\<rparr>
       else
         abind (alift (extract_jwks (resp_body resp))) (\<lambda>keys.
           if keys = [] then
             aret \<lparr>jf_ok = False, jf_http_status = 502, jf_error = ''jwks_parse_failed'', jf_keys = []\<rparr>
           else
             abind v_steady (\<lambda>now.
             abind (alift (steady_add now (jwks_cache_ttl cfg))) (\<lambda>expires. \<lambda>w.
               (Inr \<lparr>jf_ok = True, jf_http_status = 200, jf_error = [], jf_keys = keys\<rparr>,
                set_cache \<lparr>ca_keys = keys, ca_expires_at = expires\<rparr> w))))) w1 = (Inr f, w')"
    unfolding refresh_jwks_def by (auto simp: abind_eq_Inr)
  from on_snd_keeps [OF send] have w1: "fst w1 = fst w" "http_send lib req (snd w) = (Inr resp, snd w1)"
    by auto
  then have env: "v_cache w1 = v_cache w" "v_sys w1 = v_sys w" "v_now w1 = v_now w"
    by (simp_all add: v_cache_def v_sys_def v_now_def)
  show thesis
  proof (cases "is_2xx (effective_status resp) \<and> extract_jwks (resp_body resp) \<noteq> Inr []")
    case False
    with rest have "w' = w1 \<and> \<not> jf_ok f \<and> jf_http_status f = 502 \<and> jf_error f \<noteq> []"
      by (auto simp: abind_eq_Inr split: if_splits)
    with failed env show thesis by simp
  next
    case True
    with rest obtain keys expires where keys: "extract_jwks (resp_body resp) = Inr keys" "keys \<noteq> []"
      and f: "f = \<lparr>jf_ok = True, jf_http_status = 200, jf_error = [], jf_keys = keys\<rparr>"
      and exp: "steady_add (v_now w1) (jwks_cache_ttl cfg) = Inr expires"
      and w': "w' = set_cache \<lparr>ca_keys = keys, ca_expires_at = expires\<rparr> (tick_steady w1)"
      by (auto simp: abind_eq_Inr split: if_splits)
    have "fetched lib cfg w w'"
      using req w1(2) True keys(1) steady_add_Inr [OF exp] env
      by (auto simp: fetched_def w' v_now_def)
    moreover have "same_env w w'"
      using env by (simp add: same_env_def w')
    ultimately show thesis using ok f keys(2) w' by simp
  qed
qed

section \<open>What a validation establishes\<close>

text \<open>The header names a supported algorithm and a key id.\<close>

definition header_ok :: "decoded_jwt \<Rightarrow> string \<Rightarrow> string \<Rightarrow> bool" where
  "header_ok jwt alg kid \<longleftrightarrow>
     extract_json_string (header_json jwt) ''alg'' = Inr (Some alg) \<and> evp_digest_for_alg alg \<noteq> None \<and>
     extract_json_string (header_json jwt) ''kid'' = Inr (Some kid) \<and> kid \<noteq> []"

text \<open>
  \<open>authentic ssl cfg keys now tok jwt\<close>: the token decodes to \<open>jwt\<close>, the first key of the set with
  the key id of the header verifies the signature over the signed part, and the payload satisfies
  the claim condition at \<open>now\<close>.
\<close>

definition authentic ::
  "openssl \<Rightarrow> auth_config \<Rightarrow> jwk list \<Rightarrow> int \<Rightarrow> decoded_jwt \<Rightarrow> bool" where
  "authentic ssl cfg keys now jwt \<longleftrightarrow>
     (\<exists>alg kid k. header_ok jwt alg kid \<and> find (\<lambda>k. jwk_kid k = kid) keys = Some k \<and>
        verify_rsa_signature ssl k alg (signing_input jwt) (signature jwt)) \<and>
     claims_ok cfg now (payload_json jwt)"

lemma check_signed_Inr:
  assumes "check_signed ssl cfg jwt alg kid keys w = (Inr r, w')" and "header_ok jwt alg kid"
    and "expected_issuer cfg \<noteq> []"
  shows "v_cache w' = v_cache w"
    and "if authentic ssl cfg keys (wall_secs (v_sys w) (wall_pos (v_sys w))) jwt
      then accepts (payload_json jwt) r else rejects {401, 403} r"
proof -
  let ?now = "wall_secs (v_sys w) (wall_pos (v_sys w))"
  have uniq: "header_ok jwt alg' kid' \<longleftrightarrow> alg' = alg \<and> kid' = kid" for alg' kid'
    using assms(2) by (auto simp: header_ok_def)
  show "v_cache w' = v_cache w"
    using assms(1) by (auto simp: check_signed_def abind_eq_Inr split: option.splits if_splits)
  consider (bad) "\<not> (\<exists>k. find (\<lambda>k. jwk_kid k = kid) keys = Some k \<and>
        verify_rsa_signature ssl k alg (signing_input jwt) (signature jwt))" "rejects {401} r"
    | (good) k where "find (\<lambda>k. jwk_kid k = kid) keys = Some k"
        "verify_rsa_signature ssl k alg (signing_input jwt) (signature jwt)"
        "check_claims cfg ?now (payload_json jwt) = Inr r"
    using assms(1) by (auto simp: check_signed_def abind_eq_Inr split: option.splits if_splits)
  then show "if authentic ssl cfg keys ?now jwt then accepts (payload_json jwt) r else rejects {401, 403} r"
  proof cases
    case bad
    then have "\<not> authentic ssl cfg keys ?now jwt" using uniq by (auto simp: authentic_def)
    with bad(2) show ?thesis by (auto elim: rejects_mono)
  next
    case good
    then have "authentic ssl cfg keys ?now jwt \<longleftrightarrow> claims_ok cfg ?now (payload_json jwt)"
      using uniq by (auto simp: authentic_def)
    with check_claims_Inr [OF good(3) assms(3)] show ?thesis by simp
  qed
qed

text \<open>
  The result of a validation of a decoded token: rejected from the header alone, rejected because
  no keys could be had, or decided by the key set that is in the cache afterwards.
\<close>

lemma validate_jwt_cases:
  assumes "validate_jwt lib ssl cfg jwt w = (Inr r, w')" and "expected_issuer cfg \<noteq> []"
  obtains (header) "rejects {401} r" "w' = w" "\<And>alg kid. \<not> header_ok jwt alg kid"
  | (no_keys) "rejects {502} r" "v_cache w' = v_cache w" "\<not> cache_fresh w"
  | (keys) "if cache_fresh w then v_cache w' = v_cache w \<and> snd w' = snd w else fetched lib cfg w w'"
      "if authentic ssl cfg (ca_keys (v_cache w')) (wall_secs (v_sys w) (Suc (wall_pos (v_sys w)))) jwt
       then accepts (payload_json jwt) r else rejects {401, 403} r"
proof -
  from assms(1) obtain alg where alg: "json_string_or (header_json jwt) ''alg'' [] = Inr alg"
    unfolding validate_jwt_def by (auto simp: abind_eq_Inr)
  have alg_unique: "extract_json_string (header_json jwt) ''alg'' = Inr (Some alg') \<Longrightarrow> alg' = alg" for alg'
    using alg by (auto simp: json_string_or_def value_or_def)
  show thesis
  proof (cases "alg = [] \<or> evp_digest_for_alg alg = None")
    case True
    then have "rejects {401} r" "w' = w"
      using assms(1) alg unfolding validate_jwt_def by (auto simp: abind_eq_Inr split: if_splits)
    moreover have "evp_digest_for_alg [] = None" by (simp add: evp_digest_for_alg_def)
    then have "\<not> header_ok jwt alg' kid'" for alg' kid'
      using True alg_unique by (auto simp: header_ok_def)
    ultimately show thesis by (rule header)
  next
    case alg_ok: False
    from assms(1) alg alg_ok obtain kid where kid: "json_string_or (header_json jwt) ''kid'' [] = Inr kid"
      unfolding validate_jwt_def by (auto simp: abind_eq_Inr)
    have kid_unique: "extract_json_string (header_json jwt) ''kid'' = Inr (Some kid') \<Longrightarrow> kid' = kid" for kid'
      using kid by (auto simp: json_string_or_def value_or_def)
    show thesis
    proof (cases "kid = []")
      case True
      then have "rejects {401} r" "w' = w"
        using assms(1) alg alg_ok kid unfolding validate_jwt_def by (auto simp: abind_eq_Inr)
      then show thesis using header kid_unique True by (auto simp: header_ok_def)
    next
      case kid_ok: False
      have hdr: "header_ok jwt alg kid"
        using alg kid alg_ok kid_ok
        by (auto simp: header_ok_def json_string_or_def value_or_def split: option.splits)
      let ?w1 = "tick_wall w"
      let ?keys = "if cache_fresh ?w1 then ca_keys (v_cache w) else []"
      let ?w2 = "if ca_keys (v_cache w) = [] then ?w1 else tick_steady ?w1"
      have fresh: "cache_fresh ?w1 \<longleftrightarrow> cache_fresh w" by (simp add: cache_fresh_def)
      have rest: "(if ?keys \<noteq> [] then check_signed ssl cfg jwt alg kid ?keys
          else abind (refresh_jwks lib cfg) (\<lambda>refreshed.
            if \<not> jf_ok refreshed then aret (failure (jf_http_status refreshed) (jf_error refreshed))
            else check_signed ssl cfg jwt alg kid (jf_keys refreshed))) ?w2 = (Inr r, w')"
      proof -
        have ne: "alg \<noteq> []" "evp_digest_for_alg alg \<noteq> None" using alg_ok by auto
        show ?thesis using assms(1) ne kid_ok unfolding validate_jwt_def
          by (cases "cache_fresh (tick_wall w)"; cases "ca_keys (v_cache w) = []";
              simp add: abind_alift alg kid abind_v_system abind_cached_keys)
      qed
      show thesis
      proof (cases "cache_fresh w")
        case True
        then have ne: "ca_keys (v_cache w) \<noteq> []" by (simp add: cache_fresh_def)
        with True rest fresh have chk: "check_signed ssl cfg jwt alg kid (ca_keys (v_cache w)) (tick_steady ?w1) = (Inr r, w')"
          by simp
        have "snd w' = snd w"
          using chk by (auto simp: check_signed_def abind_eq_Inr split: option.splits if_splits)
        with check_signed_Inr [OF chk hdr assms(2)] True show thesis by (intro keys) simp_all
      next
        case stale: False
        with rest fresh obtain f w3 where ref: "refresh_jwks lib cfg ?w2 = (Inr f, w3)"
          and cont: "(if \<not> jf_ok f then aret (failure (jf_http_status f) (jf_error f))
            else check_signed ssl cfg jwt alg kid (jf_keys f)) w3 = (Inr r, w')"
          by (auto simp: abind_eq_Inr)
        from ref show thesis
        proof (cases rule: refresh_jwks_cases)
          case failed
          with cont have "rejects {502} r" "v_cache w' = v_cache w" by (auto split: if_splits)
          with no_keys stale show thesis by simp
        next
          case ok
          with cont have chk: "check_signed ssl cfg jwt alg kid (jf_keys f) w3 = (Inr r, w')" by simp
          have same: "snd w' = snd w3"
            using chk by (auto simp: check_signed_def abind_eq_Inr split: option.splits if_splits)
          have "fetched lib cfg w w'"
            using ok(4) check_signed_Inr(1) [OF chk hdr assms(2)] same
            by (fastforce simp: fetched_def split: if_splits)
          moreover have "wall_secs (v_sys w3) (wall_pos (v_sys w3)) =
              wall_secs (v_sys w) (Suc (wall_pos (v_sys w)))"
            using ok(5) by (auto simp: same_env_def split: if_splits)
          ultimately show thesis
            using check_signed_Inr [OF chk hdr assms(2)] ok(2) stale by (intro keys) simp_all
        qed
      qed
    qed
  qed
qed

text \<open>The configuration errors come first, then the token that is no JWT; neither has an effect.\<close>

definition config_ok :: "auth_config \<Rightarrow> bool" where
  "config_ok cfg \<longleftrightarrow> expected_issuer cfg \<noteq> [] \<and> jwks_url cfg \<noteq> [] \<and>
     (require_audience cfg \<longrightarrow> expected_audience cfg \<noteq> [])"

lemma validate_cases:
  assumes "validate lib ssl cfg tok w = (Inr r, w')"
  obtains (config) "\<not> config_ok cfg" "rejects {500} r" "w' = w"
  | (no_jwt) "config_ok cfg" "decode_jwt tok = None" "rejects {401} r" "w' = w"
  | (jwt) jwt where "config_ok cfg" "decode_jwt tok = Some jwt" "validate_jwt lib ssl cfg jwt w = (Inr r, w')"
proof (cases "config_ok cfg")
  case False
  with assms config show thesis by (auto simp: validate_def config_ok_def split: if_splits)
next
  case True
  have "decode_jwt [] = None" by (simp add: decode_jwt_def find_ch_none [of "[]" 0 "[]"])
  with True assms no_jwt jwt show thesis
    by (cases "decode_jwt tok") (auto simp: validate_def config_ok_def split: if_splits)
qed

text \<open>
  The decision, completely: with \<open>K\<close> the keys in the cache afterwards, the token is accepted if it
  is authentic under \<open>K\<close>, and otherwise rejected with one of five statuses and an empty context.
\<close>

lemma validate_decision:
  assumes "validate lib ssl cfg tok w = (Inr r, w')"
  shows "(jv_ok r \<longrightarrow> config_ok cfg \<and> (\<exists>jwt. decode_jwt tok = Some jwt \<and>
      authentic ssl cfg (ca_keys (v_cache w')) (wall_secs (v_sys w) (Suc (wall_pos (v_sys w)))) jwt \<and>
      accepts (payload_json jwt) r)) \<and>
    (\<not> jv_ok r \<longrightarrow> rejects {401, 403, 500, 502} r) \<and>
    (v_cache w' = v_cache w \<or> fetched lib cfg w w') \<and>
    (cache_fresh w \<longrightarrow> v_cache w' = v_cache w \<and> snd w' = snd w) \<and>
    (jv_ok r \<and> \<not> cache_fresh w \<longrightarrow> fetched lib cfg w w')"
  using assms
proof (cases rule: validate_cases)
  case (jwt jwt)
  then have "expected_issuer cfg \<noteq> []" by (simp add: config_ok_def)
  with jwt(3) show ?thesis
    by (cases rule: validate_jwt_cases) (use jwt in \<open>auto simp: rejects_def accepts_def split: if_splits\<close>)
qed (auto simp: rejects_def)

section \<open>Genuine tokens are accepted\<close>

text \<open>
  The converse. \<open>payload_ok\<close> excludes what no signature can exclude: sums that leave the 64-bit
  range and claims that the JSON reader does not return from.
\<close>

definition payload_ok :: "auth_config \<Rightarrow> int \<Rightarrow> string \<Rightarrow> request_context \<Rightarrow> bool" where
  "payload_ok cfg now payload ctx \<longleftrightarrow>
     (\<forall>e. extract_json_int64 payload ''exp'' = Inr (Some e) \<longrightarrow> fits_int64 (e + clock_skew_seconds cfg)) \<and>
     fits_int64 (now + clock_skew_seconds cfg) \<and>
     (\<exists>nbf. extract_json_int64 payload ''nbf'' = Inr nbf) \<and> build_context payload = Inr ctx"

lemma check_claims_complete:
  assumes "claims_ok cfg now payload" and "payload_ok cfg now payload ctx"
  shows "check_claims cfg now payload =
    Inr \<lparr>jv_ok = True, jv_http_status = 200, jv_error = [], jv_context = ctx\<rparr>"
proof -
  let ?acc = "\<lparr>jv_ok = True, jv_http_status = 200, jv_error = [], jv_context = ctx\<rparr>"
  from assms obtain e where e: "extract_json_int64 payload ''exp'' = Inr (Some e)"
    "now \<le> e + clock_skew_seconds cfg" "fits_int64 (e + clock_skew_seconds cfg)"
    by (auto simp: claims_ok_def payload_ok_def)
  from assms obtain nbf where nbf: "extract_json_int64 payload ''nbf'' = Inr nbf"
    "\<forall>n. nbf = Some n \<longrightarrow> n \<le> now + clock_skew_seconds cfg" "fits_int64 (now + clock_skew_seconds cfg)"
    by (auto simp: claims_ok_def payload_ok_def)
  have ctx: "build_context payload = Inr ctx" using assms(2) by (simp add: payload_ok_def)
  have party: "check_party cfg payload = Inr ?acc"
    using assms(1) ctx by (auto simp: check_party_def Let_def json_string_or_def value_or_def claims_ok_def)
  then have aud: "check_audience cfg payload = Inr ?acc"
    using assms(1) by (auto simp: check_audience_def contains_string_def claims_ok_def)
  have iss: "extract_json_string payload ''iss'' = Inr (Some (expected_issuer cfg))" "expected_issuer cfg \<noteq> []"
    using assms(1) by (auto simp: claims_ok_def)
  show ?thesis using e nbf aud iss
    by (cases nbf) (simp_all add: check_claims_def add_int64_def del: rbind_eq_Inr)
qed

text \<open>With a fresh cache the keys are there and nothing is sent.\<close>

lemma validate_fresh:
  assumes "config_ok cfg" and "decode_jwt tok = Some jwt" and "header_ok jwt alg kid" and "cache_fresh w"
  shows "validate lib ssl cfg tok w =
    check_signed ssl cfg jwt alg kid (ca_keys (v_cache w)) (tick_steady (tick_wall w))"
proof -
  have ne: "tok \<noteq> []" using assms(2) by (auto simp: decode_jwt_def find_ch_none [of "[]" 0 "[]"])
  have keys: "ca_keys (v_cache w) \<noteq> []" "cache_fresh (tick_wall w)"
    using assms(4) by (simp_all add: cache_fresh_def)
  have alg: "json_string_or (header_json jwt) ''alg'' [] = Inr alg" "alg \<noteq> []"
    "evp_digest_for_alg alg \<noteq> None"
    using assms(3) by (auto simp: header_ok_def json_string_or_def value_or_def evp_digest_for_alg_def)
  have kid: "json_string_or (header_json jwt) ''kid'' [] = Inr kid" "kid \<noteq> []"
    using assms(3) by (auto simp: header_ok_def json_string_or_def value_or_def)
  have "validate_jwt lib ssl cfg jwt w =
      check_signed ssl cfg jwt alg kid (ca_keys (v_cache w)) (tick_steady (tick_wall w))"
    using alg kid keys
    by (cases "evp_digest_for_alg alg")
      (simp_all add: validate_jwt_def abind_alift abind_v_system abind_cached_keys)
  with assms(1,2) ne show ?thesis by (auto simp: validate_def config_ok_def)
qed

lemma validate_complete:
  assumes "config_ok cfg" and "decode_jwt tok = Some jwt" and "cache_fresh w"
  defines "now \<equiv> wall_secs (v_sys w) (Suc (wall_pos (v_sys w)))"
  assumes auth: "authentic ssl cfg (ca_keys (v_cache w)) now jwt"
    and pl: "payload_ok cfg now (payload_json jwt) ctx"
  shows "\<exists>w'. validate lib ssl cfg tok w =
      (Inr \<lparr>jv_ok = True, jv_http_status = 200, jv_error = [], jv_context = ctx\<rparr>, w') \<and>
    v_cache w' = v_cache w \<and> snd w' = snd w"
proof -
  from auth obtain alg kid k where h: "header_ok jwt alg kid"
    and k: "find (\<lambda>k. jwk_kid k = kid) (ca_keys (v_cache w)) = Some k"
      "verify_rsa_signature ssl k alg (signing_input jwt) (signature jwt)"
    and claims: "claims_ok cfg now (payload_json jwt)"
    by (auto simp: authentic_def)
  have "check_signed ssl cfg jwt alg kid (ca_keys (v_cache w)) (tick_steady (tick_wall w)) =
      (check_claims cfg now (payload_json jwt), tick_wall (tick_steady (tick_wall w)))"
    using k by (simp add: check_signed_def abind_v_system now_def)
  then have "validate lib ssl cfg tok w =
      (Inr \<lparr>jv_ok = True, jv_http_status = 200, jv_error = [], jv_context = ctx\<rparr>,
       tick_wall (tick_steady (tick_wall w)))"
    using validate_fresh [OF assms(1,2) h assms(3), of lib ssl] check_claims_complete [OF claims pl] by simp
  then show ?thesis by (intro exI [of _ "tick_wall (tick_steady (tick_wall w))"]) simp
qed

end
