(* ===== verification/BearerAuth.thy ===== *)
theory BearerAuth
  imports TokenValidator
begin

text \<open>
  \<open>keycloak/auth/bearer_auth_middleware.hpp\<close>: the middleware in front of a validator. The C++
  class is a template over the validator; here the validator is an argument, and what the
  middleware needs of it is the locale \<open>token_validator\<close>. \<open>AccessTokenValidator\<close> provides it.
\<close>

definition bearer_prefix :: string where
  "bearer_prefix = ''Bearer ''"

lemma length_bearer_prefix [simp]: "length bearer_prefix = 7"
  by (simp add: bearer_prefix_def)

text \<open>The two reference parameters, request and context, are returned.\<close>

definition authenticate ::
  "('h, 'm) http_lib_scheme \<Rightarrow> (string \<Rightarrow> ('v, jwt_result) act) \<Rightarrow> request \<Rightarrow> request_context \<Rightarrow>
    ('v, auth_result \<times> request \<times> request_context) act" where
  "authenticate lib validator req ctx =
     (let deny = (\<lambda>st err. (\<lparr>ar_ok = False, ar_http_status = st, ar_error = err\<rparr>, req, ctx)) in
      case header_value lib (req_headers req) ''Authorization'' of
        None \<Rightarrow> aret (deny 401 ''missing_authorization_header'')
      | Some auth_header \<Rightarrow>
          (if length auth_header \<le> length bearer_prefix \<or>
              substr auth_header 0 (length bearer_prefix) \<noteq> bearer_prefix
           then aret (deny 401 ''invalid_authorization_scheme'')
           else
             abind (validator (drop (length bearer_prefix) auth_header)) (\<lambda>r.
               aret (if \<not> jv_ok r then deny (jv_http_status r) (jv_error r)
                     else (\<lparr>ar_ok = True, ar_http_status = 200, ar_error = []\<rparr>,
                           set_request_context req (jv_context r), jv_context r)))))"

text \<open>
  The contract of a validator: \<open>genuine w w' tok ctx\<close> is what an acceptance on the way from \<open>w\<close>
  to \<open>w'\<close> establishes, and a rejection carries an error status.
\<close>

locale token_validator =
  fixes validator :: "string \<Rightarrow> 'v \<Rightarrow> jwt_result res \<times> 'v"
    and genuine :: "'v \<Rightarrow> 'v \<Rightarrow> string \<Rightarrow> request_context \<Rightarrow> bool"
  assumes accepted: "validator tok w = (Inr r, w') \<Longrightarrow> jv_ok r \<Longrightarrow> genuine w w' tok (jv_context r)"
    and rejected: "validator tok w = (Inr r, w') \<Longrightarrow> \<not> jv_ok r \<Longrightarrow> jv_http_status r \<ge> 400 \<and> jv_error r \<noteq> []"
begin

lemma authenticate_sound:
  assumes "authenticate lib validator req ctx w = (Inr (a, req', ctx'), w')"
  shows "if ar_ok a
    then (\<exists>tok. tok \<noteq> [] \<and> header_value lib (req_headers req) ''Authorization'' = Some (bearer_prefix @ tok) \<and>
            genuine w w' tok ctx') \<and> req' = set_request_context req ctx' \<and> ar_http_status a = 200
    else req' = req \<and> ctx' = ctx \<and> ar_http_status a \<ge> 400 \<and> ar_error a \<noteq> []"
proof (cases "header_value lib (req_headers req) ''Authorization''")
  case None
  with assms show ?thesis by (auto simp: authenticate_def Let_def)
next
  case (Some h)
  show ?thesis
  proof (cases "length h \<le> 7 \<or> substr h 0 7 \<noteq> bearer_prefix")
    case True
    with assms Some show ?thesis by (auto simp: authenticate_def Let_def split: if_splits)
  next
    case False
    then have h: "h = bearer_prefix @ drop 7 h" "drop 7 h \<noteq> []"
      by (metis append_take_drop_id drop0 substr_def) (use False in simp)
    from False assms Some obtain r where r: "validator (drop 7 h) w = (Inr r, w')"
      and res: "(a, req', ctx') = (if \<not> jv_ok r
        then (\<lparr>ar_ok = False, ar_http_status = jv_http_status r, ar_error = jv_error r\<rparr>, req, ctx)
        else (\<lparr>ar_ok = True, ar_http_status = 200, ar_error = []\<rparr>,
              set_request_context req (jv_context r), jv_context r))"
      by (auto simp: authenticate_def Let_def abind_eq_Inr)
    show ?thesis
    proof (cases "jv_ok r")
      case True
      then have "\<exists>tok. tok \<noteq> [] \<and> header_value lib (req_headers req) ''Authorization'' = Some (bearer_prefix @ tok) \<and>
          genuine w w' tok (jv_context r)"
        using accepted [OF r True] Some h by metis
      with True res show ?thesis by simp
    next
      case False
      with rejected [OF r False] res show ?thesis by auto
    qed
  qed
qed

end

section \<open>The validator of the library meets the contract\<close>

definition genuine_token ::
  "openssl \<Rightarrow> auth_config \<Rightarrow> 'h vworld \<Rightarrow> 'h vworld \<Rightarrow> string \<Rightarrow> request_context \<Rightarrow> bool" where
  "genuine_token ssl cfg w w' tok ctx \<longleftrightarrow>
     (\<exists>jwt. decode_jwt tok = Some jwt \<and>
        authentic ssl cfg (ca_keys (v_cache w')) (wall_secs (v_sys w) (Suc (wall_pos (v_sys w)))) jwt \<and>
        build_context (payload_json jwt) = Inr ctx)"

interpretation bearer: token_validator "validate lib ssl cfg" "genuine_token ssl cfg"
  for lib :: "('h, 'm) http_lib_scheme" and ssl cfg
proof (unfold_locales, goal_cases)
  case (1 tok w r w')
  with validate_decision [OF 1(1)] show ?case by (auto simp: genuine_token_def accepts_def)
next
  case (2 tok w r w')
  with validate_decision [OF 2(1)] show ?case by (auto simp: rejects_def)
qed

text \<open>Whatever context is attached to a request by the middleware is an authenticated one.\<close>

lemma build_context_authenticated: "build_context payload = Inr ctx \<Longrightarrow> ctx_authenticated ctx"
  by (auto simp: build_context_def)

end
