(* ===== verification/LoginClient.thy ===== *)
theory LoginClient
  imports PkceStrategy TokenService StateStore BearerAuth
begin

text \<open>
  \<open>keycloak/keycloak_client.hpp\<close>: the login flow of one realm. The C++ class is a template over
  the store, the token service and the middleware; here they are arguments. The world is the
  store's state and the environment, paired with the state of the HTTP client.
\<close>

record callback_input =
  cb_code :: string
  cb_state :: string

record callback_result =
  cr_ok :: bool
  cr_http_status :: int
  cr_error :: string
  cr_tokens :: token_set
  cr_realm :: string

type_synonym ('s, 'h) lworld = "('s \<times> sysenv) \<times> 'h"

definition callback_error :: "int \<Rightarrow> string \<Rightarrow> callback_result" where
  "callback_error st err = \<lparr>cr_ok = False, cr_http_status = st, cr_error = err,
     cr_tokens = empty_token_set, cr_realm = []\<rparr>"

definition callback_of :: "oauth_result \<Rightarrow> string \<Rightarrow> callback_result" where
  "callback_of r realm = \<lparr>cr_ok = oa_ok r, cr_http_status = oa_http_status r, cr_error = oa_error r,
     cr_tokens = oa_tokens r, cr_realm = realm\<rparr>"

text \<open>The constructor only builds the strategy.\<close>

definition keycloak_client :: "realm_config \<Rightarrow> realm_config res" where
  "keycloak_client cfg = rbind (pkce_auth_strategy cfg) (\<lambda>_. Inr cfg)"

definition client_start_login ::
  "pkce_lib \<Rightarrow> ('s \<times> sysenv) create_op \<Rightarrow> realm_config \<Rightarrow> int \<Rightarrow> ('s \<times> sysenv, auth_start) act" where
  "client_start_login plib create cfg ttl =
     abind (on_snd (generate_pkce_pair plib (rc_pkce_verifier_len cfg))) (\<lambda>pkce.
     abind (create_state create (code_verifier pkce) ttl) (\<lambda>st.
     aret (create_authorization_url cfg st pkce)))"

definition client_has_realm :: "realm_config \<Rightarrow> string \<Rightarrow> bool" where
  "client_has_realm cfg realm \<longleftrightarrow> realm = rc_realm cfg"

definition client_start_login_realm ::
  "pkce_lib \<Rightarrow> ('s \<times> sysenv) create_op \<Rightarrow> realm_config \<Rightarrow> string \<Rightarrow> int \<Rightarrow> ('s \<times> sysenv, auth_start) act" where
  "client_start_login_realm plib create cfg realm ttl =
     (if \<not> client_has_realm cfg realm then athrow (Invalid_argument ''unknown realm'')
      else client_start_login plib create cfg ttl)"

definition client_complete_login ::
  "('s \<times> sysenv) consume_op \<Rightarrow> (string \<Rightarrow> string \<Rightarrow> ('h, oauth_result) act) \<Rightarrow> realm_config \<Rightarrow>
    callback_input \<Rightarrow> (('s, 'h) lworld, callback_result) act" where
  "client_complete_login consume exchange cfg inp =
     (if cb_code inp = [] \<or> cb_state inp = [] then aret (callback_error 400 ''missing_code_or_state'')
      else
        abind (on_fst (consume_state consume (cb_state inp))) (\<lambda>verifier.
          case verifier of
            None \<Rightarrow> aret (callback_error 401 ''invalid_or_expired_state'')
          | Some v \<Rightarrow>
              abind (on_snd (exchange (cb_code inp) v)) (\<lambda>r. aret (callback_of r (rc_realm cfg)))))"

definition client_authenticate_request ::
  "(request \<Rightarrow> request_context \<Rightarrow> ('v, auth_result \<times> request \<times> request_context) act) \<Rightarrow>
    request \<Rightarrow> request_context \<Rightarrow> ('v, auth_result \<times> request \<times> request_context) act" where
  "client_authenticate_request middleware req ctx = middleware req ctx"

end
