(* ===== verification/MultiRealm.thy ===== *)
theory MultiRealm
  imports LoginClient
begin

text \<open>
  \<open>keycloak/multi_realm.hpp\<close>: several realms behind one state store. A state carries the realm it
  was issued for, and the callback is completed at that realm.
\<close>

record multi_realm_config =
  mc_realm :: realm_config
  mc_token :: token_service_config
  mc_auth :: auth_config

text \<open>The manager: the map of realm runtimes and the order in which the realms were given.\<close>

record manager =
  mg_realms :: "string \<Rightarrow> multi_realm_config option"
  mg_order :: "string list"

text \<open>
  \<open>RealmRuntime\<close>: the constructor keeps the three configurations and builds from them the token
  service, the validator and the strategy; only that of the strategy can throw. A runtime is
  represented by its configurations.
\<close>

definition realm_runtime :: "multi_realm_config \<Rightarrow> multi_realm_config res" where
  "realm_runtime config = rbind (pkce_auth_strategy (mc_realm config)) (\<lambda>auth_strategy. Inr config)"

text \<open>
  The constructor. \<open>emplace\<close> leaves an existing entry alone; the name is pushed all the same.
\<close>

fun add_realms :: "multi_realm_config list \<Rightarrow> manager \<Rightarrow> manager res" where
  "add_realms [] m = Inr m"
| "add_realms (config # configs) m =
     (if rc_realm (mc_realm config) = [] then Inl (Invalid_argument ''realm name must not be empty'')
      else rbind (realm_runtime config) (\<lambda>runtime.
        let realm_name = rc_realm (mc_realm runtime) in
        add_realms configs
          \<lparr>mg_realms = (case mg_realms m realm_name of
              None \<Rightarrow> (mg_realms m)(realm_name \<mapsto> runtime) | Some _ \<Rightarrow> mg_realms m),
           mg_order = mg_order m @ [realm_name]\<rparr>))"

definition multi_realm_manager :: "multi_realm_config list \<Rightarrow> manager res" where
  "multi_realm_manager configs =
     rbind (add_realms configs \<lparr>mg_realms = Map.empty, mg_order = []\<rparr>) (\<lambda>m.
       if configs = [] then Inl (Invalid_argument ''at least one realm must be configured'')
       else Inr m)"

definition manager_has_realm :: "manager \<Rightarrow> string \<Rightarrow> bool" where
  "manager_has_realm m realm \<longleftrightarrow> mg_realms m realm \<noteq> None"

definition realm_names :: "manager \<Rightarrow> string list" where
  "realm_names m = mg_order m"

definition lookup_realm :: "manager \<Rightarrow> string \<Rightarrow> multi_realm_config res" where
  "lookup_realm m realm =
     (case mg_realms m realm of
        None \<Rightarrow> Inl (Invalid_argument ''unknown realm'') | Some rt \<Rightarrow> Inr rt)"

definition manager_start_login ::
  "pkce_lib \<Rightarrow> ('s \<times> sysenv) create_op \<Rightarrow> manager \<Rightarrow> string \<Rightarrow> int \<Rightarrow> ('s \<times> sysenv, auth_start) act" where
  "manager_start_login plib create m realm ttl =
     abind (alift (lookup_realm m realm)) (\<lambda>rt.
     abind (on_snd (generate_pkce_pair plib (rc_pkce_verifier_len (mc_realm rt)))) (\<lambda>pkce.
     abind (create \<lparr>se_code_verifier = code_verifier pkce, se_realm = rc_realm (mc_realm rt)\<rparr> ttl) (\<lambda>st.
     aret (create_authorization_url (mc_realm rt) st pkce))))"

definition manager_complete_login ::
  "('h, 'm) http_lib_scheme \<Rightarrow> ('s \<times> sysenv) consume_op \<Rightarrow> manager \<Rightarrow> callback_input \<Rightarrow>
    (('s, 'h) lworld, callback_result) act" where
  "manager_complete_login lib consume m inp =
     (if cb_code inp = [] \<or> cb_state inp = [] then aret (callback_error 400 ''missing_code_or_state'')
      else
        abind (on_fst (consume (cb_state inp))) (\<lambda>entry.
          case entry of
            None \<Rightarrow> aret (callback_error 401 ''invalid_or_expired_state'')
          | Some e \<Rightarrow>
              (case mg_realms m (se_realm e) of
                 None \<Rightarrow> aret (callback_error 400 ''unknown_realm'')
               | Some rt \<Rightarrow>
                   abind (on_snd (exchange_authorization_code lib (mc_token rt) (cb_code inp) (se_code_verifier e)))
                     (\<lambda>r. aret (callback_of r (rc_realm (mc_realm rt)))))))"

definition manager_refresh_tokens ::
  "('h, 'm) http_lib_scheme \<Rightarrow> manager \<Rightarrow> string \<Rightarrow> string \<Rightarrow> ('h, oauth_result) act" where
  "manager_refresh_tokens lib m realm refresh =
     abind (alift (lookup_realm m realm)) (\<lambda>rt. refresh_tokens lib (mc_token rt) refresh)"

definition manager_revoke_token ::
  "('h, 'm) http_lib_scheme \<Rightarrow> manager \<Rightarrow> string \<Rightarrow> string \<Rightarrow> string \<Rightarrow> ('h, oauth_result) act" where
  "manager_revoke_token lib m realm token hint =
     abind (alift (lookup_realm m realm)) (\<lambda>rt. revoke_token lib (mc_token rt) token hint)"

text \<open>Every realm has a validator with a cache of its own: \<open>caches realm\<close>.\<close>

type_synonym 'h mworld = "((string \<Rightarrow> jwks_cache) \<times> sysenv) \<times> 'h"

definition focus :: "string \<Rightarrow> 'h mworld \<Rightarrow> 'h vworld" where
  "focus realm w = ((fst (fst w) realm, snd (fst w)), snd w)"

definition unfocus :: "string \<Rightarrow> 'h mworld \<Rightarrow> 'h vworld \<Rightarrow> 'h mworld" where
  "unfocus realm w v = (((fst (fst w))(realm := fst (fst v)), snd (fst v)), snd v)"

definition manager_validate ::
  "('h, 'm) http_lib_scheme \<Rightarrow> openssl \<Rightarrow> manager \<Rightarrow> string \<Rightarrow> string \<Rightarrow> ('h mworld, jwt_result) act" where
  "manager_validate lib ssl m realm tok =
     abind (alift (lookup_realm m realm)) (\<lambda>rt. \<lambda>w.
       (case validate lib ssl (mc_auth rt) tok (focus realm w) of (r, v) \<Rightarrow> (r, unfocus realm w v)))"

section \<open>The configuration\<close>

text \<open>
  Every realm of the manager is one of the configurations, under its own name and with the fields
  that an authorization URL needs; the first one of a name wins, and the names are those given.
\<close>

lemma add_realms_Inr:
  assumes "add_realms configs m = Inr m'"
  shows "mg_order m' = mg_order m @ map (\<lambda>c. rc_realm (mc_realm c)) configs"
    and "mg_realms m' = (\<lambda>name. case mg_realms m name of
      Some c \<Rightarrow> Some c | None \<Rightarrow> find (\<lambda>c. rc_realm (mc_realm c) = name) configs)"
    and "\<forall>c \<in> set configs. pkce_auth_strategy (mc_realm c) = Inr (mc_realm c) \<and> rc_realm (mc_realm c) \<noteq> []"
proof -
  have "mg_order m' = mg_order m @ map (\<lambda>c. rc_realm (mc_realm c)) configs \<and>
    mg_realms m' = (\<lambda>name. case mg_realms m name of
      Some c \<Rightarrow> Some c | None \<Rightarrow> find (\<lambda>c. rc_realm (mc_realm c) = name) configs) \<and>
    (\<forall>c \<in> set configs. pkce_auth_strategy (mc_realm c) = Inr (mc_realm c) \<and> rc_realm (mc_realm c) \<noteq> [])"
    using assms
  proof (induction configs arbitrary: m)
    case Nil
    then show ?case by (auto split: option.splits)
  next
    case (Cons c cs)
    then have ok: "rc_realm (mc_realm c) \<noteq> []" "pkce_auth_strategy (mc_realm c) = Inr (mc_realm c)"
      by (auto simp: Let_def realm_runtime_def pkce_auth_strategy_def split: if_splits)
    with Cons.prems have "add_realms cs \<lparr>mg_realms = (case mg_realms m (rc_realm (mc_realm c)) of
              None \<Rightarrow> (mg_realms m)(rc_realm (mc_realm c) \<mapsto> c) | Some _ \<Rightarrow> mg_realms m),
           mg_order = mg_order m @ [rc_realm (mc_realm c)]\<rparr> = Inr m'"
      by (simp add: Let_def realm_runtime_def)
    from Cons.IH [OF this] ok show ?case by (auto simp: fun_eq_iff split: option.splits)
  qed
  then show "mg_order m' = mg_order m @ map (\<lambda>c. rc_realm (mc_realm c)) configs"
    and "mg_realms m' = (\<lambda>name. case mg_realms m name of
      Some c \<Rightarrow> Some c | None \<Rightarrow> find (\<lambda>c. rc_realm (mc_realm c) = name) configs)"
    and "\<forall>c \<in> set configs. pkce_auth_strategy (mc_realm c) = Inr (mc_realm c) \<and> rc_realm (mc_realm c) \<noteq> []"
    by blast+
qed

lemma manager_realms:
  assumes "multi_realm_manager configs = Inr m"
  shows "mg_order m = map (\<lambda>c. rc_realm (mc_realm c)) configs"
    and "mg_realms m name = find (\<lambda>c. rc_realm (mc_realm c) = name) configs"
    and "\<forall>c \<in> set configs. pkce_auth_strategy (mc_realm c) = Inr (mc_realm c) \<and> rc_realm (mc_realm c) \<noteq> []"
    and "configs \<noteq> []"
proof -
  from assms have a: "add_realms configs \<lparr>mg_realms = Map.empty, mg_order = []\<rparr> = Inr m" and "configs \<noteq> []"
    by (auto simp: multi_realm_manager_def split: if_splits)
  then show "configs \<noteq> []" by simp
  from add_realms_Inr [OF a] show "mg_order m = map (\<lambda>c. rc_realm (mc_realm c)) configs"
    and "mg_realms m name = find (\<lambda>c. rc_realm (mc_realm c) = name) configs"
    and "\<forall>c \<in> set configs. pkce_auth_strategy (mc_realm c) = Inr (mc_realm c) \<and> rc_realm (mc_realm c) \<noteq> []"
    by simp_all
qed

lemma find_SomeD: "find P xs = Some x \<Longrightarrow> P x \<and> x \<in> set xs"
  by (auto simp: find_Some_iff)

end
