(* ===== verification/MemoryStore.thy ===== *)
theory MemoryStore
  imports StateStore
begin

text \<open>
  \<open>src/keycloak/state_store/memory.cpp\<close>: the in-process store. Its state is the map \<open>map_\<close>; the
  clock and the random source are read through \<open>sysenv\<close>. The mutex makes every operation one
  step.
\<close>

section \<open>The code\<close>

record mem_entry =
  me_verifier :: string
  me_realm :: string
  me_expires_at :: int

type_synonym mem_map = "string \<Rightarrow> mem_entry option"
type_synonym mem_world = "mem_map \<times> sysenv"

definition kHex :: string where
  "kHex = ''0123456789abcdef''"

definition kStateBytes :: nat where
  "kStateBytes = 16"

text \<open>The two digits of a byte: \<open>kHex[(byte >> 4) & 0x0F]\<close> and \<open>kHex[byte & 0x0F]\<close>.\<close>

fun state_hex :: "string \<Rightarrow> string" where
  "state_hex [] = []"
| "state_hex (byte # bytes) =
     kHex ! (code byte div 16 mod 16) # kHex ! (code byte mod 16) # state_hex bytes"

definition random_state_32 :: "(sysenv, string) act" where
  "random_state_32 =
     abind (RAND_bytes kStateBytes) (\<lambda>r.
       case r of
         None \<Rightarrow> athrow (Runtime_error ''RAND_bytes failed while generating OAuth state'')
       | Some bytes \<Rightarrow> aret (state_hex bytes))"

text \<open>\<open>cleanup_expired_unsafe\<close>: one reading of the clock, then the sweep over the map.\<close>

definition sweep :: "int \<Rightarrow> mem_map \<Rightarrow> mem_map" where
  "sweep now m = (\<lambda>k. case m k of
       None \<Rightarrow> None
     | Some e \<Rightarrow> if me_expires_at e \<le> now then None else Some e)"

definition cleanup_expired_unsafe :: "(mem_world, unit) act" where
  "cleanup_expired_unsafe =
     abind (on_snd steady_now) (\<lambda>now. \<lambda>(m, s). (Inr (), (sweep now m, s)))"

definition mem_insert :: "string \<Rightarrow> state_entry \<Rightarrow> int \<Rightarrow> (mem_world, string) act" where
  "mem_insert st entry ttl =
     abind (on_snd steady_now) (\<lambda>now.
     abind (alift (steady_add now ttl)) (\<lambda>expires. \<lambda>(m, s).
       (Inr st, (m(st \<mapsto> \<lparr>me_verifier = se_code_verifier entry, me_realm = se_realm entry,
                          me_expires_at = expires\<rparr>), s))))"

text \<open>The loop over the attempts; the first argument counts those that are left.\<close>

fun mem_attempts :: "nat \<Rightarrow> state_entry \<Rightarrow> int \<Rightarrow> (mem_world, string) act" where
  "mem_attempts 0 entry ttl =
     athrow (Runtime_error ''MemoryStateStore::create_state failed: unable to allocate unique state'')"
| "mem_attempts (Suc left) entry ttl =
     abind (on_snd random_state_32) (\<lambda>st. \<lambda>(m, s).
       if m st \<noteq> None then mem_attempts left entry ttl (m, s)
       else mem_insert st entry ttl (m, s))"

definition mem_create_state_entry :: "state_entry \<Rightarrow> int \<Rightarrow> (mem_world, string) act" where
  "mem_create_state_entry entry ttl =
     abind cleanup_expired_unsafe (\<lambda>_. mem_attempts 8 entry ttl)"

definition mem_consume_state_entry :: "string \<Rightarrow> (mem_world, state_entry option) act" where
  "mem_consume_state_entry st =
     abind cleanup_expired_unsafe (\<lambda>_. \<lambda>(m, s).
       case m st of
         None \<Rightarrow> (Inr None, (m, s))
       | Some e \<Rightarrow>
           (Inr (Some \<lparr>se_code_verifier = me_verifier e, se_realm = me_realm e\<rparr>), (m(st := None), s)))"

section \<open>What the operations do\<close>

definition entry_of :: "mem_entry \<Rightarrow> state_entry" where
  "entry_of e = \<lparr>se_code_verifier = me_verifier e, se_realm = me_realm e\<rparr>"

definition mem_stored :: "mem_world \<Rightarrow> string \<Rightarrow> state_entry option" where
  "mem_stored w st = map_option entry_of (fst w st)"

definition new_entry :: "state_entry \<Rightarrow> int \<Rightarrow> int \<Rightarrow> mem_entry" where
  "new_entry e now ttl = \<lparr>me_verifier = se_code_verifier e, me_realm = se_realm e,
     me_expires_at = now + ttl * 10 ^ 9\<rparr>"

lemma entry_of_new [simp]: "entry_of (new_entry e now ttl) = e"
  by (simp add: entry_of_def new_entry_def)

lemma on_snd_steady_now [simp]:
  "on_snd steady_now (m, s) = (Inr (steady_ticks s (steady_pos s)), (m, s\<lparr>steady_pos := Suc (steady_pos s)\<rparr>))"
  by (simp add: on_snd_def steady_now_def)

lemma cleanup_eq [simp]:
  "cleanup_expired_unsafe (m, s) =
     (Inr (), (sweep (steady_ticks s (steady_pos s)) m, s\<lparr>steady_pos := Suc (steady_pos s)\<rparr>))"
  by (simp add: cleanup_expired_unsafe_def abind_def)

lemma sweep_Some: "sweep now m k = Some e \<longleftrightarrow> m k = Some e \<and> now < me_expires_at e"
  by (auto simp: sweep_def split: option.splits)

lemma sweep_cases: "sweep now m k = None \<or> sweep now m k = m k"
  by (auto simp: sweep_def split: option.splits)

lemma sweep_None: "m k = None \<Longrightarrow> sweep now m k = None"
  by (simp add: sweep_def)

text \<open>Consumption, completely: the entry that has not expired, and it is gone afterwards.\<close>

lemma mem_consume_eq:
  "mem_consume_state_entry st (m, s) =
     (let m' = sweep (steady_ticks s (steady_pos s)) m in
      (Inr (map_option entry_of (m' st)), (m'(st := None), s\<lparr>steady_pos := Suc (steady_pos s)\<rparr>)))"
  by (auto simp: mem_consume_state_entry_def abind_def Let_def entry_of_def fun_upd_idem split: option.splits)

lemma mem_insert_Inr:
  assumes "mem_insert st e ttl (m, s) = (r, (m', s'))"
  shows "(\<exists>x. r = Inl x \<and> m' = m) \<or>
    (r = Inr st \<and> fits_int64 (steady_ticks s (steady_pos s) + ttl * 10 ^ 9) \<and>
     m' = m(st \<mapsto> new_entry e (steady_ticks s (steady_pos s)) ttl))"
    and "s' = s\<lparr>steady_pos := Suc (steady_pos s)\<rparr>"
  using assms
  by (auto simp: mem_insert_def abind_def steady_add_def add_int64_def new_entry_def split: if_splits)

text \<open>
  The attempts leave every entry alone and add at most one, under a state that was free.
\<close>

lemma mem_attempts_result:
  assumes "mem_attempts n e ttl (m, s) = (r, (m', s'))"
  shows "(\<exists>x. r = Inl x \<and> m' = m) \<or>
    (\<exists>st. r = Inr st \<and> m st = None \<and>
      m' = m(st \<mapsto> new_entry e (steady_ticks s (steady_pos s)) ttl) \<and>
      steady_pos s' = Suc (steady_pos s) \<and> steady_ticks s' = steady_ticks s)"
  using assms
proof (induction n arbitrary: s)
  case (Suc n)
  have env: "steady_pos (s\<lparr>rand_pos := p\<rparr>) = steady_pos s" "steady_ticks (s\<lparr>rand_pos := p\<rparr>) = steady_ticks s" for p
    by simp_all
  show ?case
  proof (cases "rand_bytes s (rand_pos s) kStateBytes")
    case None
    with Suc.prems show ?thesis
      by (auto simp: abind_def on_snd_def random_state_32_def RAND_bytes_def)
  next
    case (Some bs)
    let ?s = "s\<lparr>rand_pos := Suc (rand_pos s)\<rparr>" and ?st = "state_hex bs"
    have step: "mem_attempts (Suc n) e ttl (m, s) =
        (if m ?st \<noteq> None then mem_attempts n e ttl (m, ?s) else mem_insert ?st e ttl (m, ?s))"
      using Some by (simp add: abind_def on_snd_def random_state_32_def RAND_bytes_def)
    show ?thesis
    proof (cases "m ?st = None")
      case True
      then have "mem_insert ?st e ttl (m, ?s) = (r, (m', s'))" using Suc.prems step by simp
      note ins = mem_insert_Inr [OF this]
      then consider x where "r = Inl x" "m' = m"
        | "r = Inr ?st" "m' = m(?st \<mapsto> new_entry e (steady_ticks s (steady_pos s)) ttl)" by auto
      then show ?thesis by cases (use ins(2) True in simp_all)
    next
      case False
      then have "mem_attempts n e ttl (m, ?s) = (r, (m', s'))" using Suc.prems step by simp
      from Suc.IH [OF this] show ?thesis by simp
    qed
  qed
qed auto

lemma mem_create_result:
  assumes "mem_create_state_entry e ttl (m, s) = (r, (m', s'))"
  defines "m0 \<equiv> sweep (steady_ticks s (steady_pos s)) m"
  shows "(\<exists>x. r = Inl x \<and> m' = m0) \<or>
    (\<exists>st. r = Inr st \<and> m0 st = None \<and>
      m' = m0(st \<mapsto> new_entry e (steady_ticks s (Suc (steady_pos s))) ttl) \<and>
      steady_pos s' = Suc (Suc (steady_pos s)) \<and> steady_ticks s' = steady_ticks s)"
proof -
  have "mem_attempts 8 e ttl (m0, s\<lparr>steady_pos := Suc (steady_pos s)\<rparr>) = (r, (m', s'))"
    using assms(1) by (simp add: mem_create_state_entry_def abind_def m0_def del: mem_attempts.simps)
  from mem_attempts_result [OF this] show ?thesis by simp
qed

section \<open>The contract of the store\<close>

text \<open>Between its operations, a client of the store only changes the environment.\<close>

lemma mem_create_keeps:
  assumes "mem_create_state_entry e ttl w = (rc, w')" and "rc \<noteq> Inr st"
  shows "mem_stored w' st = None \<or> mem_stored w' st = mem_stored w st"
proof -
  obtain m s m' s' where w: "w = (m, s)" "w' = (m', s')" by (cases w; cases w')
  let ?m0 = "sweep (steady_ticks s (steady_pos s)) m"
  from mem_create_result [OF assms(1) [unfolded w]] assms(2) have "m' st = ?m0 st"
    by (auto split: if_splits)
  with sweep_cases [of "steady_ticks s (steady_pos s)" m st] show ?thesis by (auto simp: mem_stored_def w)
qed

interpretation mem_store: state_store mem_create_state_entry mem_consume_state_entry mem_stored
  "\<lambda>st r. r = Inr st" env_noise
proof (unfold_locales, goal_cases)
  case (1 e ttl w st w')
  then show ?case
    by (cases w; cases w') (auto dest!: mem_create_result simp: mem_stored_def)
next
  case (2 e ttl w rc w' st)
  then show ?case using mem_create_keeps by blast
next
  case (3 st w e w')
  then show ?case
    by (cases w) (auto simp: mem_consume_eq Let_def mem_stored_def sweep_def split: option.splits if_splits)
next
  case (4 st w oe w')
  then show ?case by (cases w) (auto simp: mem_consume_eq Let_def mem_stored_def)
next
  case (5 st w rr w' st')
  then show ?case
    by (cases w) (auto simp: mem_consume_eq Let_def mem_stored_def sweep_def split: option.splits if_splits)
qed (auto simp: env_noise_def mem_stored_def)

section \<open>Expiry, and the shape of a state\<close>

text \<open>
  A state that was just issued is honoured exactly as long as its time to live has not passed:
  \<open>t0\<close> is the clock at the insertion, \<open>t1\<close> the clock at the consumption.
\<close>

lemma mem_expiry:
  assumes "mem_create_state_entry e ttl (m, s) = (Inr st, (m1, s1))"
  defines "t0 \<equiv> steady_ticks s (Suc (steady_pos s))"
    and "t1 \<equiv> steady_ticks s1 (steady_pos s1)"
  shows "fst (mem_consume_state_entry st (m1, s1)) =
    Inr (if t1 < t0 + ttl * 10 ^ 9 then Some e else None)"
proof -
  let ?n = "new_entry e (steady_ticks s (Suc (steady_pos s))) ttl"
  have n: "m1 st = Some ?n" using mem_create_result [OF assms(1)] by auto
  have "me_expires_at ?n = t0 + ttl * 10 ^ 9" by (simp add: new_entry_def t0_def)
  with n show ?thesis by (auto simp: mem_consume_eq Let_def sweep_def t1_def)
qed

lemma kHex_nth: "i < 16 \<Longrightarrow> kHex ! i \<in> set kHex"
  by (rule nth_mem) (simp add: kHex_def)

lemma state_hex_shape: "length (state_hex bs) = 2 * length bs \<and> set (state_hex bs) \<subseteq> set kHex"
  by (induction bs) (auto simp: kHex_nth)

lemma random_state_shape:
  assumes "random_state_32 s = (Inr st, s')" and "rand_fills s"
  shows "length st = 32 \<and> set st \<subseteq> set kHex"
proof -
  obtain bs where "rand_bytes s (rand_pos s) kStateBytes = Some bs" "st = state_hex bs"
    using assms(1) by (auto simp: random_state_32_def abind_def RAND_bytes_def split: option.splits)
  then show ?thesis using state_hex_shape [of bs] assms(2) by (auto simp: rand_fills_def kStateBytes_def)
qed

text \<open>Two different byte strings never give the same state.\<close>

lemma kHex_inj: "i < 16 \<Longrightarrow> j < 16 \<Longrightarrow> kHex ! i = kHex ! j \<Longrightarrow> i = j"
  using nth_eq_iff_index_eq [of kHex i j] by (simp add: kHex_def)

lemma state_hex_inj: "state_hex bs = state_hex cs \<Longrightarrow> bs = cs"
proof (induction bs arbitrary: cs)
  case Nil
  then show ?case by (cases cs) auto
next
  case (Cons b bs)
  then obtain c cs' where cs: "cs = c # cs'" by (cases cs) auto
  with Cons.prems have "code b div 16 mod 16 = code c div 16 mod 16" "code b mod 16 = code c mod 16"
    by (auto intro: kHex_inj)
  then have "code b div 16 = code c div 16" "code b mod 16 = code c mod 16"
    using code_bound [of b] code_bound [of c] by (simp_all add: less_mult_imp_div_less)
  then have "b = c" by (metis char_eqI div_mult_mod_eq)
  with Cons cs show ?case by simp
qed

text \<open>
  When \<open>create\<close> fails although the random source works, eight drawn states in a row were taken.
\<close>

lemma mem_attempts_exhausted:
  assumes "mem_attempts n e ttl (m, s) = (Inl x, w')"
    and "\<And>i. i < n \<Longrightarrow> \<exists>bs. rand_bytes s (rand_pos s + i) kStateBytes = Some bs"
    and "\<And>t. fits_int64 (steady_ticks s (steady_pos s) + ttl * 10 ^ 9)" and "fits_int64 (ttl * 10 ^ 9)"
    and "i < n"
  shows "m (state_hex (the (rand_bytes s (rand_pos s + i) kStateBytes))) \<noteq> None"
  using assms
proof (induction n arbitrary: s i)
  case (Suc n)
  obtain bs where bs: "rand_bytes s (rand_pos s) kStateBytes = Some bs" using Suc.prems(2) [of 0] by auto
  let ?s = "s\<lparr>rand_pos := Suc (rand_pos s)\<rparr>" and ?st = "state_hex bs"
  have step: "mem_attempts (Suc n) e ttl (m, s) =
      (if m ?st \<noteq> None then mem_attempts n e ttl (m, ?s) else mem_insert ?st e ttl (m, ?s))"
    using bs by (simp add: abind_def on_snd_def random_state_32_def RAND_bytes_def)
  have taken: "m ?st \<noteq> None"
    using Suc.prems(1,3,4) unfolding step
    by (auto simp: mem_insert_def abind_def steady_add_def add_int64_def split: if_splits)
  then have rest: "mem_attempts n e ttl (m, ?s) = (Inl x, w')" using Suc.prems(1) step by simp
  show ?case
  proof (cases i)
    case 0
    then show ?thesis using taken bs by simp
  next
    case (Suc j)
    have "\<exists>bs. rand_bytes ?s (rand_pos ?s + k) kStateBytes = Some bs" if "k < n" for k
      using Suc.prems(2) [of "Suc k"] that by simp
    from Suc.IH [OF rest this] show ?thesis using Suc Suc.prems by simp
  qed
qed simp

end
