(* ===== verification/RedisStore.thy ===== *)
theory RedisStore
  imports StateStore UrlEncode MemoryStore
begin

text \<open>
  \<open>src/keycloak/state_store/redis.cpp\<close>: the Redis store. The client library is not part of the
  sources: \<open>command\<close> sends one command and yields either the message of a \<open>RedisError\<close> or a
  reply. What Redis documents of \<open>SET .. EX .. NX\<close> and of \<open>GETDEL\<close> are the predicates
  \<open>redis_set_ok\<close> and \<open>redis_getdel_ok\<close>, under which the store meets the contract of \<open>StateStore\<close>.
\<close>

section \<open>The entry codec\<close>

definition encode_state_entry :: "state_entry \<Rightarrow> string" where
  "encode_state_entry entry =
     ''verifier='' @ url_encode (se_code_verifier entry) @ ''&realm='' @ url_encode (se_realm entry)"

text \<open>One part of the encoded entry: \<open>key=value\<close>, or a key alone.\<close>

definition decode_part :: "string \<Rightarrow> state_entry \<Rightarrow> state_entry" where
  "decode_part part entry =
     (let eq = find_ch CHR ''='' part 0;
          key = url_decode (substr part 0 (value_at eq (length part)));
          val = (case eq of None \<Rightarrow> [] | Some p \<Rightarrow> url_decode (drop (Suc p) part))
      in if key = ''verifier'' then entry\<lparr>se_code_verifier := val\<rparr>
         else if key = ''realm'' then entry\<lparr>se_realm := val\<rparr>
         else entry)"

definition decode_state_entry :: "string \<Rightarrow> state_entry option" where
  "decode_state_entry raw =
     (let entry = part_loop CHR ''&'' True decode_part raw 0 \<lparr>se_code_verifier = [], se_realm = []\<rparr>
      in if se_code_verifier entry = [] then None else Some entry)"

section \<open>The store\<close>

datatype redis_reply = Reply_null | Reply_simple string | Reply_bulk string | Reply_other

type_synonym 'r redis_command = "string list \<Rightarrow> 'r \<Rightarrow> (string + redis_reply) \<times> 'r"

text \<open>The constructor.\<close>

definition redis_state_store_new :: "string \<Rightarrow> string res" where
  "redis_state_store_new key_prefix =
     (if key_prefix = [] then Inl (Invalid_argument ''key_prefix must not be empty'') else Inr key_prefix)"

definition make_key :: "string \<Rightarrow> string \<Rightarrow> string" where
  "make_key key_prefix st = key_prefix @ st"

definition redis_failure :: "string \<Rightarrow> string \<Rightarrow> exn" where
  "redis_failure operation message = Runtime_error (operation @ '' failed: '' @ message)"

text \<open>The Redis store draws its states as the memory store does, by a copy of that code.\<close>

definition redis_random_state_32 :: "(sysenv, string) act" where
  "redis_random_state_32 =
     abind (RAND_bytes kStateBytes) (\<lambda>r.
       case r of
         None \<Rightarrow> athrow (Runtime_error ''RAND_bytes failed while generating OAuth state'')
       | Some bytes \<Rightarrow> aret (state_hex bytes))"

lemma redis_random_state [simp]: "redis_random_state_32 = random_state_32"
  by (simp add: redis_random_state_32_def random_state_32_def)

text \<open>\<open>static_cast<int>(std::max<std::int64_t>(1, ttl.count()))\<close> keeps the low 32 bits.\<close>

definition ttl_seconds :: "int \<Rightarrow> int" where
  "ttl_seconds ttl = sint (of_int (max 1 ttl) :: 32 word)"

fun redis_attempts ::
  "'r redis_command \<Rightarrow> string \<Rightarrow> nat \<Rightarrow> string \<Rightarrow> string \<Rightarrow> ('r \<times> sysenv, string) act" where
  "redis_attempts command key_prefix 0 val ttl_text =
     athrow (Runtime_error ''RedisStateStore::create_state failed: unable to allocate unique state'')"
| "redis_attempts command key_prefix (Suc left) val ttl_text =
     abind (on_snd redis_random_state_32) (\<lambda>st. \<lambda>(r, s).
       case command [''SET'', make_key key_prefix st, val, ''EX'', ttl_text, ''NX''] r of
         (Inl err, r') \<Rightarrow> (Inl (redis_failure ''RedisStateStore::create_state'' err), (r', s))
       | (Inr reply, r') \<Rightarrow>
           (if reply = Reply_null then redis_attempts command key_prefix left val ttl_text (r', s)
            else if reply = Reply_simple ''OK'' then (Inr st, (r', s))
            else (Inl (Runtime_error ''RedisStateStore::create_state failed: unexpected Redis reply''),
                  (r', s))))"

definition redis_create_state_entry ::
  "'r redis_command \<Rightarrow> string \<Rightarrow> state_entry \<Rightarrow> int \<Rightarrow> ('r \<times> sysenv, string) act" where
  "redis_create_state_entry command key_prefix entry ttl =
     redis_attempts command key_prefix 8 (encode_state_entry entry) (to_string_int (ttl_seconds ttl))"

definition entry_of_raw :: "string \<Rightarrow> state_entry" where
  "entry_of_raw raw =
     (case decode_state_entry raw of
        Some entry \<Rightarrow> entry
      | None \<Rightarrow> \<lparr>se_code_verifier = raw, se_realm = []\<rparr>)"

definition redis_consume_state_entry ::
  "'r redis_command \<Rightarrow> string \<Rightarrow> string \<Rightarrow> ('r \<times> sysenv, state_entry option) act" where
  "redis_consume_state_entry command key_prefix st = (\<lambda>(r, s).
     case command [''GETDEL'', make_key key_prefix st] r of
       (Inl err, r') \<Rightarrow> (Inl (redis_failure ''RedisStateStore::consume_state'' err), (r', s))
     | (Inr reply, r') \<Rightarrow>
         (case reply of
            Reply_null \<Rightarrow> (Inr None, (r', s))
          | Reply_bulk raw \<Rightarrow> (Inr (Some (entry_of_raw raw)), (r', s))
          | Reply_simple raw \<Rightarrow> (Inr (Some (entry_of_raw raw)), (r', s))
          | Reply_other \<Rightarrow>
              (Inl (Runtime_error ''RedisStateStore::consume_state failed: unexpected Redis reply''),
               (r', s))))"

definition redis_create_state ::
  "'r redis_command \<Rightarrow> string \<Rightarrow> string \<Rightarrow> int \<Rightarrow> ('r \<times> sysenv, string) act" where
  "redis_create_state command key_prefix code_verifier ttl =
     redis_create_state_entry command key_prefix \<lparr>se_code_verifier = code_verifier, se_realm = []\<rparr> ttl"

definition redis_consume_state ::
  "'r redis_command \<Rightarrow> string \<Rightarrow> string \<Rightarrow> ('r \<times> sysenv, string option) act" where
  "redis_consume_state command key_prefix st =
     abind (redis_consume_state_entry command key_prefix st) (\<lambda>entry. aret (map_option se_code_verifier entry))"

section \<open>The time to live\<close>

text \<open>Exact in the range of \<open>int\<close>, at least one second, and wrapped around above it.\<close>

lemma ttl_seconds_exact: "ttl < 2 ^ 31 \<Longrightarrow> ttl_seconds ttl = max 1 ttl"
  by (simp add: ttl_seconds_def sint_sbintrunc' signed_take_bit_int_eq_self)

lemma ttl_seconds_wraps: "ttl_seconds (2 ^ 31) = - (2 ^ 31)"
  by (simp add: ttl_seconds_def)

section \<open>The codec round trip\<close>

lemma decode_part_pair:
  assumes "CHR ''='' \<notin> set key" and "url_decode key = k"
  shows "decode_part (key @ CHR ''='' # val) entry =
    (if k = ''verifier'' then entry\<lparr>se_code_verifier := url_decode val\<rparr>
     else if k = ''realm'' then entry\<lparr>se_realm := url_decode val\<rparr> else entry)"
proof -
  have "find_ch CHR ''='' (key @ CHR ''='' # val) 0 = Some (length key)"
    using find_ch_found [of "key @ CHR ''='' # val" 0 key "CHR ''=''" val] assms(1) by simp
  then show ?thesis using assms(2) by (simp add: decode_part_def Let_def substr_def)
qed

lemma decode_encode:
  "decode_state_entry (encode_state_entry e) = (if se_code_verifier e = [] then None else Some e)"
proof -
  let ?p = "''verifier='' @ url_encode (se_code_verifier e)"
    and ?q = "''realm='' @ url_encode (se_realm e)"
  have "part_loop CHR ''&'' True decode_part (encode_state_entry e) 0
      \<lparr>se_code_verifier = [], se_realm = []\<rparr> =
    fold (do_part decode_part) [?p, ?q] \<lparr>se_code_verifier = [], se_realm = []\<rparr>"
    by (rule part_loop_parts) (auto simp: encode_state_entry_def)
  also have "\<dots> = e"
    using decode_part_pair [of "''verifier''" "''verifier''"] decode_part_pair [of "''realm''" "''realm''"]
    by (simp add: do_part_def)
  finally show ?thesis by (simp add: decode_state_entry_def)
qed

lemma entry_of_encoded: "se_code_verifier e \<noteq> [] \<Longrightarrow> entry_of_raw (encode_state_entry e) = e"
  by (simp add: entry_of_raw_def decode_encode)

section \<open>The contract, under the documented behaviour of Redis\<close>

text \<open>
  \<open>view r\<close> is the keyspace. A \<open>SET .. NX\<close> that answers \<open>OK\<close> has stored the value; one that
  answers nil has stored nothing. \<open>GETDEL\<close> answers the value of the key, or nil, and the key is
  gone. When a command fails, or gives another reply, it is open whether it was executed. At any
  time keys may expire, so the keyspace after a command is bounded from above only.
\<close>

definition redis_set_ok :: "'r redis_command \<Rightarrow> ('r \<Rightarrow> string \<Rightarrow> string option) \<Rightarrow> bool" where
  "redis_set_ok command view \<longleftrightarrow>
     (\<forall>r r' k v t reply. command [''SET'', k, v, ''EX'', t, ''NX''] r = (reply, r') \<longrightarrow>
        (\<forall>k'. k' \<noteq> k \<longrightarrow> view r' k' = None \<or> view r' k' = view r k') \<and>
        (reply = Inr (Reply_simple ''OK'') \<longrightarrow> view r' k = Some v) \<and>
        (reply = Inr Reply_null \<longrightarrow> view r' k = None \<or> view r' k = view r k))"

definition redis_getdel_ok :: "'r redis_command \<Rightarrow> ('r \<Rightarrow> string \<Rightarrow> string option) \<Rightarrow> bool" where
  "redis_getdel_ok command view \<longleftrightarrow>
     (\<forall>r r' k reply. command [''GETDEL'', k] r = (reply, r') \<longrightarrow>
        (\<forall>k'. view r' k' = None \<or> view r' k' = view r k') \<and>
        (\<forall>v. reply = Inr (Reply_bulk v) \<or> reply = Inr (Reply_simple v) \<longrightarrow> view r k = Some v) \<and>
        (\<forall>x. reply = Inr x \<longrightarrow> view r' k = None))"

definition redis_stored ::
  "('r \<Rightarrow> string \<Rightarrow> string option) \<Rightarrow> string \<Rightarrow> 'r \<times> sysenv \<Rightarrow> string \<Rightarrow> state_entry option" where
  "redis_stored view key_prefix w st = map_option entry_of_raw (view (fst w) (make_key key_prefix st))"

definition redis_issues :: "string \<Rightarrow> string res \<Rightarrow> bool" where
  "redis_issues st r \<longleftrightarrow> r = Inr st \<or> (\<exists>x. r = Inl x)"

lemma redis_set_cases:
  assumes "redis_set_ok command view" and "command [''SET'', k, v, ''EX'', t, ''NX''] r = (reply, r')"
  shows "k' \<noteq> k \<Longrightarrow> view r' k' = None \<or> view r' k' = view r k'"
    and "reply = Inr (Reply_simple ''OK'') \<Longrightarrow> view r' k = Some v"
    and "reply = Inr Reply_null \<Longrightarrow> view r' k' = None \<or> view r' k' = view r k'"
  using assms unfolding redis_set_ok_def by metis+

lemma make_key_inj [simp]: "make_key p st = make_key p st' \<longleftrightarrow> st = st'"
  by (simp add: make_key_def)

lemma on_snd_random_state: "on_snd random_state_32 (r, s) = (x, w) \<Longrightarrow> fst w = r"
  by (auto simp: on_snd_def split: prod.splits)

lemma redis_attempts_result:
  assumes "redis_set_ok command view"
    and "redis_attempts command pfx n val t w = (Inr st, w')"
  shows "view (fst w') (make_key pfx st) = Some val \<and>
    (\<forall>k. k \<noteq> make_key pfx st \<longrightarrow> view (fst w') k = None \<or> view (fst w') k = view (fst w) k)"
  using assms(2)
proof (induction n arbitrary: w)
  case (Suc n)
  obtain r s where w: "w = (r, s)" by fastforce
  from Suc.prems obtain st0 s0 where drawn: "on_snd random_state_32 w = (Inr st0, (r, s0))"
    by (cases "on_snd random_state_32 w")
      (auto simp: abind_def w split: sum.splits dest: on_snd_random_state)
  obtain reply r1 where cmd: "command [''SET'', make_key pfx st0, val, ''EX'', t, ''NX''] r = (reply, r1)"
    by fastforce
  note set_facts = redis_set_cases [OF assms(1) cmd]
  from Suc.prems drawn cmd consider
      "reply = Inr Reply_null" "redis_attempts command pfx n val t (r1, s0) = (Inr st, w')"
    | "reply = Inr (Reply_simple ''OK'')" "st = st0" "w' = (r1, s0)"
    by (auto simp: abind_def split: sum.splits if_splits)
  then show ?case
  proof cases
    case 1
    with Suc.IH [OF 1(2)] set_facts(3) show ?thesis by (simp add: w) metis
  next
    case 2
    with set_facts(1,2) show ?thesis by (simp add: w)
  qed
qed simp

theorem redis_state_store:
  assumes set_ok: "redis_set_ok command view" and getdel_ok: "redis_getdel_ok command view"
  shows "state_store (redis_create_state_entry command pfx) (redis_consume_state_entry command pfx)
    (redis_stored view pfx) redis_issues env_noise"
proof (unfold_locales, goal_cases)
  case (1 e ttl w st w')
  then show ?case
    using redis_attempts_result [OF set_ok] by (simp add: redis_create_state_entry_def redis_stored_def entry_of_encoded)
next
  case (2 e ttl w rc w' st)
  then obtain st' where "rc = Inr st'" "st' \<noteq> st" by (cases rc) (auto simp: redis_issues_def)
  with 2 redis_attempts_result [OF set_ok] show ?case
    unfolding redis_create_state_entry_def redis_stored_def by (metis make_key_inj option.map_disc_iff)
next
  case (3 st w e w')
  then show ?case using getdel_ok
    by (cases w) (auto simp: redis_consume_state_entry_def redis_stored_def redis_getdel_ok_def
        split: prod.splits sum.splits redis_reply.splits)
next
  case (4 st w oe w')
  then show ?case using getdel_ok
    by (cases w) (auto simp: redis_consume_state_entry_def redis_stored_def redis_getdel_ok_def
        split: prod.splits sum.splits redis_reply.splits)
next
  case (5 st w rr w' st')
  obtain r s r' s' where w: "w = (r, s)" "w' = (r', s')" by (cases w; cases w')
  obtain reply r1 where cmd: "command [''GETDEL'', make_key pfx st] r = (reply, r1)" by fastforce
  with 5 w have "r1 = r'"
    by (auto simp: redis_consume_state_entry_def split: sum.splits redis_reply.splits)
  with cmd getdel_ok have "view r' k = None \<or> view r' k = view r k" for k
    unfolding redis_getdel_ok_def by blast
  then show ?case by (auto simp: redis_stored_def w) (metis option.map_disc_iff)
qed (auto simp: env_noise_def redis_stored_def)

text \<open>
  A server that never expires a key meets these hypotheses; it serves as the instance of the
  contract.
\<close>

fun plain_redis :: "(string \<Rightarrow> string option) redis_command" where
  "plain_redis [cmd, k] m = (if cmd = ''GETDEL'' then
     (case m k of None \<Rightarrow> (Inr Reply_null, m) | Some v \<Rightarrow> (Inr (Reply_bulk v), m(k := None)))
     else (Inl ''ERR'', m))"
| "plain_redis [cmd, k, v, ex, t, nx] m = (if cmd = ''SET'' then
     (case m k of None \<Rightarrow> (Inr (Reply_simple ''OK''), m(k \<mapsto> v)) | Some _ \<Rightarrow> (Inr Reply_null, m))
     else (Inl ''ERR'', m))"
| "plain_redis args m = (Inl ''ERR'', m)"

lemma plain_redis_set_ok: "redis_set_ok plain_redis (\<lambda>m. m)"
  by (auto simp: redis_set_ok_def split: option.splits)

lemma plain_redis_getdel_ok: "redis_getdel_ok plain_redis (\<lambda>m. m)"
  by (auto simp: redis_getdel_ok_def split: option.splits)

interpretation redis_store: state_store
  "redis_create_state_entry plain_redis pfx" "redis_consume_state_entry plain_redis pfx"
  "redis_stored (\<lambda>m. m) pfx" redis_issues env_noise
  for pfx
  by (rule redis_state_store [OF plain_redis_set_ok plain_redis_getdel_ok])

end
