(* ===== verification/LoginFlow.thy ===== *)
theory LoginFlow
  imports MultiRealm MemoryStore RedisStore
begin

text \<open>
  The login flow across components: a client that starts logins and completes callbacks, over a
  store. \<open>KeycloakClient\<close> and \<open>MultiRealmManager\<close> both provide the interface that the HTTP
  handlers use, the record \<open>auth_client\<close>; the locale \<open>login_backend\<close> is what its operations do
  to the store, and its consequence is that a state completes at most one login.
\<close>

section \<open>The interface of the handlers\<close>

record 'w auth_client =
  ac_has_realm :: "string \<Rightarrow> bool"
  ac_start_login :: "string \<Rightarrow> int \<Rightarrow> ('w, auth_start) act"
  ac_complete_login :: "callback_input \<Rightarrow> ('w, callback_result) act"

definition single_realm_client ::
  "('h, 'm) http_lib_scheme \<Rightarrow> pkce_lib \<Rightarrow> ('s \<times> sysenv) create_op \<Rightarrow> ('s \<times> sysenv) consume_op \<Rightarrow>
    token_service_config \<Rightarrow> realm_config \<Rightarrow> ('s, 'h) lworld auth_client" where
  "single_realm_client lib plib create consume ts cfg =
     \<lparr>ac_has_realm = client_has_realm cfg,
      ac_start_login = (\<lambda>realm ttl. on_fst (client_start_login_realm plib create cfg realm ttl)),
      ac_complete_login = client_complete_login consume (exchange_authorization_code lib ts) cfg\<rparr>"

definition multi_realm_client ::
  "('h, 'm) http_lib_scheme \<Rightarrow> pkce_lib \<Rightarrow> ('s \<times> sysenv) create_op \<Rightarrow> ('s \<times> sysenv) consume_op \<Rightarrow>
    manager \<Rightarrow> ('s, 'h) lworld auth_client" where
  "multi_realm_client lib plib create consume m =
     \<lparr>ac_has_realm = manager_has_realm m,
      ac_start_login = (\<lambda>realm ttl. on_fst (manager_start_login plib create m realm ttl)),
      ac_complete_login = manager_complete_login lib consume m\<rparr>"

section \<open>Runs of logins\<close>

datatype login_op = Do_start string int | Do_complete callback_input

datatype login_obs =
    Started string "auth_start res"
  | Completed callback_input "callback_result res"

fun run_logins :: "'w auth_client \<Rightarrow> login_op list \<Rightarrow> 'w \<Rightarrow> login_obs list \<times> 'w" where
  "run_logins c [] w = ([], w)"
| "run_logins c (Do_start realm ttl # ops) w =
     (case ac_start_login c realm ttl w of (r, w1) \<Rightarrow>
        (case run_logins c ops w1 of (obs, w2) \<Rightarrow> (Started realm r # obs, w2)))"
| "run_logins c (Do_complete inp # ops) w =
     (case ac_complete_login c inp w of (r, w1) \<Rightarrow>
        (case run_logins c ops w1 of (obs, w2) \<Rightarrow> (Completed inp r # obs, w2)))"

text \<open>What one login operation does to the store.\<close>

fun login_rel :: "login_obs \<Rightarrow> store_obs list \<Rightarrow> bool" where
  "login_rel (Started realm r) s \<longleftrightarrow>
     (case r of
        Inr a \<Rightarrow> s = [Created (Inr (as_state a))]
      | Inl _ \<Rightarrow> s = [] \<or> (\<exists>x. s = [Created (Inl x)]))"
| "login_rel (Completed inp r) s \<longleftrightarrow>
     (s = [] \<or> (\<exists>x. s = [Consumed (cb_state inp) x])) \<and>
     (case r of
        Inr cr \<Rightarrow> cr_ok cr \<longrightarrow> (\<exists>e. s = [Consumed (cb_state inp) (Inr (Some e))])
      | Inl _ \<Rightarrow> True)"

text \<open>\<open>start_issues issues st r\<close>: the outcome \<open>r\<close> of a start may have issued the state \<open>st\<close>.\<close>

definition start_issues :: "(string \<Rightarrow> string res \<Rightarrow> bool) \<Rightarrow> string \<Rightarrow> auth_start res \<Rightarrow> bool" where
  "start_issues issues st r \<longleftrightarrow>
     (case r of Inr a \<Rightarrow> issues st (Inr (as_state a)) | Inl _ \<Rightarrow> (\<exists>x. issues st (Inl x)))"

locale login_backend = state_store create consume stored issues env_noise
  for create :: "state_entry \<Rightarrow> int \<Rightarrow> 's \<times> sysenv \<Rightarrow> string res \<times> ('s \<times> sysenv)"
    and consume :: "string \<Rightarrow> 's \<times> sysenv \<Rightarrow> state_entry option res \<times> ('s \<times> sysenv)"
    and stored :: "'s \<times> sysenv \<Rightarrow> string \<Rightarrow> state_entry option"
    and issues :: "string \<Rightarrow> string res \<Rightarrow> bool" +
  fixes client :: "('s, 'h) lworld auth_client"
  assumes start_steps: "ac_start_login client realm ttl w = (rs, w') \<Longrightarrow>
      \<exists>s. login_rel (Started realm rs) s \<and> store_steps create consume env_noise (fst w) s (fst w')"
    and complete_steps: "ac_complete_login client inp w = (rc, w') \<Longrightarrow>
      \<exists>s. login_rel (Completed inp rc) s \<and> store_steps create consume env_noise (fst w) s (fst w')"
begin

lemma run_logins_steps:
  assumes "run_logins client ops w = (obs, w')"
  shows "\<exists>ss. list_all2 login_rel obs ss \<and> store_steps create consume env_noise (fst w) (concat ss) (fst w')"
  using assms
proof (induction ops arbitrary: w obs)
  case Nil
  then show ?case by (auto intro: store_steps.none)
next
  case (Cons p ops)
  have "\<exists>o1 w1 obs'. obs = o1 # obs' \<and> run_logins client ops w1 = (obs', w') \<and>
    (\<exists>s. login_rel o1 s \<and> store_steps create consume env_noise (fst w) s (fst w1))"
  proof (cases p)
    case (Do_start realm ttl)
    obtain r w1 where step: "ac_start_login client realm ttl w = (r, w1)"
      by (cases "ac_start_login client realm ttl w")
    with Cons.prems Do_start obtain obs' where "obs = Started realm r # obs'"
      "run_logins client ops w1 = (obs', w')" by (auto split: prod.splits)
    with start_steps [OF step] show ?thesis by blast
  next
    case (Do_complete inp)
    obtain r w1 where step: "ac_complete_login client inp w = (r, w1)"
      by (cases "ac_complete_login client inp w")
    with Cons.prems Do_complete obtain obs' where "obs = Completed inp r # obs'"
      "run_logins client ops w1 = (obs', w')" by (auto split: prod.splits)
    with complete_steps [OF step] show ?thesis by blast
  qed
  then obtain o1 w1 obs' s where obs: "obs = o1 # obs'" and run: "run_logins client ops w1 = (obs', w')"
    and s: "login_rel o1 s" "store_steps create consume env_noise (fst w) s (fst w1)" by blast
  from Cons.IH [OF run] obtain ss where "list_all2 login_rel obs' ss"
    "store_steps create consume env_noise (fst w1) (concat ss) (fst w')" by blast
  with obs s have "list_all2 login_rel obs (s # ss) \<and>
      store_steps create consume env_noise (fst w) (concat (s # ss)) (fst w')"
    using store_steps_append by fastforce
  then show ?case by blast
qed

lemma login_rel_created:
  "login_rel o1 s \<Longrightarrow> Created r \<in> set s \<Longrightarrow> issues st r \<Longrightarrow>
    \<exists>realm rs. o1 = Started realm rs \<and> start_issues issues st rs"
  by (cases o1) (auto simp: start_issues_def split: sum.splits)

lemma created_in_concat:
  assumes "list_all2 login_rel obs ss" and "Created r \<in> set (concat ss)" and "issues st r"
  shows "\<exists>realm rs. Started realm rs \<in> set obs \<and> start_issues issues st rs"
  using assms
proof (induction rule: list_all2_induct)
  case (Cons o1 obs s ss)
  then show ?case using login_rel_created by (metis UnE concat.simps(2) list.set_intros set_append)
qed simp

text \<open>Between two completed logins with the same state lies a start that issued it.\<close>

lemma completed_once:
  assumes run: "run_logins client ops w =
      (pre @ Completed i1 (Inr r1) # mid @ Completed i2 (Inr r2) # post, w')"
    and ok: "cr_ok r1" "cr_ok r2" and same: "cb_state i2 = cb_state i1"
  shows "\<exists>realm rs. Started realm rs \<in> set mid \<and> start_issues issues (cb_state i1) rs"
proof -
  from run_logins_steps [OF run] obtain ss where
    rel: "list_all2 login_rel (pre @ Completed i1 (Inr r1) # mid @ Completed i2 (Inr r2) # post) ss"
    and steps: "store_steps create consume env_noise (fst w) (concat ss) (fst w')" by blast
  from rel obtain s_pre s1 s_mid s2 s_post where ss: "ss = s_pre @ s1 # s_mid @ s2 # s_post"
    and r1: "login_rel (Completed i1 (Inr r1)) s1" and r2: "login_rel (Completed i2 (Inr r2)) s2"
    and mid: "list_all2 login_rel mid s_mid"
    by (auto simp: list_all2_append1 list_all2_Cons1)
  from r1 r2 ok same obtain e1 e2 where "s1 = [Consumed (cb_state i1) (Inr (Some e1))]"
    "s2 = [Consumed (cb_state i1) (Inr (Some e2))]" by auto
  with ss have "concat ss = concat s_pre @ Consumed (cb_state i1) (Inr (Some e1)) #
      concat s_mid @ Consumed (cb_state i1) (Inr (Some e2)) # concat s_post" by simp
  from consumed_once [OF steps this] obtain r where "Created r \<in> set (concat s_mid)"
    "issues (cb_state i1) r" by blast
  with created_in_concat [OF mid] show ?thesis by blast
qed

end

section \<open>Both clients over any store\<close>

lemma env_step: "on_snd m w = (r, w') \<Longrightarrow> env_noise w w'"
  by (simp add: env_noise_def on_snd_keeps)

text \<open>A start draws a verifier, creates one state and builds the URL from both.\<close>

lemma start_core:
  fixes create :: "('s \<times> sysenv) create_op"
  assumes "abind (on_snd g) (\<lambda>pkce. abind (create (e pkce) ttl) (\<lambda>st.
      aret (create_authorization_url cfg st pkce))) w = (rs, w')"
  shows "\<exists>s. login_rel (Started realm rs) s \<and> store_steps create consume env_noise w s w'"
proof -
  obtain x w1 where x: "on_snd g w = (x, w1)" by (cases "on_snd g w")
  have n: "store_steps create consume env_noise w s w'" if "store_steps create consume env_noise w1 s w'" for s
    using env_step [OF x] that by (rule store_steps.noise)
  show ?thesis
  proof (cases x)
    case (Inl err)
    with assms x have "rs = Inl err" "w' = w1" by (auto simp: abind_def)
    then show ?thesis using n [of "[]"] by (auto intro: store_steps.none)
  next
    case (Inr pkce)
    obtain r w2 where r: "create (e pkce) ttl w1 = (r, w2)" by (cases "create (e pkce) ttl w1")
    then have "store_steps create consume env_noise w1 [Created r] w2"
      by (auto intro: store_steps.intros)
    moreover have "w2 = w' \<and> login_rel (Started realm rs) [Created r]"
      using assms x Inr r by (auto simp: abind_def create_authorization_url_def split: sum.splits)
    ultimately show ?thesis using n by blast
  qed
qed

text \<open>A completion consumes its state and then leaves the store alone.\<close>

lemma complete_core:
  fixes consume :: "('s \<times> sysenv) consume_op"
  assumes "abind (on_fst (consume (cb_state inp))) k w = (rc, w')"
    and k: "\<And>x w1 r w2. k x w1 = (r, w2) \<Longrightarrow>
      fst w2 = fst w1 \<and> (x = None \<longrightarrow> (\<forall>c. r = Inr c \<longrightarrow> \<not> cr_ok c))"
  shows "\<exists>s. login_rel (Completed inp rc) s \<and> store_steps create consume env_noise (fst w) s (fst w')"
proof -
  obtain x w1 where x: "on_fst (consume (cb_state inp)) w = (x, w1)"
    by (cases "on_fst (consume (cb_state inp)) w")
  from on_fst_keeps [OF x] have step: "store_steps create consume env_noise (fst w) [Consumed (cb_state inp) x] (fst w1)"
    by (auto intro: store_steps.intros)
  show ?thesis
  proof (cases x)
    case (Inl err)
    with assms(1) x have "rc = Inl err" "w' = w1" by (auto simp: abind_def)
    with step show ?thesis by auto
  next
    case (Inr v)
    with assms(1) x have kv: "k v w1 = (rc, w')" by (auto simp: abind_def)
    then have "fst w' = fst w1" using k by blast
    moreover have "login_rel (Completed inp rc) [Consumed (cb_state inp) x]"
      using k [OF kv] Inr by (cases v) (auto split: sum.splits)
    ultimately show ?thesis using step by auto
  qed
qed

lemma single_start_steps:
  assumes "ac_start_login (single_realm_client lib plib create consume ts cfg) realm ttl w = (rs, w')"
  shows "\<exists>s. login_rel (Started realm rs) s \<and> store_steps create consume env_noise (fst w) s (fst w')"
proof -
  from assms have "client_start_login_realm plib create cfg realm ttl (fst w) = (rs, fst w')"
    by (auto simp: single_realm_client_def dest: on_fst_keeps)
  then show ?thesis
    using start_core [of _ create "\<lambda>pkce. \<lparr>se_code_verifier = code_verifier pkce, se_realm = []\<rparr>"]
    by (auto simp: client_start_login_realm_def client_start_login_def create_state_def
        intro: store_steps.none split: if_splits)
qed

lemma single_complete_steps:
  assumes "ac_complete_login (single_realm_client lib plib create consume ts cfg) inp w = (rc, w')"
  shows "\<exists>s. login_rel (Completed inp rc) s \<and> store_steps create consume env_noise (fst w) s (fst w')"
proof (cases "cb_code inp = [] \<or> cb_state inp = []")
  case True
  with assms have "rc = Inr (callback_error 400 ''missing_code_or_state'')" "w' = w"
    by (auto simp: single_realm_client_def client_complete_login_def)
  then show ?thesis by (auto simp: callback_error_def intro: store_steps.none)
next
  case False
  let ?k = "\<lambda>entry. case map_option se_code_verifier entry of
      None \<Rightarrow> aret (callback_error 401 ''invalid_or_expired_state'')
    | Some v \<Rightarrow> abind (on_snd (exchange_authorization_code lib ts (cb_code inp) v))
        (\<lambda>r. aret (callback_of r (rc_realm cfg)))"
  have "abind (on_fst (consume (cb_state inp))) ?k w = (rc, w')"
    using assms False
    by (simp add: single_realm_client_def client_complete_login_def consume_state_def on_fst_abind abind_assoc)
  then show ?thesis
    by (rule complete_core) (auto simp: abind_def callback_error_def split: option.splits prod.splits
        sum.splits dest!: on_snd_keeps)
qed

lemma multi_start_steps:
  assumes "ac_start_login (multi_realm_client lib plib create consume m) realm ttl w = (rs, w')"
  shows "\<exists>s. login_rel (Started realm rs) s \<and> store_steps create consume env_noise (fst w) s (fst w')"
proof -
  from assms have st: "manager_start_login plib create m realm ttl (fst w) = (rs, fst w')"
    by (auto simp: multi_realm_client_def dest: on_fst_keeps)
  show ?thesis
  proof (cases "mg_realms m realm")
    case None
    with st have "\<exists>e. rs = Inl e" "fst w' = fst w"
      by (auto simp: manager_start_login_def lookup_realm_def abind_def)
    then show ?thesis by (auto intro: store_steps.none)
  next
    case (Some rt)
    with st show ?thesis
      using start_core [of _ create "\<lambda>pkce. \<lparr>se_code_verifier = code_verifier pkce, se_realm = rc_realm (mc_realm rt)\<rparr>"]
      by (auto simp: manager_start_login_def lookup_realm_def abind_alift)
  qed
qed

lemma multi_complete_steps:
  assumes "ac_complete_login (multi_realm_client lib plib create consume m) inp w = (rc, w')"
  shows "\<exists>s. login_rel (Completed inp rc) s \<and> store_steps create consume env_noise (fst w) s (fst w')"
proof (cases "cb_code inp = [] \<or> cb_state inp = []")
  case True
  with assms have "rc = Inr (callback_error 400 ''missing_code_or_state'')" "w' = w"
    by (auto simp: multi_realm_client_def manager_complete_login_def)
  then show ?thesis by (auto simp: callback_error_def intro: store_steps.none)
next
  case False
  with assms have "abind (on_fst (consume (cb_state inp))) (\<lambda>entry. case entry of
      None \<Rightarrow> aret (callback_error 401 ''invalid_or_expired_state'')
    | Some e \<Rightarrow> (case mg_realms m (se_realm e) of
          None \<Rightarrow> aret (callback_error 400 ''unknown_realm'')
        | Some rt \<Rightarrow> abind (on_snd (exchange_authorization_code lib (mc_token rt) (cb_code inp) (se_code_verifier e)))
            (\<lambda>r. aret (callback_of r (rc_realm (mc_realm rt)))))) w = (rc, w')"
    by (simp add: multi_realm_client_def manager_complete_login_def)
  then show ?thesis
    by (rule complete_core) (auto simp: abind_def callback_error_def split: option.splits prod.splits
        sum.splits dest!: on_snd_keeps)
qed

section \<open>The instances\<close>

lemma multi_backend:
  assumes "state_store create consume stored issues env_noise"
  shows "login_backend create consume stored issues (multi_realm_client lib plib create consume m)"
  using assms
  by (intro login_backend.intro login_backend_axioms.intro multi_start_steps multi_complete_steps)

lemma single_backend:
  assumes "state_store create consume stored issues env_noise"
  shows "login_backend create consume stored issues (single_realm_client lib plib create consume ts cfg)"
  using assms
  by (intro login_backend.intro login_backend_axioms.intro single_start_steps single_complete_steps)

interpretation mem_multi: login_backend mem_create_state_entry mem_consume_state_entry mem_stored
  "\<lambda>st r. r = Inr st" "multi_realm_client lib plib mem_create_state_entry mem_consume_state_entry m"
  for lib plib m
  by (rule multi_backend) (rule mem_store.state_store_axioms)

interpretation mem_single: login_backend mem_create_state_entry mem_consume_state_entry mem_stored
  "\<lambda>st r. r = Inr st" "single_realm_client lib plib mem_create_state_entry mem_consume_state_entry ts cfg"
  for lib plib ts cfg
  by (rule single_backend) (rule mem_store.state_store_axioms)

section \<open>What a login is bound to\<close>

text \<open>A started login: its pair, its state, its URL, and the entry that was handed to the store.\<close>

lemma manager_start_login_Inr:
  assumes "manager_start_login plib create m realm ttl w = (Inr a, w')"
  obtains rt pkce w1 where "mg_realms m realm = Some rt"
    and "generate_pkce_pair plib (rc_pkce_verifier_len (mc_realm rt)) (snd w) = (Inr pkce, snd w1)" "fst w1 = fst w"
    and "create \<lparr>se_code_verifier = code_verifier pkce, se_realm = rc_realm (mc_realm rt)\<rparr> ttl w1 =
      (Inr (as_state a), w')"
    and "a = create_authorization_url (mc_realm rt) (as_state a) pkce"
  using assms
  by (auto simp: manager_start_login_def abind_eq_Inr lookup_realm_def create_authorization_url_def
      split: option.splits dest!: on_snd_keeps)

text \<open>A completed login: the entry it consumed, and the exchange at the realm of that entry.\<close>

lemma manager_complete_login_ok:
  assumes "manager_complete_login lib consume m inp w = (Inr r, w')" and "cr_ok r"
  obtains e rt oa where "consume (cb_state inp) (fst w) = (Inr (Some e), fst w')"
    and "mg_realms m (se_realm e) = Some rt"
    and "exchange_authorization_code lib (mc_token rt) (cb_code inp) (se_code_verifier e) (snd w) =
      (Inr oa, snd w')"
    and "r = callback_of oa (rc_realm (mc_realm rt))" "cb_code inp \<noteq> []" "cb_state inp \<noteq> []"
proof -
  from assms have ne: "cb_code inp \<noteq> []" "cb_state inp \<noteq> []"
    by (auto simp: manager_complete_login_def callback_error_def)
  with assms obtain x w1 where x: "on_fst (consume (cb_state inp)) w = (Inr x, w1)"
    and rest: "(case x of
            None \<Rightarrow> aret (callback_error 401 ''invalid_or_expired_state'')
          | Some e \<Rightarrow>
              (case mg_realms m (se_realm e) of
                 None \<Rightarrow> aret (callback_error 400 ''unknown_realm'')
               | Some rt \<Rightarrow>
                   abind (on_snd (exchange_authorization_code lib (mc_token rt) (cb_code inp) (se_code_verifier e)))
                     (\<lambda>r. aret (callback_of r (rc_realm (mc_realm rt)))))) w1 = (Inr r, w')"
    by (auto simp: manager_complete_login_def abind_eq_Inr)
  from rest assms(2) obtain e rt oa where e: "x = Some e" "mg_realms m (se_realm e) = Some rt"
    and ex: "on_snd (exchange_authorization_code lib (mc_token rt) (cb_code inp) (se_code_verifier e)) w1 = (Inr oa, w')"
    and r: "r = callback_of oa (rc_realm (mc_realm rt))"
    by (auto simp: callback_error_def abind_eq_Inr split: option.splits)
  from on_fst_keeps [OF x] on_snd_keeps [OF ex] e have
    "consume (cb_state inp) (fst w) = (Inr (Some e), fst w')"
    "exchange_authorization_code lib (mc_token rt) (cb_code inp) (se_code_verifier e) (snd w) = (Inr oa, snd w')"
    by simp_all
  with that e(2) r ne show thesis by blast
qed

text \<open>
  The session binding. A state that a start issued for a realm, completed later with any operations
  of other clients in between: the code is exchanged at that realm, with the verifier whose
  challenge the authorization URL carried.
\<close>

lemma manager_binding:
  assumes store: "state_store create consume stored issues env_noise"
    and names: "\<And>rt. mg_realms m realm = Some rt \<Longrightarrow> rc_realm (mc_realm rt) = realm"
    and start: "manager_start_login plib create m realm ttl w = (Inr a, w1)" and rand: "rand_fills (snd w)"
    and between: "store_steps create consume env_noise w1 obs (fst w2)"
    and unique: "\<And>r. Created r \<in> set obs \<Longrightarrow> \<not> issues (as_state a) r"
    and complete: "manager_complete_login lib consume m inp w2 = (Inr r, w3)" "cr_ok r"
    and same: "cb_state inp = as_state a"
  shows "\<exists>rt pkce oa. mg_realms m realm = Some rt \<and>
    a = create_authorization_url (mc_realm rt) (as_state a) pkce \<and>
    fst (generate_pkce_pair plib (rc_pkce_verifier_len (mc_realm rt)) (snd w)) = Inr pkce \<and>
    exchange_authorization_code lib (mc_token rt) (cb_code inp) (code_verifier pkce) (snd w2) = (Inr oa, snd w3) \<and>
    r = callback_of oa realm"
proof -
  from start obtain rt pkce w0 where rt: "mg_realms m realm = Some rt"
    and pkce: "generate_pkce_pair plib (rc_pkce_verifier_len (mc_realm rt)) (snd w) = (Inr pkce, snd w0)"
    and cr: "create \<lparr>se_code_verifier = code_verifier pkce, se_realm = rc_realm (mc_realm rt)\<rparr> ttl w0 =
      (Inr (as_state a), w1)"
    and a: "a = create_authorization_url (mc_realm rt) (as_state a) pkce"
    by (rule manager_start_login_Inr) blast
  from names [OF rt] have realm: "rc_realm (mc_realm rt) = realm" .
  have "length (code_verifier pkce) \<ge> 43" using generate_pkce_pair_Inr(1) [OF pkce rand] by simp
  then have "code_verifier pkce \<noteq> []" by auto
  with state_store.create_stores [OF store _ cr] realm
  have st: "stored w1 (as_state a) = Some \<lparr>se_code_verifier = code_verifier pkce, se_realm = realm\<rparr>"
    by simp
  from complete obtain e rt' oa where con: "consume (cb_state inp) (fst w2) = (Inr (Some e), fst w3)"
    and e: "mg_realms m (se_realm e) = Some rt'"
    and ex: "exchange_authorization_code lib (mc_token rt') (cb_code inp) (se_code_verifier e) (snd w2) = (Inr oa, snd w3)"
    and r: "r = callback_of oa (rc_realm (mc_realm rt'))"
    by (rule manager_complete_login_ok) blast
  have "store_steps create consume env_noise (fst w2) [Consumed (as_state a) (Inr (Some e))] (fst w3)"
    using con same by (auto intro: store_steps.intros)
  from store_steps_append [OF between this]
  have "store_steps create consume env_noise w1 (obs @ Consumed (as_state a) (Inr (Some e)) # []) (fst w3)" .
  then have "e = \<lparr>se_code_verifier = code_verifier pkce, se_realm = realm\<rparr>"
    by (rule state_store.consumed_entry [OF store]) (use st unique in auto)
  with e rt r ex realm pkce a show ?thesis by auto
qed

end
