(* ===== verification/Cookies.thy ===== *)
theory Cookies
  imports HttpTypes UrlEncode
begin

text \<open>
  \<open>utils/cookies.hpp\<close>: reading the \<open>Cookie\<close> header and writing \<open>Set-Cookie\<close> headers. Reading is
  shown to undo writing, for any names and values.
\<close>

record cookie_options =
  co_path :: string
  co_http_only :: bool
  co_secure :: bool
  co_same_site :: string
  co_max_age_seconds :: "int option"

record token_cookie_config =
  tc_access_token_name :: string
  tc_refresh_token_name :: string
  tc_path :: string
  tc_secure :: bool
  tc_same_site :: string

section \<open>Reading\<close>

text \<open>The two loops of \<open>trim_copy\<close>: the start moves up, then the end moves down.\<close>

definition trim_copy :: "string \<Rightarrow> string" where
  "trim_copy val = rev (dropWhile isspace (rev (dropWhile isspace val)))"

type_synonym params = "string \<Rightarrow> string option"

definition cookie_part :: "string \<Rightarrow> params \<Rightarrow> params" where
  "cookie_part part cookies =
     (let eq = find_ch CHR ''='' part 0;
          name = trim_copy (substr part 0 (value_at eq (length part)));
          val = (case eq of None \<Rightarrow> [] | Some p \<Rightarrow> trim_copy (drop (Suc p) part))
      in if name \<noteq> [] then cookies(url_decode name \<mapsto> url_decode val) else cookies)"

definition parse_cookie_header :: "string \<Rightarrow> params" where
  "parse_cookie_header raw = part_loop CHR '';'' False cookie_part raw 0 Map.empty"

definition get_cookie :: "('h, 'm) http_lib_scheme \<Rightarrow> request \<Rightarrow> string \<Rightarrow> string option" where
  "get_cookie lib req name =
     (case header_value lib (req_headers req) ''Cookie'' of
        None \<Rightarrow> None
      | Some raw \<Rightarrow> parse_cookie_header raw name)"

section \<open>Writing\<close>

definition make_set_cookie :: "string \<Rightarrow> string \<Rightarrow> cookie_options \<Rightarrow> string" where
  "make_set_cookie name val options =
     url_encode name @ ''='' @ url_encode val @ ''; Path='' @ co_path options @
     (case co_max_age_seconds options of
        None \<Rightarrow> [] | Some n \<Rightarrow> ''; Max-Age='' @ to_string_int n) @
     (if co_http_only options then ''; HttpOnly'' else []) @
     (if co_secure options then ''; Secure'' else []) @
     (if co_same_site options \<noteq> [] then ''; SameSite='' @ co_same_site options else [])"

definition make_expired_cookie :: "string \<Rightarrow> cookie_options \<Rightarrow> string" where
  "make_expired_cookie name options = make_set_cookie name [] (options\<lparr>co_max_age_seconds := Some 0\<rparr>)"

definition token_cookie_options_age :: "token_cookie_config \<Rightarrow> int \<Rightarrow> cookie_options" where
  "token_cookie_options_age config max_age_seconds =
     \<lparr>co_path = tc_path config, co_http_only = True, co_secure = tc_secure config,
      co_same_site = tc_same_site config,
      co_max_age_seconds = (if max_age_seconds > 0 then Some max_age_seconds else None)\<rparr>"

definition token_cookie_options :: "token_cookie_config \<Rightarrow> cookie_options" where
  "token_cookie_options config =
     \<lparr>co_path = tc_path config, co_http_only = True, co_secure = tc_secure config,
      co_same_site = tc_same_site config, co_max_age_seconds = None\<rparr>"

section \<open>Reading undoes writing\<close>

lemma dropWhile_none: "\<forall>c \<in> set s. \<not> P c \<Longrightarrow> dropWhile P s = s"
  by (cases s) auto

lemma trim_copy_id: "\<forall>c \<in> set s. \<not> isspace c \<Longrightarrow> trim_copy s = s"
  by (simp add: trim_copy_def dropWhile_none)

lemma trim_copy_space [simp]: "trim_copy (CHR '' '' # s) = trim_copy s"
  by (simp add: trim_copy_def isspace_def)

lemma trim_copy_encoded [simp]: "trim_copy (url_encode s) = url_encode s"
  by (rule trim_copy_id) (simp add: url_encode_no_space)

text \<open>A part \<open>name=value\<close>, with or without the space that user agents put behind a \<open>;\<close>.\<close>

definition cookie_pair :: "string \<times> string \<Rightarrow> string" where
  "cookie_pair kv = url_encode (fst kv) @ CHR ''='' # url_encode (snd kv)"

lemma cookie_pair_plain [simp]: "CHR '';'' \<notin> set (cookie_pair kv)"
  by (simp add: cookie_pair_def)

lemma cookie_part_pair:
  assumes "fst kv \<noteq> []" and "pad = [] \<or> pad = '' ''"
  shows "do_part cookie_part (pad @ cookie_pair kv) cookies = cookies(fst kv \<mapsto> snd kv)"
proof -
  let ?part = "(pad @ url_encode (fst kv)) @ CHR ''='' # url_encode (snd kv)"
  have "find_ch CHR ''='' ?part 0 = Some (length (pad @ url_encode (fst kv)))"
    using find_ch_found [of ?part 0 "pad @ url_encode (fst kv)" "CHR ''=''" "url_encode (snd kv)"] assms(2)
    by auto
  moreover have "trim_copy (pad @ url_encode (fst kv)) = url_encode (fst kv)" using assms(2) by auto
  ultimately show ?thesis using assms(1)
    by (simp add: do_part_def cookie_part_def cookie_pair_def Let_def substr_def)
qed

text \<open>What a user agent sends for a list of cookies.\<close>

definition cookie_header :: "(string \<times> string) list \<Rightarrow> string" where
  "cookie_header kvs = (case kvs of
     [] \<Rightarrow> [] | kv # r \<Rightarrow> cookie_pair kv @ concat (map (\<lambda>kv. ''; '' @ cookie_pair kv) r))"

lemma fold_cookie_pairs:
  "\<forall>kv \<in> set kvs. fst kv \<noteq> [] \<Longrightarrow>
    fold (do_part cookie_part) (map (\<lambda>kv. CHR '' '' # cookie_pair kv) kvs) m =
    fold (\<lambda>kv m. m(fst kv \<mapsto> snd kv)) kvs m"
  using cookie_part_pair [where pad = "'' ''"] by (induction kvs arbitrary: m) simp_all

lemma parse_cookie_pairs:
  assumes "\<forall>kv \<in> set kvs. fst kv \<noteq> []"
  shows "parse_cookie_header (cookie_header kvs) = map_of (rev kvs)"
proof (cases kvs)
  case Nil
  then show ?thesis by (simp add: parse_cookie_header_def cookie_header_def part_loop.simps)
next
  case (Cons kv r)
  have "parse_cookie_header (cookie_header kvs) =
      fold (do_part cookie_part) (cookie_pair kv # map (\<lambda>kv. CHR '' '' # cookie_pair kv) r) Map.empty"
    unfolding parse_cookie_header_def
    by (rule part_loop_parts) (auto simp: cookie_header_def Cons comp_def)
  also have "\<dots> = fold (\<lambda>kv m. m(fst kv \<mapsto> snd kv)) (kv # r) Map.empty"
    using assms Cons cookie_part_pair [of kv "[]"] by (simp add: fold_cookie_pairs)
  finally show ?thesis unfolding fold_updates Cons by simp
qed

text \<open>The pair of a \<open>Set-Cookie\<close> value is what stands before its first \<open>;\<close>.\<close>

lemma set_cookie_pair:
  "takeWhile (\<lambda>c. c \<noteq> CHR '';'') (make_set_cookie name val options) = cookie_pair (name, val)"
proof -
  obtain attrs where "make_set_cookie name val options = cookie_pair (name, val) @ CHR '';'' # attrs"
    by (simp add: make_set_cookie_def cookie_pair_def)
  moreover have "takeWhile (\<lambda>c. c \<noteq> CHR '';'') (cookie_pair (name, val) @ CHR '';'' # attrs) = cookie_pair (name, val)"
    using cookie_pair_plain [of "(name, val)"] by (subst takeWhile_append2) auto
  ultimately show ?thesis by simp
qed

text \<open>The text of a cookie that the user agent shall drop: no value, and no time to live.\<close>

lemma expired_cookie_text:
  "make_expired_cookie name (token_cookie_options cc) =
     url_encode name @ ''=; Path='' @ tc_path cc @ ''; Max-Age=0; HttpOnly'' @
     (if tc_secure cc then ''; Secure'' else []) @
     (if tc_same_site cc \<noteq> [] then ''; SameSite='' @ tc_same_site cc else [])"
proof -
  have "to_string_int 0 = ''0''" by code_simp
  then show ?thesis by (simp add: make_expired_cookie_def make_set_cookie_def token_cookie_options_def)
qed

end
