(* ===== verification/AuthHandler.thy ===== *)
theory AuthHandler
  imports LoginFlow Cookies JsonText
begin

text \<open>
  \<open>handlers/AuthHandler.h\<close>: the HTTP endpoints login, callback and logout. The response object
  belongs to \<open>unet\<close>; a handler is modelled by the sequence of calls it makes on it (a
  \<open>resp_op\<close> list), next to the world of the client and the token service it is a template over.
\<close>

section \<open>Form data and JSON text\<close>

definition decode_form_component :: "string \<Rightarrow> string" where
  "decode_form_component val = url_decode (map (\<lambda>ch. if ch = CHR ''+'' then CHR '' '' else ch) val)"

definition form_part :: "string \<Rightarrow> params \<Rightarrow> params" where
  "form_part part params =
     (let eq = find_ch CHR ''='' part 0;
          key = substr part 0 (value_at eq (length part));
          val = (case eq of None \<Rightarrow> [] | Some p \<Rightarrow> drop (Suc p) part)
      in params(decode_form_component key \<mapsto> decode_form_component val))"

definition parse_form_encoded :: "string \<Rightarrow> params" where
  "parse_form_encoded raw = part_loop CHR ''&'' True form_part raw 0 Map.empty"

definition json_escape_char :: "char \<Rightarrow> string" where
  "json_escape_char ch =
     (if ch = BSL then [BSL, BSL]
      else if ch = DQ then [BSL, DQ]
      else if ch = char_of (8 :: nat) then BSL # ''b''
      else if ch = char_of (12 :: nat) then BSL # ''f''
      else if ch = char_of (10 :: nat) then BSL # ''n''
      else if ch = char_of (13 :: nat) then BSL # ''r''
      else if ch = char_of (9 :: nat) then BSL # ''t''
      else [ch])"

fun json_escape :: "string \<Rightarrow> string" where
  "json_escape [] = []"
| "json_escape (ch # cs) = json_escape_char ch @ json_escape cs"

text \<open>\<open>{"ok":false,"error":"..."}\<close>\<close>

definition error_body :: "string \<Rightarrow> string" where
  "error_body text_of_error =
     ''{'' @ quoted ''ok'' @ '':false,'' @ quoted ''error'' @ '':'' @ string_text text_of_error @ ''}''"

section \<open>The response and the injected services\<close>

datatype resp_op = Set_status "16 word" | Add_header string string | Set_body string

type_synonym ('w, 'a) handler = "('w \<times> resp_op list, 'a) act"

definition emit :: "resp_op list \<Rightarrow> ('w, unit) handler" where
  "emit ops = (\<lambda>(w, tr). (Inr (), (w, tr @ ops)))"

record 'w auth_tokens =
  at_has_realm :: "string \<Rightarrow> bool"
  at_revoke_token :: "string \<Rightarrow> string \<Rightarrow> string \<Rightarrow> ('w, oauth_result) act"

record handler_config =
  hc_token_cookies :: token_cookie_config
  hc_post_login_redirect :: string
  hc_post_logout_redirect :: string
  hc_revoke_refresh_token_on_logout :: bool

definition no_store :: "resp_op list" where
  "no_store = [Add_header ''Cache-Control'' ''no-store'', Add_header ''Pragma'' ''no-cache'']"

definition json_type :: resp_op where
  "json_type = Add_header ''Content-Type'' ''application/json''"

definition token_cookie_config_for_realm :: "handler_config \<Rightarrow> string \<Rightarrow> token_cookie_config" where
  "token_cookie_config_for_realm cfg realm =
     (hc_token_cookies cfg)
       \<lparr>tc_access_token_name := tc_access_token_name (hc_token_cookies cfg) @ ''_'' @ realm,
        tc_refresh_token_name := tc_refresh_token_name (hc_token_cookies cfg) @ ''_'' @ realm\<rparr>"

definition add_token_cookies :: "handler_config \<Rightarrow> string \<Rightarrow> token_set \<Rightarrow> resp_op list" where
  "add_token_cookies cfg realm tokens =
     (let cc = token_cookie_config_for_realm cfg realm in
      [Add_header ''Set-Cookie'' (make_set_cookie (tc_access_token_name cc) (access_token tokens)
         (token_cookie_options_age cc (expires_in tokens))),
       Add_header ''Set-Cookie'' (make_set_cookie (tc_refresh_token_name cc) (refresh_token tokens)
         (token_cookie_options_age cc (refresh_expires_in tokens)))])"

definition clear_token_cookies :: "handler_config \<Rightarrow> string \<Rightarrow> resp_op list" where
  "clear_token_cookies cfg realm =
     (let cc = token_cookie_config_for_realm cfg realm; options = token_cookie_options cc in
      [Add_header ''Set-Cookie'' (make_expired_cookie (tc_access_token_name cc) options),
       Add_header ''Set-Cookie'' (make_expired_cookie (tc_refresh_token_name cc) options)])"

section \<open>The handlers\<close>

definition realm_missing :: "string option \<Rightarrow> bool" where
  "realm_missing realm \<longleftrightarrow> (case realm of None \<Rightarrow> True | Some r \<Rightarrow> r = [])"

definition handle_login :: "'w auth_client \<Rightarrow> request \<Rightarrow> ('w, unit) handler" where
  "handle_login client req =
     (let realm = parse_form_encoded (uri_query (req_uri req)) ''realm'' in
      if realm_missing realm then
        emit ([Set_status 400, json_type] @ no_store @ [Set_body (error_body ''missing_realm'')])
      else if \<not> ac_has_realm client (the realm) then
        emit ([Set_status 404, json_type] @ no_store @ [Set_body (error_body ''unknown_realm'')])
      else
        abind (on_fst (ac_start_login client (the realm) 300)) (\<lambda>start.
          emit ([Set_status 302, Add_header ''Location'' (authorization_url start)] @ no_store @ [Set_body []])))"

text \<open>The parameters of a callback: the query, overridden by the body of a POST.\<close>

definition callback_params :: "request \<Rightarrow> params" where
  "callback_params req =
     (if method_token req = ''POST''
      then parse_form_encoded (uri_query (req_uri req)) ++ parse_form_encoded (req_body req)
      else parse_form_encoded (uri_query (req_uri req)))"

definition param_or_empty :: "params \<Rightarrow> string \<Rightarrow> string" where
  "param_or_empty params key = (case params key of None \<Rightarrow> [] | Some v \<Rightarrow> v)"

definition handle_callback :: "handler_config \<Rightarrow> 'w auth_client \<Rightarrow> request \<Rightarrow> ('w, unit) handler" where
  "handle_callback cfg client req =
     (let params = callback_params req in
      abind (on_fst (ac_complete_login client
               \<lparr>cb_code = param_or_empty params ''code'', cb_state = param_or_empty params ''state''\<rparr>))
        (\<lambda>r. abind (emit no_store) (\<lambda>_.
           if \<not> cr_ok r then
             emit [json_type, Set_status (of_int (cr_http_status r)),
                   Set_body (error_body (json_escape (cr_error r)))]
           else
             emit (add_token_cookies cfg (cr_realm r) (cr_tokens r) @
               [Set_status 302, Add_header ''Location'' (hc_post_login_redirect cfg), Set_body []]))))"

text \<open>The result of the revocation is discarded; an exception is not.\<close>

definition logout_revoke ::
  "('h, 'm) http_lib_scheme \<Rightarrow> handler_config \<Rightarrow> 'w auth_tokens \<Rightarrow> request \<Rightarrow> string \<Rightarrow> ('w, unit) act" where
  "logout_revoke lib cfg tokens req realm =
     (if hc_revoke_refresh_token_on_logout cfg then
        (case get_cookie lib req (tc_refresh_token_name (token_cookie_config_for_realm cfg realm)) of
           None \<Rightarrow> aret ()
         | Some refresh \<Rightarrow>
             (if refresh \<noteq> [] then
                abind (at_revoke_token tokens realm refresh ''refresh_token'') (\<lambda>_. aret ())
              else aret ()))
      else aret ())"

definition handle_logout ::
  "('h, 'm) http_lib_scheme \<Rightarrow> handler_config \<Rightarrow> 'w auth_tokens \<Rightarrow> request \<Rightarrow> ('w, unit) handler" where
  "handle_logout lib cfg tokens req =
     (let realm = parse_form_encoded (uri_query (req_uri req)) ''realm'' in
      abind (emit no_store) (\<lambda>_.
        if realm_missing realm then
          emit [json_type, Set_status 400, Set_body (error_body ''missing_realm'')]
        else if \<not> at_has_realm tokens (the realm) then
          emit [json_type, Set_status 404, Set_body (error_body ''unknown_realm'')]
        else
          abind (on_fst (logout_revoke lib cfg tokens req (the realm))) (\<lambda>_.
            emit (clear_token_cookies cfg (the realm) @
              [Set_status 302, Add_header ''Location'' (hc_post_logout_redirect cfg), Set_body []]))))"

section \<open>Forms\<close>

lemma decode_form_encoded [simp]: "decode_form_component (url_encode s) = s"
proof -
  have "map (\<lambda>ch. if ch = CHR ''+'' then CHR '' '' else ch) (url_encode s) = url_encode s"
    by (rule map_idI) (metis url_encode_no_delims(4))
  then show ?thesis by (simp add: decode_form_component_def)
qed

lemma form_part_pair: "do_part form_part (form_pair kv) params = params(fst kv \<mapsto> snd kv)"
proof -
  have "find_ch CHR ''='' (form_pair kv) 0 = Some (length (url_encode (fst kv)))"
    using find_ch_found [of "form_pair kv" 0 "url_encode (fst kv)" "CHR ''=''" "url_encode (snd kv)"]
    by (simp add: form_pair_def)
  then show ?thesis by (simp add: do_part_def form_part_def form_pair_def Let_def substr_def)
qed

lemma fold_form_pairs:
  "fold (do_part form_part) (map form_pair kvs) m = fold (\<lambda>kv m. m(fst kv \<mapsto> snd kv)) kvs m"
  by (induction kvs arbitrary: m) (simp_all add: form_part_pair)

lemma parse_build_form: "parse_form_encoded (build_form_body kvs) = map_of (rev kvs)"
proof (cases kvs)
  case Nil
  then show ?thesis by (simp add: parse_form_encoded_def part_loop.simps Let_def substr_def find_ch_none [of "[]" 0 "[]"])
next
  case (Cons kv r)
  have "parse_form_encoded (build_form_body kvs) =
      fold (do_part form_part) (form_pair kv # map form_pair r) Map.empty"
    unfolding parse_form_encoded_def
    by (rule part_loop_parts) (auto simp: build_form_body_Cons Cons comp_def form_pair_plain)
  also have "\<dots> = fold (do_part form_part) (map form_pair kvs) Map.empty" by (simp add: Cons)
  finally show ?thesis unfolding fold_form_pairs fold_updates by simp
qed

section \<open>The error body is read back by the library's own reader\<close>

lemma str_body_escape_char: "str_body (json_escape_char c @ s) \<longleftrightarrow> str_body s"
  by (simp add: json_escape_char_def)

lemma str_body_json_escape: "str_body (json_escape s)"
  by (induction s) (simp_all add: str_body_escape_char)

lemma unescape_escape_char: "unescape_loop False (json_escape_char c @ s) = c # unescape_loop False s"
  by (simp add: json_escape_char_def unescape_char_def)

lemma unescape_json_escape [simp]: "unescape_loop False (json_escape s) = s"
  by (induction s) (simp_all add: unescape_escape_char)

lemma error_body_read: "extract_json_string (error_body (json_escape err)) ''error'' = Inr (Some err)"
proof -
  have "error_body (json_escape err) =
      (''{'' @ quoted ''ok'' @ '':false,'') @ quoted ''error'' @ [] @ CHR '':'' # [] @
        string_text (json_escape err) @ ''}''"
    by (simp add: error_body_def)
  from extract_string_found [OF this _ _ _ str_body_json_escape]
  show ?thesis by (simp add: quoted_def)
qed

section \<open>Runs of the handlers\<close>

lemma emit_eq [simp]: "emit ops (w, tr) = (Inr (), (w, tr @ ops))"
  by (simp add: emit_def)

lemma abind_emit [simp]: "abind (emit ops) f (w, tr) = f () (w, tr @ ops)"
  by (simp add: abind_def)

lemma on_fst_run: "on_fst m (w, tr) = (case m w of (r, w') \<Rightarrow> (r, (w', tr)))"
  by (simp add: on_fst_def)

text \<open>The name and value pairs that a response sets as cookies.\<close>

fun cookie_pairs :: "resp_op list \<Rightarrow> string list" where
  "cookie_pairs [] = []"
| "cookie_pairs (Add_header n v # ops) =
     (if n = ''Set-Cookie'' then takeWhile (\<lambda>c. c \<noteq> CHR '';'') v # cookie_pairs ops else cookie_pairs ops)"
| "cookie_pairs (Set_status st # ops) = cookie_pairs ops"
| "cookie_pairs (Set_body b # ops) = cookie_pairs ops"

lemma cookie_pairs_append [simp]: "cookie_pairs (a @ b) = cookie_pairs a @ cookie_pairs b"
  by (induction a rule: cookie_pairs.induct) auto

lemma cookie_pairs_no_store [simp]: "cookie_pairs no_store = []"
  by (simp add: no_store_def)

lemma cookie_pairs_tokens:
  "cookie_pairs (add_token_cookies cfg realm tokens) =
     [cookie_pair (tc_access_token_name (token_cookie_config_for_realm cfg realm), access_token tokens),
      cookie_pair (tc_refresh_token_name (token_cookie_config_for_realm cfg realm), refresh_token tokens)]"
  by (simp add: add_token_cookies_def Let_def set_cookie_pair)

lemma clear_token_cookies_text:
  "clear_token_cookies cfg realm = map (\<lambda>name. Add_header ''Set-Cookie''
      (url_encode (name @ ''_'' @ realm) @ ''=; Path='' @ tc_path (hc_token_cookies cfg) @ ''; Max-Age=0; HttpOnly'' @
       (if tc_secure (hc_token_cookies cfg) then ''; Secure'' else []) @
       (if tc_same_site (hc_token_cookies cfg) \<noteq> [] then ''; SameSite='' @ tc_same_site (hc_token_cookies cfg) else [])))
     [tc_access_token_name (hc_token_cookies cfg), tc_refresh_token_name (hc_token_cookies cfg)]"
  by (simp add: clear_token_cookies_def expired_cookie_text token_cookie_config_for_realm_def Let_def)

lemma handle_callback_Inr:
  assumes "handle_callback cfg client req (w, tr) = (Inr (), (w', tr'))"
  obtains r where "ac_complete_login client \<lparr>cb_code = param_or_empty (callback_params req) ''code'',
      cb_state = param_or_empty (callback_params req) ''state''\<rparr> w = (Inr r, w')"
    and "tr' = tr @ no_store @ (if \<not> cr_ok r then
          [json_type, Set_status (of_int (cr_http_status r)), Set_body (error_body (json_escape (cr_error r)))]
        else add_token_cookies cfg (cr_realm r) (cr_tokens r) @
          [Set_status 302, Add_header ''Location'' (hc_post_login_redirect cfg), Set_body []])"
  using assms
  by (auto simp: handle_callback_def Let_def abind_eq_Inr on_fst_run split: prod.splits if_splits)

lemma logout_known_realm:
  assumes "parse_form_encoded (uri_query (req_uri req)) ''realm'' = Some realm" "realm \<noteq> []"
    and "at_has_realm tokens realm"
  shows "handle_logout lib cfg tokens req (w, tr) =
    (case logout_revoke lib cfg tokens req realm w of
       (Inl e, w') \<Rightarrow> (Inl e, (w', tr @ no_store))
     | (Inr _, w') \<Rightarrow> (Inr (), (w', tr @ no_store @ clear_token_cookies cfg realm @
         [Set_status 302, Add_header ''Location'' (hc_post_logout_redirect cfg), Set_body []])))"
  using assms
  by (auto simp: handle_logout_def Let_def realm_missing_def on_fst_run abind_def split: prod.splits sum.splits)

end
