(* ===== verification/Probe.thy ===== *)
theory Probe
  imports HttpTypes
begin

text \<open>
  \<open>probes/Probe.h\<close> (twice in the repository): liveness, readiness and startup. The shared flag
  \<open>running\<close> is read once per request. The calls on the response may throw (they belong to
  \<open>unet\<close>); then the handler leaves its \<open>try\<close> and sets the status 500, a call that may throw in
  turn.
\<close>

datatype probe_op =
    P_status int
  | P_message string
  | P_header string string
  | P_body string

text \<open>
  \<open>run_calls fails ops\<close>: the calls up to the first one that throws (\<open>fails op\<close>), and whether all
  went through.
\<close>

fun run_calls :: "(probe_op \<Rightarrow> bool) \<Rightarrow> probe_op list \<Rightarrow> probe_op list \<times> bool" where
  "run_calls fails [] = ([], True)"
| "run_calls fails (p # ops) =
     (if fails p then ([], False)
      else (case run_calls fails ops of (done_ops, all_ok) \<Rightarrow> (p # done_ops, all_ok)))"

text \<open>\<open>try { ... } catch (...) { log } setStatus(500)\<close>; a normal end returns inside the \<open>try\<close>.\<close>

definition guarded :: "(probe_op \<Rightarrow> bool) \<Rightarrow> probe_op list \<Rightarrow> probe_op list" where
  "guarded fails ops =
     (case run_calls fails ops of (done_ops, all_ok) \<Rightarrow>
        if all_ok then done_ops else done_ops @ fst (run_calls fails [P_status 500]))"

definition starting_ops :: "probe_op list" where
  "starting_ops =
     [P_status 503, P_message ''Service Starting'', P_header ''Content-Type'' ''application/json'',
      P_body (''{'' @ [DQ] @ ''status'' @ [DQ] @ '':'' @ [DQ] @ ''starting'' @ [DQ] @ ''}'')]"

definition liveness :: "(probe_op \<Rightarrow> bool) \<Rightarrow> probe_op list" where
  "liveness fails = guarded fails [P_status 204]"

definition readiness :: "(probe_op \<Rightarrow> bool) \<Rightarrow> bool \<Rightarrow> probe_op list" where
  "readiness fails running = guarded fails (if \<not> running then starting_ops else [P_status 204])"

definition startup :: "(probe_op \<Rightarrow> bool) \<Rightarrow> bool \<Rightarrow> probe_op list" where
  "startup fails running = guarded fails (if \<not> running then starting_ops else [P_status 204])"

text \<open>The status a response ends with: the last one set.\<close>

definition final_status :: "probe_op list \<Rightarrow> int option" where
  "final_status ops = fold (\<lambda>p s. case p of P_status n \<Rightarrow> Some n | _ \<Rightarrow> s) ops None"

lemma run_calls_ok: "\<forall>p \<in> set ops. \<not> fails p \<Longrightarrow> run_calls fails ops = (ops, True)"
  by (induction ops) auto

lemma run_calls_fails: "snd (run_calls fails ops) \<longleftrightarrow> \<not> (\<exists>p \<in> set ops. fails p)"
  by (induction ops) (simp_all add: case_prod_beta)

lemma final_status_guarded:
  assumes "\<not> fails (P_status 500)"
  shows "final_status (guarded fails ops) =
    (if \<exists>p \<in> set ops. fails p then Some 500 else final_status ops)"
proof (cases "\<exists>p \<in> set ops. fails p")
  case True
  with run_calls_fails [of fails ops] assms show ?thesis
    by (auto simp: guarded_def final_status_def split: prod.splits)
next
  case False
  then have "run_calls fails ops = (ops, True)" by (intro run_calls_ok) blast
  with False show ?thesis by (simp add: guarded_def)
qed

lemma final_status_starting: "final_status starting_ops = Some 503"
  by (simp add: final_status_def starting_ops_def)

lemma final_status_up: "final_status [P_status n] = Some n"
  by (simp add: final_status_def)

end
