(* ===== verification/JsonObject.thy ===== *)
theory JsonObject
  imports JsonText JwtUtils
begin

text \<open>
  What the reader finds in an object. \<open>object_text ms\<close> is the text of the object with the members
  \<open>ms\<close> (key and value text), \<open>array_text vs\<close> that of an array. The reader looks for the quoted key
  anywhere in the text; it agrees with the object as long as no value \<^emph>\<open>contains\<close> the quoted key
  (\<open>quiet\<close>), and the first member of a name wins.
\<close>

section \<open>Texts of objects and arrays\<close>

definition sep_concat :: "string list \<Rightarrow> string" where
  "sep_concat vs = (case vs of [] \<Rightarrow> [] | v # r \<Rightarrow> v @ concat (map (\<lambda>v. CHR '','' # v) r))"

lemma sep_concat_simps [simp]:
  "sep_concat [] = []" "sep_concat [v] = v" "sep_concat (u # v # r) = u @ CHR '','' # sep_concat (v # r)"
  by (simp_all add: sep_concat_def)

definition member_text :: "string \<times> string \<Rightarrow> string" where
  "member_text kv = string_text (fst kv) @ CHR '':'' # snd kv"

definition object_text :: "(string \<times> string) list \<Rightarrow> string" where
  "object_text ms = CHR ''{'' # sep_concat (map member_text ms) @ ''}''"

definition array_text :: "string list \<Rightarrow> string" where
  "array_text vs = CHR ''['' # sep_concat vs @ '']''"

definition value_text :: "string \<Rightarrow> bool" where
  "value_text v \<longleftrightarrow> jclosed v \<or> scalar_text v"

definition plain :: "string \<Rightarrow> bool" where
  "plain s \<longleftrightarrow> DQ \<notin> set s \<and> BSL \<notin> set s"

text \<open>The keys of the library's documents: letters, digits and underscores.\<close>

definition plain_key :: "string \<Rightarrow> bool" where
  "plain_key key \<longleftrightarrow> key \<noteq> [] \<and> (\<forall>c \<in> set key. is_alnum c \<or> c = CHR ''_'')"

definition quiet :: "string \<Rightarrow> string \<Rightarrow> bool" where
  "quiet key v \<longleftrightarrow> (\<forall>d r. delim d \<longrightarrow> key_free (quoted key) v (d # r))"

section \<open>Where a quoted key can begin\<close>

lemma key_free_append:
  "key_free pat (u @ v) rest \<longleftrightarrow> key_free pat u (v @ rest) \<and> key_free pat v rest"
  by (induction u) auto

lemma plain_keyD:
  assumes "plain_key key"
  shows "key \<noteq> []" "DQ \<notin> set key" "c \<in> set key \<Longrightarrow> \<not> delim c \<and> c \<noteq> CHR '':'' \<and> c \<noteq> CHR ''['' \<and> c \<noteq> CHR ''{''"
  using assms by (auto simp: plain_key_def delim_def char_class_defs)

lemma prefix_quoted_string:
  assumes "DQ \<notin> set key" and "DQ \<notin> set u"
  shows "prefix (quoted key) (string_text u @ z) \<longleftrightarrow> u = key"
proof
  assume "prefix (quoted key) (string_text u @ z)"
  then obtain y where "key @ DQ # y = u @ DQ # z" by (auto simp: prefix_def quoted_def string_text_def)
  then have "takeWhile (\<lambda>c. c \<noteq> DQ) (key @ DQ # y) = takeWhile (\<lambda>c. c \<noteq> DQ) (u @ DQ # z)" by simp
  moreover have "takeWhile (\<lambda>c. c \<noteq> DQ) (w @ DQ # x) = w" if "DQ \<notin> set w" for w x
    using that by (subst takeWhile_append2) auto
  ultimately show "u = key" using assms by metis
qed (simp add: quoted_def string_text_def)

lemma key_free_no_dq: "DQ \<notin> set u \<Longrightarrow> key_free (quoted key) u rest"
  by (induction u) (auto simp: quoted_def)

text \<open>
  A string that is not the key, followed by a character no key begins with, hides no key.
\<close>

lemma key_free_string:
  assumes "plain_key key" and "DQ \<notin> set u" and "u \<noteq> key" and "c \<notin> set key"
  shows "key_free (quoted key) (string_text u) (c # rest)"
proof -
  note k = plain_keyD [OF assms(1)]
  have "\<not> prefix (quoted key) (string_text u @ c # rest)"
    using prefix_quoted_string k(2) assms(2,3) by metis
  moreover have "\<not> prefix (quoted key) (DQ # c # rest)"
    using k(1) assms(4) by (cases key) (auto simp: quoted_def)
  ultimately show ?thesis
    using key_free_no_dq [OF assms(2), of key "DQ # c # rest"]
    by (simp add: string_text_def key_free_append)
qed

lemma delim_not_key: "plain_key key \<Longrightarrow> delim d \<Longrightarrow> d \<notin> set key"
  using plain_keyD(3) by blast

lemma quiet_string: "plain_key key \<Longrightarrow> DQ \<notin> set u \<Longrightarrow> u \<noteq> key \<Longrightarrow> quiet key (string_text u)"
  unfolding quiet_def by (auto intro: key_free_string dest: delim_not_key)

lemma quiet_no_dq: "DQ \<notin> set v \<Longrightarrow> quiet key v"
  by (simp add: quiet_def key_free_no_dq)

lemma key_free_sep:
  assumes "\<forall>v \<in> set vs. quiet key v" and "delim d"
  shows "key_free (quoted key) (sep_concat vs) (d # rest)"
  using assms
proof (induction vs rule: induct_list012)
  case (3 u v r)
  have "key_free (quoted key) u (CHR '','' # sep_concat (v # r) @ d # rest)"
    using 3(3) by (simp add: quiet_def)
  with 3 show ?case by (simp add: key_free_append) (simp add: quoted_def)
qed (auto simp: quiet_def)

lemma quiet_array: "\<forall>v \<in> set vs. quiet key v \<Longrightarrow> quiet key (array_text vs)"
  unfolding quiet_def [of _ "array_text vs"]
  by (auto simp: array_text_def key_free_append key_free_sep) (simp_all add: quoted_def)

lemma quiet_member:
  assumes "plain_key key" and "DQ \<notin> set k" and "k \<noteq> key" and "quiet key v"
  shows "quiet key (member_text (k, v))"
proof -
  have "CHR '':'' \<notin> set key" using plain_keyD(3) [OF assms(1)] by blast
  then have "key_free (quoted key) (string_text k) (CHR '':'' # z)" for z
    using key_free_string [OF assms(1-3)] by blast
  with assms(4) show ?thesis
    by (auto simp: quiet_def member_text_def key_free_append) (simp add: quoted_def)
qed

lemma quiet_object:
  assumes "plain_key key" and "\<forall>(k, v) \<in> set ms. DQ \<notin> set k \<and> k \<noteq> key \<and> quiet key v"
  shows "quiet key (object_text ms)"
proof -
  have "\<forall>v \<in> set (map member_text ms). quiet key v"
    using assms quiet_member by fastforce
  then show ?thesis
    unfolding quiet_def [of _ "object_text ms"]
    by (auto simp: object_text_def key_free_append key_free_sep) (simp_all add: quoted_def)
qed

section \<open>The texts belong to the grammar\<close>

lemma value_item: "value_text v \<Longrightarrow> jitem v"
  using item_closed [of v "[]"] by (auto simp: value_text_def intro: item_scalar)

lemma plain_str_body: "plain s \<Longrightarrow> str_body s"
  by (simp add: plain_def str_body_plain)

lemma value_string [simp]: "plain s \<Longrightarrow> value_text (string_text s)"
  by (simp add: value_text_def closed_string plain_str_body)

lemma elems_sep: "vs \<noteq> [] \<Longrightarrow> \<forall>v \<in> set vs. value_text v \<Longrightarrow> jelems (sep_concat vs)"
proof (induction vs rule: induct_list012)
  case (2 v)
  then show ?case using elems_one [of "[]" v] by (simp add: value_item)
next
  case (3 u v r)
  then show ?case using elems_more [of "[]" u "sep_concat (v # r)"] by (simp add: value_item)
qed simp

lemma array_closed: "\<forall>v \<in> set vs. value_text v \<Longrightarrow> jclosed (array_text vs)"
  using closed_array_empty [of "[]"] closed_array [OF elems_sep, of vs]
  by (cases "vs = []") (auto simp: array_text_def)

lemma members_sep:
  "ms \<noteq> [] \<Longrightarrow> \<forall>(k, v) \<in> set ms. plain k \<and> value_text v \<Longrightarrow> jmembers (sep_concat (map member_text ms))"
proof (induction ms rule: induct_list012)
  case (2 kv)
  then show ?case using members_one [of "[]" "fst kv" "[]" "[]" "snd kv"]
    by (cases kv) (simp add: member_text_def value_item plain_str_body)
next
  case (3 kv kv' r)
  obtain k v where kv: "kv = (k, v)" by fastforce
  have "jmembers ([] @ string_text k @ [] @ CHR '':'' # [] @ v @ CHR '','' # sep_concat (map member_text (kv' # r)))"
    by (rule members_more) (use 3 kv value_item plain_str_body in auto)
  then show ?case by (simp add: kv member_text_def [of "(k, v)"])
qed simp

lemma object_closed: "\<forall>(k, v) \<in> set ms. plain k \<and> value_text v \<Longrightarrow> jclosed (object_text ms)"
  using closed_object_empty [of "[]"] closed_object [OF members_sep, of ms]
  by (cases "ms = []") (auto simp: object_text_def)

lemma value_object [simp]: "\<forall>(k, v) \<in> set ms. plain k \<and> value_text v \<Longrightarrow> value_text (object_text ms)"
  by (simp add: value_text_def object_closed)

lemma value_array [simp]: "\<forall>v \<in> set vs. value_text v \<Longrightarrow> value_text (array_text vs)"
  by (simp add: value_text_def array_closed)

text \<open>A value in front of a delimiter is skipped exactly.\<close>

lemma value_text_head: "value_text v \<Longrightarrow> v \<noteq> [] \<and> \<not> isspace (hd v)"
  by (auto simp: value_text_def scalar_text_def dest: jclosed_head)

lemma skip_value_at:
  "at tx pos (v @ s) \<Longrightarrow> value_text v \<Longrightarrow> ends_item s \<Longrightarrow> skip_json_value tx pos = Inr (pos + length v)"
  using jskip_closed [of v tx pos s] jskip_value_scalar [of tx pos v s]
  by (auto simp: skip_json_value_def value_text_def)

section \<open>The reader on an object\<close>

text \<open>Members that the search for a key passes over.\<close>

definition passed :: "string \<Rightarrow> (string \<times> string) list \<Rightarrow> bool" where
  "passed key ms \<longleftrightarrow> (\<forall>(k, v) \<in> set ms. DQ \<notin> set k \<and> quiet key v)"

lemma passed_simps [simp]:
  "passed key []" "passed key ((k, v) # ms) \<longleftrightarrow> DQ \<notin> set k \<and> quiet key v \<and> passed key ms"
  by (auto simp: passed_def)

lemma object_text_split:
  "object_text (ms @ (k, v) # ms') =
     (CHR ''{'' # concat (map (\<lambda>m. member_text m @ '','') ms)) @ quoted k @ [] @ CHR '':'' # [] @ v @
       (concat (map (\<lambda>m. CHR '','' # member_text m) ms') @ ''}'')"
proof -
  have "sep_concat (map member_text (ms @ (k, v) # ms')) =
      concat (map (\<lambda>m. member_text m @ '','') ms) @ member_text (k, v) @
      concat (map (\<lambda>m. CHR '','' # member_text m) ms')"
  proof (induction ms)
    case Nil
    then show ?case by (simp add: sep_concat_def comp_def)
  next
    case (Cons m ms)
    then show ?case by (cases "map member_text (ms @ (k, v) # ms')") auto
  qed
  then show ?thesis by (simp add: object_text_def member_text_def quoted_def string_text_def)
qed

lemma key_free_members:
  assumes "plain_key key" and "passed key ms" and "key \<notin> fst ` set ms"
  shows "key_free (quoted key) (CHR ''{'' # concat (map (\<lambda>m. member_text m @ '','') ms)) rest"
proof -
  have "key_free (quoted key) (concat (map (\<lambda>m. member_text m @ '','') ms)) rest"
    using assms(2,3)
  proof (induction ms)
    case (Cons m ms)
    obtain k v where m: "m = (k, v)" by fastforce
    with Cons.prems have "quiet key (member_text m)" using quiet_member [OF assms(1)] by auto
    then have "key_free (quoted key) (member_text m) (CHR '','' # z)" for z by (simp add: quiet_def)
    with Cons m show ?case by (auto simp: key_free_append) (simp add: quoted_def)
  qed simp
  then show ?thesis by (simp add: quoted_def)
qed

lemma map_of_split: "map_of ms key = Some v \<Longrightarrow> \<exists>ms1 ms2. ms = ms1 @ (key, v) # ms2 \<and> key \<notin> fst ` set ms1"
proof (induction ms)
  case (Cons m ms)
  obtain k u where m: "m = (k, u)" by fastforce
  show ?case
  proof (cases "k = key")
    case True
    with Cons.prems m have "m # ms = [] @ (key, v) # ms \<and> key \<notin> fst ` set []" by simp
    then show ?thesis by blast
  next
    case False
    with Cons m obtain ms1 ms2 where "ms = ms1 @ (key, v) # ms2" "key \<notin> fst ` set ms1" by auto
    with m False have "m # ms = (m # ms1) @ (key, v) # ms2 \<and> key \<notin> fst ` set (m # ms1)" by simp
    then show ?thesis by blast
  qed
qed simp

text \<open>Extraction by key is lookup in the list of members.\<close>

lemma extract_object:
  assumes key: "plain_key key" and quiet: "passed key ms" and texts: "\<forall>(k, v) \<in> set ms. value_text v"
  shows "extract_json_value (object_text ms) key = Inr (map_of ms key)"
proof (cases "map_of ms key")
  case None
  then have nokey: "key \<notin> fst ` set ms" by (simp add: map_of_eq_None_iff)
  have "quiet key (object_text ms)"
    using quiet nokey by (intro quiet_object [OF key]) (force simp: passed_def)
  then have "key_free (quoted key) (object_text ms) (CHR '','' # [])"
    by (simp add: quiet_def)
  moreover have "key_free pat u [] " if "key_free pat u [c]" "c \<notin> set pat" for pat u c
    using that
  proof (induction u)
    case (Cons d u)
    have "prefix pat (d # u) \<Longrightarrow> prefix pat (d # u @ [c])" by (metis append_Cons prefix_prefix)
    with Cons show ?case by auto
  qed simp
  ultimately have "key_free (quoted key) (object_text ms) []"
    using delim_not_key [OF key, of "CHR '',''"] by (auto simp: quoted_def)
  with extract_absent None show ?thesis by simp
next
  case (Some v)
  then obtain ms1 ms2 where ms: "ms = ms1 @ (key, v) # ms2" and first: "key \<notin> fst ` set ms1"
    using map_of_split by metis
  have q: "passed key ms1" using quiet ms by (auto simp: passed_def)
  have v: "value_text v" using texts ms by auto
  have post: "ends_item (concat (map (\<lambda>m. CHR '','' # member_text m) ms2) @ ''}'')"
    by (cases ms2) (auto simp: ends_item_def)
  have "extract_json_value (object_text ms) key = Inr (Some v)"
    by (rule extract_found [OF object_text_split [of ms1 key v ms2, folded ms]])
      (use key_free_members [OF key q first] v post in \<open>auto simp: value_text_def\<close>)
  with Some show ?thesis by simp
qed

text \<open>The typed readers, on members of the matching shape.\<close>

definition readable :: "string \<Rightarrow> (string \<times> string) list \<Rightarrow> bool" where
  "readable key ms \<longleftrightarrow> plain_key key \<and> (\<forall>(k, v) \<in> set ms. DQ \<notin> set k \<and> quiet key v \<and> value_text v)"

lemma readable_extract: "readable key ms \<Longrightarrow> extract_json_value (object_text ms) key = Inr (map_of ms key)"
  by (rule extract_object) (auto simp: readable_def passed_def)

lemma extract_object_string:
  "readable key ms \<Longrightarrow> extract_json_string (object_text ms) key = Inr (Option.bind (map_of ms key) parse_json_string)"
  by (simp add: extract_json_string_def readable_extract split: option.splits)

lemma extract_object_int64:
  "readable key ms \<Longrightarrow> extract_json_int64 (object_text ms) key =
    Inr (Option.bind (map_of ms key) (\<lambda>r. catch_all (stoll r)))"
  by (simp add: extract_json_int64_def readable_extract split: option.splits)

lemma parse_plain_string [simp]: "plain s \<Longrightarrow> parse_json_string (string_text s) = Some s"
  by (simp add: plain_def unescape_plain)

section \<open>Arrays\<close>

lemma array_at:
  assumes "at tx pos (sep_concat (v # vs) @ '']'')"
  shows "at tx pos (v @ (if vs = [] then '']'' else CHR '','' # sep_concat vs @ '']''))"
  using assms by (cases vs) auto

text \<open>The loop of \<open>split_json_array_elements\<close> yields the element texts.\<close>

lemma split_array_loop_elems:
  assumes "at tx pos (sep_concat vs @ '']'')" and "\<forall>v \<in> set vs. value_text v"
  shows "split_array_loop tx pos out = Inr (out @ vs)"
  using assms
proof (induction vs arbitrary: pos out)
  case Nil
  then have "length tx = pos + 1" by (auto dest: at_length)
  then show ?case by (simp add: split_array_loop.simps [of tx pos out])
next
  case (Cons v vs)
  let ?rest = "if vs = [] then '']'' else CHR '','' # sep_concat vs @ '']''"
  have a: "at tx pos (v @ ?rest)" using array_at [OF Cons.prems(1)] .
  have v: "v \<noteq> []" "\<not> isspace (hd v)" "\<not> delim (hd v)"
    using Cons.prems(2) by (auto simp: value_text_def scalar_text_def dest: jclosed_head)
  then obtain c v' where vc: "v = c # v'" by (cases v) auto
  have ends: "ends_item ?rest" by simp
  have len: "length tx = pos + length v + length ?rest" using at_length [OF a] by simp
  have rest1: "length ?rest \<ge> 1" by simp
  have here: "tx ! pos = c" using a vc at_nth by fastforce
  have ws: "skip_ws tx pos = pos" using skip_ws_here a vc v by simp
  have "jskip JValue tx pos = Some (pos + length v)"
    using Cons.prems(2) jskip_closed [OF _ a] jskip_value_scalar [OF a] ends by (auto simp: value_text_def)
  then have skip: "skip_json_value tx pos = Inr (pos + length v)" by (simp add: skip_json_value_def)
  have sub: "substr tx pos (length v) = v" by (rule substr_at [OF a])
  have b: "at tx (pos + length v) ?rest" by (rule at_append [OF a])
  then have ws2: "skip_ws tx (pos + length v) = pos + length v"
    by (cases "vs = []") (auto intro: skip_ws_here)
  let ?next = "if tx ! (pos + length v) = CHR '','' then Suc (pos + length v) else pos + length v"
  have step: "split_array_loop tx pos out = split_array_loop tx ?next (out @ [v])"
  proof -
    have "tx ! pos \<noteq> CHR '']''" using here v(3) vc by auto
    moreover have "0 < length v" "pos + length v < length tx" using v(1) len rest1 by simp_all
    then have "Suc pos < length tx" "\<not> length tx - Suc 0 \<le> pos" "pos + length v < length tx" by linarith+
    ultimately show ?thesis
      by (subst split_array_loop.simps) (simp add: ws skip ws2 sub v(1) Let_def)
  qed
  show ?case
  proof (cases "vs = []")
    case True
    with b have "tx ! (pos + length v) = CHR '']''" by (auto dest: at_nth)
    then have "?next = pos + length v" by simp
    moreover have "split_array_loop tx (pos + length v) (out @ [v]) = Inr (out @ [v])"
      using len True by (simp add: split_array_loop.simps [of tx "pos + length v"])
    ultimately show ?thesis using step True by simp
  next
    case False
    with b have "at tx (pos + length v) (CHR '','' # sep_concat vs @ '']'')" by simp
    from at_nth [OF this] at_Cons [OF this] step Cons.IH [of "Suc (pos + length v)" "out @ [v]"] Cons.prems(2)
    show ?thesis by simp
  qed
qed

lemma split_array_text:
  assumes "\<forall>v \<in> set vs. value_text v"
  shows "split_json_array_elements (array_text vs) = Inr vs"
proof -
  have "at (array_text vs) 1 (sep_concat vs @ '']'')"
    using at_Cons [of "array_text vs" 0 "CHR ''[''"] by (simp add: array_text_def)
  from split_array_loop_elems [OF this assms] show ?thesis
    by (simp add: split_json_array_elements_def array_text_def)
qed

lemma extract_object_strings:
  assumes "readable key ms" and "map_of ms key = Some (array_text (map string_text ss))"
    and "\<forall>s \<in> set ss. plain s"
  shows "extract_json_string_array (object_text ms) key = Inr ss"
proof -
  have "split_json_array_elements (array_text (map string_text ss)) = Inr (map string_text ss)"
    by (rule split_array_text) (use assms(3) in auto)
  moreover have "List.map_filter parse_json_string (map string_text ss) = ss"
    using assms(3) by (induction ss) (auto simp: List.map_filter_simps plain_def unescape_plain)
  moreover have "hd (array_text (map string_text ss)) = CHR ''[''" "array_text (map string_text ss) \<noteq> []"
    by (simp_all add: array_text_def)
  ultimately show ?thesis using assms(1,2)
    by (simp add: extract_json_string_array_def extract_json_array_def readable_extract)
qed

end
