(* ===== verification/JwtText.thy ===== *)
theory JwtText
  imports JsonObject Pkce TokenValidator
begin

text \<open>
  Tokens as texts: the compact form of a header, a payload and a signature, and what the decoder
  of \<open>jwt_utils.hpp\<close> and the validator make of it. Because anyone can write a header, the
  divergence of the JSON reader is reachable before any signature is checked.
\<close>

section \<open>The compact form\<close>

definition compact_jwt :: "string \<Rightarrow> string \<Rightarrow> string \<Rightarrow> string" where
  "compact_jwt hdr payload sg = b64url hdr @ CHR ''.'' # b64url payload @ CHR ''.'' # b64url sg"

lemma b64url_no_dot [simp]: "CHR ''.'' \<notin> set (b64url s)"
proof
  assume "CHR ''.'' \<in> set (b64url s)"
  then have "decode_base64url_char CHR ''.'' \<noteq> None" using b64url_chars by blast
  then show False by (simp add: decode_base64url_char_def char_class_defs)
qed

lemma decode_compact:
  "decode_jwt (compact_jwt hdr payload sg) = Some
    \<lparr>signing_input = b64url hdr @ CHR ''.'' # b64url payload, header_json = hdr,
     payload_json = payload, signature = sg\<rparr>"
proof -
  let ?t = "compact_jwt hdr payload sg"
  have at0: "at ?t 0 (b64url hdr @ CHR ''.'' # (b64url payload @ CHR ''.'' # b64url sg))"
    by (simp add: compact_jwt_def)
  have d1: "find_ch CHR ''.'' ?t 0 = Some (length (b64url hdr))"
    using find_ch_found [OF at0] by simp
  have at1: "at ?t (Suc (length (b64url hdr))) (b64url payload @ CHR ''.'' # b64url sg)"
    using at_Cons [OF at_append [OF at0]] by simp
  have d2: "find_ch CHR ''.'' ?t (Suc (length (b64url hdr))) =
      Some (Suc (length (b64url hdr)) + length (b64url payload))"
    by (rule find_ch_found [OF at1]) simp
  have h: "substr ?t 0 (length (b64url hdr)) = b64url hdr" by (rule substr_at [OF at0])
  have p: "substr ?t (Suc (length (b64url hdr))) (length (b64url payload)) = b64url payload"
    by (rule substr_at [OF at1])
  have s: "drop (Suc (Suc (length (b64url hdr) + length (b64url payload)))) ?t = b64url sg"
    by (simp add: compact_jwt_def)
  have i: "substr ?t 0 (Suc (length (b64url hdr) + length (b64url payload))) =
      b64url hdr @ CHR ''.'' # b64url payload"
    by (simp add: compact_jwt_def substr_def)
  show ?thesis by (simp add: decode_jwt_def d1 d2 h p s i)
qed

lemma compact_not_empty [simp]: "compact_jwt hdr payload sg \<noteq> []"
  by (simp add: compact_jwt_def)

section \<open>A header that is never read to its end\<close>

text \<open>\<open>{"alg":{]\<close> followed by anything.\<close>

definition stuck_object :: "string \<Rightarrow> string \<Rightarrow> string" where
  "stuck_object key tail = ''{'' @ quoted key @ '':'' @ ''{]'' @ tail"

lemma extract_stuck:
  assumes "plain_key key"
  shows "extract_json_value (stuck_object key tail) key = Inl Diverges"
proof -
  let ?j = "stuck_object key tail" and ?vb = "length ''{'' + length (quoted key) + length ([] :: string) + 1 + length ([] :: string)"
  have j: "?j = ''{'' @ quoted key @ [] @ CHR '':'' # [] @ (''{]'' @ tail)" by (simp add: stuck_object_def)
  have free: "key_free (quoted key) ''{'' (quoted key @ [] @ CHR '':'' # [] @ (''{]'' @ tail))"
    by (simp add: quoted_def)
  have hd: "''{]'' @ tail = [] \<or> \<not> isspace (hd (''{]'' @ tail))" by simp
  note ex = extract_first [OF j free _ _ hd]
  have a: "at ?j ?vb (CHR ''{'' # CHR '']'' # tail)" using ex(2) by simp
  have "stuck_at JObject ?j (Suc ?vb)"
    using at_step [OF at_Cons [OF a]] by (simp add: stuck_at_def)
  then have "skip_json_value ?j ?vb = Inl Diverges"
    using jskip_value_object [OF a] jskip_stuck by (simp add: skip_json_value_def)
  with ex(1) show ?thesis by simp
qed

lemma validate_stuck:
  assumes "config_ok cfg"
  shows "validate lib ssl cfg (compact_jwt (stuck_object ''alg'' tail) payload sg) w = (Inl Diverges, w)"
proof -
  have "plain_key ''alg''" by (simp add: plain_key_def char_class_defs)
  then have "json_string_or (stuck_object ''alg'' tail) ''alg'' [] = Inl Diverges"
    by (simp add: json_string_or_def extract_json_string_def extract_stuck)
  then have "validate_jwt lib ssl cfg \<lparr>signing_input = b64url (stuck_object ''alg'' tail) @ CHR ''.'' # b64url payload,
      header_json = stuck_object ''alg'' tail, payload_json = payload, signature = sg\<rparr> w = (Inl Diverges, w)"
    by (simp add: validate_jwt_def abind_alift)
  with assms show ?thesis by (auto simp: validate_def config_ok_def decode_compact)
qed

section \<open>Claims of a payload that is an object\<close>

text \<open>
  For a payload with members \<open>ms\<close> the claim condition is a condition on the members. \<open>str_claim\<close>
  and \<open>int_claim\<close> are the values of a member as a string and as an integer.
\<close>

definition str_claim :: "(string \<times> string) list \<Rightarrow> string \<Rightarrow> string option" where
  "str_claim ms key = Option.bind (map_of ms key) parse_json_string"

definition int_claim :: "(string \<times> string) list \<Rightarrow> string \<Rightarrow> int option" where
  "int_claim ms key = Option.bind (map_of ms key) (\<lambda>r. catch_all (stoll r))"

lemma readable_claims:
  assumes "readable key ms"
  shows "extract_json_string (object_text ms) key = Inr (str_claim ms key)"
    and "extract_json_int64 (object_text ms) key = Inr (int_claim ms key)"
  using assms by (simp_all add: extract_object_string extract_object_int64 str_claim_def int_claim_def)

lemma claims_ok_object:
  assumes "readable ''iss'' ms" "readable ''exp'' ms" "readable ''nbf'' ms" "readable ''azp'' ms"
    and "\<not> require_audience cfg"
  shows "claims_ok cfg now (object_text ms) \<longleftrightarrow>
     expected_issuer cfg \<noteq> [] \<and> str_claim ms ''iss'' = Some (expected_issuer cfg) \<and>
     (\<exists>e. int_claim ms ''exp'' = Some e \<and> now \<le> e + clock_skew_seconds cfg) \<and>
     (\<forall>n. int_claim ms ''nbf'' = Some n \<longrightarrow> n \<le> now + clock_skew_seconds cfg) \<and>
     (expected_azp cfg \<noteq> [] \<longrightarrow> str_claim ms ''azp'' = Some (expected_azp cfg))"
  using assms by (simp add: claims_ok_def readable_claims)

section \<open>A value that equals a claim name\<close>

text \<open>
  The reader takes the first quoted occurrence of a key for the key. A member whose \<^emph>\<open>value\<close> is the
  name of a claim, followed by a member with a string value, therefore redefines the claim.
\<close>

definition confusing_payload :: "string \<Rightarrow> string \<Rightarrow> string \<Rightarrow> (string \<times> string) list \<Rightarrow> (string \<times> string) list" where
  "confusing_payload claim fake key ms =
     [(''name'', string_text claim), (key, string_text fake)] @ ms"

lemma extract_confused:
  assumes claim: "plain_key claim" "claim \<noteq> ''name''" and key: "plain_key key" and fake: "plain fake"
  shows "extract_json_value (object_text (confusing_payload claim fake key ms)) claim = Inr (Some (string_text fake))"
proof -
  let ?post = "concat (map (\<lambda>m. CHR '','' # member_text m) ms) @ ''}''"
  have nc: "CHR '':'' \<notin> set (CHR '','' # string_text key)"
    using plain_keyD(3) [OF key] by (auto simp: string_text_def)
  have j: "object_text (confusing_payload claim fake key ms) =
      (CHR ''{'' # string_text ''name'' @ '':'') @ quoted claim @ (CHR '','' # string_text key) @ CHR '':'' # [] @
        string_text fake @ ?post"
    using object_text_split [of "[]" "''name''" "string_text claim" "(key, string_text fake) # ms"]
    by (simp add: confusing_payload_def member_text_def quoted_def string_text_def)
  have "CHR '':'' \<notin> set claim" using plain_keyD(3) [OF claim(1)] by blast
  then have "key_free (quoted claim) (string_text ''name'') (CHR '':'' # z)" for z
    using claim by (intro key_free_string) auto
  then have "key_free (quoted claim) (CHR ''{'' # string_text ''name'' @ '':'') z" for z
    by (simp add: key_free_append) (simp add: quoted_def)
  from extract_found [OF j this nc] fake show ?thesis
    by (simp add: plain_def str_body_plain closed_string)
qed

lemma audience_confused:
  assumes "plain_key key" and "plain fake"
  shows "extract_audience_values (object_text (confusing_payload ''aud'' fake key ms)) = Inr [fake]"
proof -
  have "plain_key ''aud''" by (simp add: plain_key_def char_class_defs)
  then have "extract_json_value (object_text (confusing_payload ''aud'' fake key ms)) ''aud'' =
      Inr (Some (string_text fake))"
    using extract_confused [OF _ _ assms] by simp
  with assms(2) show ?thesis
    by (simp add: extract_audience_values_def extract_json_string_array_def extract_json_array_def
        extract_json_string_def string_text_def [of fake, THEN arg_cong [of _ _ hd]] plain_def unescape_plain)
qed

end
