(* ===== verification/Discovery.thy ===== *)
theory Discovery
  imports OidcUtils JwtUtils JsonText
begin

text \<open>
  \<open>keycloak/oidc/discovery.hpp\<close>: one request for the realm's discovery document. An endpoint the
  document does not name is the one built from the base URL and the realm.
\<close>

record oidc_endpoints =
  ep_issuer :: string
  ep_authorization :: string
  ep_token :: string
  ep_jwks_uri :: string
  ep_userinfo :: string
  ep_revocation :: string
  ep_introspection :: string
  ep_end_session :: string

record discovery_result =
  di_ok :: bool
  di_http_status :: int
  di_error :: string
  di_endpoints :: oidc_endpoints

definition read_endpoints :: "string \<Rightarrow> string \<Rightarrow> string \<Rightarrow> oidc_endpoints res" where
  "read_endpoints body base_url realm =
     rbind (json_string_or body ''issuer'' (realm_root base_url realm)) (\<lambda>iss.
     rbind (json_string_or body ''authorization_endpoint'' (authorization_endpoint base_url realm)) (\<lambda>auth.
     rbind (json_string_or body ''token_endpoint'' (token_endpoint base_url realm)) (\<lambda>tok.
     rbind (json_string_or body ''jwks_uri'' (jwks_endpoint base_url realm)) (\<lambda>jwks.
     rbind (json_string_or body ''userinfo_endpoint'' (userinfo_endpoint base_url realm)) (\<lambda>info.
     rbind (json_string_or body ''revocation_endpoint'' (revocation_endpoint base_url realm)) (\<lambda>rev.
     rbind (json_string_or body ''introspection_endpoint'' (introspection_endpoint base_url realm)) (\<lambda>intro.
     rbind (json_string_or body ''end_session_endpoint'' (logout_endpoint base_url realm)) (\<lambda>logout.
       Inr \<lparr>ep_issuer = iss, ep_authorization = auth, ep_token = tok, ep_jwks_uri = jwks,
            ep_userinfo = info, ep_revocation = rev, ep_introspection = intro,
            ep_end_session = logout\<rparr>))))))))"

definition discover_result :: "string \<Rightarrow> string \<Rightarrow> http_response \<Rightarrow> discovery_result res" where
  "discover_result base_url realm resp =
     (let http_status = effective_status resp; body = resp_body resp in
      rbind (read_endpoints body base_url realm) (\<lambda>endpoints.
        if \<not> is_2xx http_status then
          rbind (json_string_or body ''error'' ''oidc_discovery_failed'') (\<lambda>error.
            Inr \<lparr>di_ok = False, di_http_status = http_status, di_error = error,
                 di_endpoints = endpoints\<rparr>)
        else Inr \<lparr>di_ok = True, di_http_status = http_status, di_error = [],
                  di_endpoints = endpoints\<rparr>))"

definition discover ::
  "('h, 'm) http_lib_scheme \<Rightarrow> string \<Rightarrow> string \<Rightarrow> ('h, discovery_result) act" where
  "discover lib base_url realm =
     abind (alift (make_json_get lib (discovery_endpoint base_url realm) None)) (\<lambda>req.
     abind (http_send lib req) (\<lambda>resp. alift (discover_result base_url realm resp)))"

lemma discover_result_ok:
  "discover_result base_url realm resp = Inr r \<Longrightarrow>
    di_ok r = is_2xx (effective_status resp) \<and> di_http_status r = effective_status resp"
  by (auto simp: discover_result_def Let_def split: if_splits)

text \<open>
  A document that names no endpoint: every endpoint is the one built from the configuration.
\<close>

definition default_endpoints :: "string \<Rightarrow> string \<Rightarrow> oidc_endpoints" where
  "default_endpoints base_url realm =
     \<lparr>ep_issuer = realm_root base_url realm,
      ep_authorization = authorization_endpoint base_url realm,
      ep_token = token_endpoint base_url realm,
      ep_jwks_uri = jwks_endpoint base_url realm,
      ep_userinfo = userinfo_endpoint base_url realm,
      ep_revocation = revocation_endpoint base_url realm,
      ep_introspection = introspection_endpoint base_url realm,
      ep_end_session = logout_endpoint base_url realm\<rparr>"

lemma json_string_or_absent:
  "DQ \<notin> set body \<Longrightarrow> json_string_or body key d = Inr d"
  by (simp add: json_string_or_def value_or_def extract_string_absent key_free_no_quote)

lemma discover_defaults:
  assumes "DQ \<notin> set (resp_body resp)"
  shows "discover_result base_url realm resp = Inr
    \<lparr>di_ok = is_2xx (effective_status resp), di_http_status = effective_status resp,
     di_error = (if is_2xx (effective_status resp) then [] else ''oidc_discovery_failed''),
     di_endpoints = default_endpoints base_url realm\<rparr>"
  using assms
  by (simp add: discover_result_def read_endpoints_def json_string_or_absent default_endpoints_def
      Let_def del: rbind_eq_Inr)

text \<open>For a well formed base URL the request is fixed completely.\<close>

definition get_request_to :: "string \<Rightarrow> string \<Rightarrow> 16 word \<Rightarrow> string \<Rightarrow> request" where
  "get_request_to scheme host port path =
     (let u = \<lparr>uri_scheme = scheme, uri_host = host, uri_port = port, uri_path = path, uri_query = []\<rparr>
      in \<lparr>method_token = ''GET'', req_uri = u, req_authority = authority_of u,
          req_headers = [(''Accept'', ''application/json'')], req_body = [], req_user_data = Any_empty\<rparr>)"

lemma get_request_to_fields:
  "method_token (get_request_to scheme host port path) = ''GET''" "req_body (get_request_to scheme host port path) = []"
  "req_uri (get_request_to scheme host port path) =
     \<lparr>uri_scheme = scheme, uri_host = host, uri_port = port, uri_path = path, uri_query = []\<rparr>"
  by (simp_all add: get_request_to_def Let_def)

lemma discover_sends:
  assumes "base_url_ok base scheme host port ctx" and "blank_defaults lib"
  shows "discover lib base realm h =
    abind (http_send lib (get_request_to scheme host port (endpoint_path ctx realm ''/.well-known/openid-configuration'')))
      (\<lambda>resp. alift (discover_result base realm resp)) h"
proof -
  have "CHR ''?'' \<notin> set ''/.well-known/openid-configuration''" by simp
  from make_json_get_fields [OF endpoint_uri [OF assms this] assms(2)] show ?thesis
    by (simp add: discover_def discovery_endpoint_def abind_def get_request_to_def Let_def)
qed

end
