(* ===== verification/Instances.thy ===== *)
theory Instances
  imports AuthHandler Probe JwtText Discovery
begin

text \<open>
  Concrete instances of the parameters (the HTTP library, OpenSSL, the environment), a key set, a
  token and two realm configurations. The witnesses of the root theory evaluate the model on them.
\<close>

section \<open>Environment, HTTP library, OpenSSL\<close>

text \<open>The n-th random call yields bytes of the value \<open>n\<close>; the clocks tick evenly.\<close>

definition demo_env :: sysenv where
  "demo_env = \<lparr>steady_ticks = (\<lambda>n. int n), steady_pos = 0, wall_secs = (\<lambda>n. 50), wall_pos = 0,
     rand_bytes = (\<lambda>i n. Some (replicate n (char_of i))), rand_pos = 0\<rparr>"

lemma demo_env_simps [simp]:
  "steady_ticks demo_env = (\<lambda>n. int n)" "steady_pos demo_env = 0" "wall_secs demo_env = (\<lambda>n. 50)"
  "wall_pos demo_env = 0" "rand_bytes demo_env = (\<lambda>i n. Some (replicate n (char_of i)))" "rand_pos demo_env = 0"
  by (simp_all add: demo_env_def)

lemma demo_rand_fills [simp]: "rand_fills demo_env"
  by (simp add: rand_fills_def)

text \<open>A client that answers every request with \<open>resp\<close> and keeps the requests.\<close>

definition demo_lib :: "http_response \<Rightarrow> request list http_lib" where
  "demo_lib resp = \<lparr>default_uri = blank_uri, default_request = blank_request,
     header_value = (\<lambda>hs name. map_of hs name),
     http_send = (\<lambda>req log. (Inr resp, log @ [req]))\<rparr>"

lemma demo_lib_simps [simp]:
  "blank_defaults (demo_lib resp)" "http_send (demo_lib resp) req log = (Inr resp, log @ [req])"
  "header_value (demo_lib resp) hs name = map_of hs name"
  by (simp_all add: demo_lib_def blank_defaults_def)

definition demo_ssl :: openssl where
  "demo_ssl = \<lparr>BN_bin2bn = (\<lambda>s. Some (length s)), RSA_new_ok = True, RSA_set0_key = (\<lambda>n e. 1),
     EVP_PKEY_new_ok = True, EVP_PKEY_assign_RSA = (\<lambda>k. 1), EVP_MD_CTX_new_ok = True,
     EVP_DigestVerifyInit = (\<lambda>d k. 1), EVP_DigestVerifyUpdate = (\<lambda>d k inp. 1),
     EVP_DigestVerifyFinal = (\<lambda>d k inp sg. if sg = ''sig'' then 1 else 0)\<rparr>"

definition demo_plib :: pkce_lib where
  "demo_plib = \<lparr>sha_ctx_ok = True, sha_init = 1, sha_update = (\<lambda>s. 1), sha_final = (\<lambda>s. (1, ''digest'')),
     bio_b64_ok = True, bio_mem_ok = True, bio_base64 = rfc4648\<rparr>"

section \<open>A token\<close>

definition demo_auth :: auth_config where
  "demo_auth = \<lparr>expected_issuer = ''https://k/realms/r'', jwks_url = ''https://k/certs'', jwks_cache_ttl = 300,
     require_audience = False, expected_audience = [], expected_azp = [], clock_skew_seconds = 60\<rparr>"

definition demo_key :: jwk where
  "demo_key = \<lparr>jwk_kid = ''k1'', jwk_kty = ''RSA'', jwk_alg = ''RS256'', jwk_n = b64url ''nn'', jwk_e = b64url ''e''\<rparr>"

definition demo_header :: "(string \<times> string) list" where
  "demo_header = [(''alg'', string_text ''RS256''), (''kid'', string_text ''k1'')]"

definition demo_payload :: "(string \<times> string) list" where
  "demo_payload = [(''iss'', string_text ''https://k/realms/r''), (''exp'', ''100''), (''sub'', string_text ''u1'')]"

definition demo_token :: string where
  "demo_token = compact_jwt (object_text demo_header) (object_text demo_payload) ''sig''"

definition demo_vworld :: "request list vworld" where
  "demo_vworld = ((\<lparr>ca_keys = [demo_key], ca_expires_at = 1000\<rparr>, demo_env), [])"

definition demo_context :: request_context where
  "demo_context = \<lparr>ctx_authenticated = True, ctx_sub = ''u1'', ctx_preferred_username = [],
     ctx_realm = ''r'', ctx_issuer = ''https://k/realms/r'', ctx_client_id = [], ctx_roles = [], ctx_scopes = []\<rparr>"

lemma scalar_number: "s \<noteq> [] \<Longrightarrow> \<forall>c \<in> set s. is_digit c \<Longrightarrow> scalar_text s \<and> DQ \<notin> set s"
  by (cases s) (auto simp: scalar_text_def delim_def isspace_def is_digit_def)

lemma demo_readable:
  assumes "plain_key key"
  shows "key \<notin> {''RS256'', ''k1''} \<Longrightarrow> readable key demo_header"
    and "key \<notin> {''https://k/realms/r'', ''u1''} \<Longrightarrow> readable key demo_payload"
  using assms scalar_number [of "''100''"] quiet_no_dq [of "''100''" key]
  by (auto simp: readable_def demo_header_def demo_payload_def quiet_string value_text_def is_digit_def
      closed_string)

lemma plain_key_names [simp]:
  "plain_key ''alg''" "plain_key ''kid''" "plain_key ''iss''" "plain_key ''exp''" "plain_key ''nbf''"
  "plain_key ''azp''" "plain_key ''aud''" "plain_key ''sub''" "plain_key ''preferred_username''"
  "plain_key ''client_id''" "plain_key ''scope''" "plain_key ''realm_access''" "plain_key ''resource_access''"
  "plain_key ''access_token''" "plain_key ''active''" "plain_key ''error''" "plain_key ''roles''"
  by (simp_all add: plain_key_def char_class_defs)

lemma demo_header_ok: "header_ok \<lparr>signing_input = i, header_json = object_text demo_header,
    payload_json = p, signature = s\<rparr> ''RS256'' ''k1''"
  by (simp add: header_ok_def readable_claims demo_readable str_claim_def evp_digest_for_alg_def)
    (simp add: demo_header_def)

lemma demo_claims:
  "str_claim demo_payload ''iss'' = Some ''https://k/realms/r''" "int_claim demo_payload ''exp'' = Some 100"
  "int_claim demo_payload ''nbf'' = None" "str_claim demo_payload ''azp'' = None"
proof -
  have "stoll ''100'' = Inr 100"
    by (simp add: stoll_def parse_int_def Let_def is_digit_def isspace_def digit_val_def fits_int64_def)
  then show "int_claim demo_payload ''exp'' = Some 100"
    by (simp add: int_claim_def demo_payload_def catch_all_def)
qed (simp_all add: str_claim_def int_claim_def demo_payload_def unescape_plain)

lemma demo_map [simp]: "map_of demo_payload ''iss'' = Some (string_text ''https://k/realms/r'')"
  "map_of demo_payload ''exp'' = Some ''100''" "map_of demo_payload ''sub'' = Some (string_text ''u1'')"
  "key \<notin> {''iss'', ''exp'', ''sub''} \<Longrightarrow> map_of demo_payload key = None"
  by (simp_all add: demo_payload_def)

lemma demo_issuer_segment: "last_path_segment ''https://k/realms/r'' = ''r''"
  using rfind_ch_found [of "CHR ''/''" "''r''" "''https://k/realms''"]
  by (simp add: last_path_segment_def strip_back_stop)

lemma demo_build_context: "build_context (object_text demo_payload) = Inr demo_context"
proof -
  have s: "key \<notin> {''https://k/realms/r'', ''u1''} \<Longrightarrow> plain_key key \<Longrightarrow>
      json_string_or (object_text demo_payload) key d = Inr (value_or d (str_claim demo_payload key))" for key d
    using readable_claims(1) [OF demo_readable(2)] by (simp add: json_string_or_def)
  have v: "plain_key key \<Longrightarrow> key \<notin> {''iss'', ''exp'', ''sub'', ''https://k/realms/r'', ''u1''} \<Longrightarrow>
      extract_json_value (object_text demo_payload) key = Inr None" for key
    using readable_extract [OF demo_readable(2)] by simp
  have r: "extract_all_roles (object_text demo_payload) = Inr []"
    by (simp add: extract_all_roles_def extract_json_object_def v)
  have a: "extract_json_string (object_text demo_payload) ''azp'' = Inr None"
    by (simp add: extract_json_string_def v)
  have w: "split_ws [] = []" by (simp add: split_ws_def split_ws_loop.simps)
  show ?thesis
    by (simp add: build_context_def s r a w str_claim_def value_or_def demo_context_def unescape_plain
        demo_issuer_segment del: rbind_eq_Inr)
qed

lemma demo_authentic:
  "authentic demo_ssl demo_auth [demo_key] 50 \<lparr>signing_input = i, header_json = object_text demo_header,
    payload_json = object_text demo_payload, signature = ''sig''\<rparr>"
proof -
  have "verify_rsa_signature demo_ssl demo_key ''RS256'' i ''sig''"
    by (simp add: verify_rsa_signature_def evp_digest_for_alg_def make_rsa_public_key_def demo_key_def demo_ssl_def
        del: b64url.simps)
  moreover have "claims_ok demo_auth 50 (object_text demo_payload)"
    by (subst claims_ok_object) (simp_all add: demo_readable demo_claims demo_auth_def)
  ultimately show ?thesis using demo_header_ok [of i "object_text demo_payload" "''sig''"]
    by (auto simp: authentic_def demo_key_def)
qed

definition demo_jwt :: decoded_jwt where
  "demo_jwt = \<lparr>signing_input = b64url (object_text demo_header) @ CHR ''.'' # b64url (object_text demo_payload),
     header_json = object_text demo_header, payload_json = object_text demo_payload, signature = ''sig''\<rparr>"

lemma demo_decodes: "decode_jwt demo_token = Some demo_jwt"
  by (simp add: demo_token_def demo_jwt_def decode_compact)

lemma demo_config_ok: "config_ok demo_auth"
  by (simp add: config_ok_def demo_auth_def)

lemma demo_world [simp]: "v_cache demo_vworld = \<lparr>ca_keys = [demo_key], ca_expires_at = 1000\<rparr>"
  "v_sys demo_vworld = demo_env" "cache_fresh demo_vworld"
  by (simp_all add: demo_vworld_def v_cache_def v_sys_def cache_fresh_def v_now_def)

lemma demo_payload_ok: "payload_ok demo_auth 50 (object_text demo_payload) demo_context"
  by (simp add: payload_ok_def readable_claims demo_readable demo_claims demo_build_context demo_auth_def
      fits_int64_def)

lemma demo_validates:
  obtains w' where "validate lib demo_ssl demo_auth demo_token demo_vworld =
    (Inr \<lparr>jv_ok = True, jv_http_status = 200, jv_error = [], jv_context = demo_context\<rparr>, w')"
  using validate_complete [OF demo_config_ok demo_decodes, of demo_vworld demo_ssl demo_context lib]
    demo_authentic demo_payload_ok
  by (auto simp: demo_jwt_def)

section \<open>A realm and its logins\<close>

definition demo_realm :: realm_config where
  "demo_realm = \<lparr>rc_base_url = ''https://k'', rc_realm = ''r'', rc_client_id = ''c'', rc_redirect_uri = ''https://a/cb'',
     rc_scopes = [''openid''], rc_pkce_verifier_len = 64, rc_omit_default_port = True\<rparr>"

definition demo_ts :: token_service_config where
  "demo_ts = \<lparr>ts_base_url = ''https://k'', ts_realm = ''r'', ts_client_id = ''c'', ts_client_secret = None,
     ts_redirect_uri = ''https://a/cb''\<rparr>"

definition demo_config :: multi_realm_config where
  "demo_config = \<lparr>mc_realm = demo_realm, mc_token = demo_ts, mc_auth = demo_auth\<rparr>"

definition demo_manager :: manager where
  "demo_manager = \<lparr>mg_realms = [''r'' \<mapsto> demo_config], mg_order = [''r'']\<rparr>"

lemma demo_manager_built: "multi_realm_manager [demo_config] = Inr demo_manager"
  by (simp add: multi_realm_manager_def realm_runtime_def demo_manager_def demo_config_def demo_realm_def pkce_auth_strategy_def Let_def)

lemma demo_base_ok: "base_url_ok ''https://k'' ''https'' ''k'' 0 []"
  by (simp add: base_url_ok_def trim_trailing_slash_def strip_back_stop port_part_def)

text \<open>The token endpoint's answer, and the exchange against it.\<close>

definition demo_token_body :: "(string \<times> string) list" where
  "demo_token_body = [(''access_token'', string_text ''T'')]"

definition demo_http :: "request list http_lib" where
  "demo_http = demo_lib \<lparr>status_code = 200, resp_body = object_text demo_token_body\<rparr>"

definition demo_tokens :: token_set where
  "demo_tokens = empty_token_set\<lparr>access_token := ''T''\<rparr>"

lemma demo_body_extract:
  "plain_key key \<Longrightarrow> key \<noteq> ''T'' \<Longrightarrow>
    extract_json_value (object_text demo_token_body) key = Inr (map_of demo_token_body key)"
  by (rule readable_extract) (auto simp: readable_def demo_token_body_def quiet_string value_text_def closed_string)

lemma demo_body_map [simp]: "map_of demo_token_body ''access_token'' = Some (string_text ''T'')"
  "key \<noteq> ''access_token'' \<Longrightarrow> map_of demo_token_body key = None"
  by (simp_all add: demo_token_body_def)

lemma demo_token_response:
  "parse_token_response \<lparr>status_code = 200, resp_body = object_text demo_token_body\<rparr> fb =
    Inr ((oauth_plain True 200 [])\<lparr>oa_tokens := demo_tokens\<rparr>)"
proof -
  have k: "plain_key ''id_token''" "plain_key ''refresh_token''" "plain_key ''token_type''"
    "plain_key ''expires_in''" "plain_key ''refresh_expires_in''"
    by (simp_all add: plain_key_def char_class_defs)
  show ?thesis
    by (simp add: parse_token_response_def effective_status_def is_2xx_def json_string_or_def json_int_or_def
        extract_json_string_def extract_json_int_def demo_body_extract k value_or_def demo_tokens_def
        empty_token_set_def demo_body_map unescape_plain
        del: rbind_eq_Inr)
qed

lemma demo_exchange:
  assumes "code_text \<noteq> []" and "verifier \<noteq> []"
  shows "\<exists>req. exchange_authorization_code demo_http demo_ts code_text verifier log =
    (Inr ((oauth_plain True 200 [])\<lparr>oa_tokens := demo_tokens\<rparr>), log @ [req])"
proof -
  have "CHR ''?'' \<notin> set ''/protocol/openid-connect/token''" by simp
  from post_form_sends [OF demo_base_ok _ this, of demo_http "''r''"] assms
  show ?thesis
    by (simp add: exchange_authorization_code_def token_endpoint_def demo_ts_def demo_http_def
        demo_token_response abind_def)
qed

text \<open>An environment whose random source always yields zeros: every state drawn is the same.\<close>

definition zero_env :: "nat \<Rightarrow> nat \<Rightarrow> sysenv" where
  "zero_env p q = demo_env\<lparr>steady_pos := p, rand_bytes := (\<lambda>i n. Some (replicate n (char_of (0 :: nat)))), rand_pos := q\<rparr>"

definition demo_state :: string where
  "demo_state = state_hex (replicate 16 (char_of (0 :: nat)))"

definition demo_pair :: pkce_pair where
  "demo_pair = \<lparr>code_verifier = replicate 64 CHR ''A'', code_challenge = b64url ''digest''\<rparr>"

lemma demo_pkce: "generate_pkce_pair demo_plib 64 (zero_env p q) = (Inr demo_pair, zero_env p (Suc q))"
proof -
  have "base64url_encode demo_plib ''digest'' = Inr (b64url ''digest'')"
    by (rule base64url_encode_rfc) (simp_all add: demo_plib_def)
  moreover have "sha256_raw demo_plib v = Inr ''digest''" for v
    by (simp add: sha256_raw_def demo_plib_def)
  moreover have "kCharset ! 0 = CHR ''A''" by (simp add: kCharset_def)
  ultimately show ?thesis
    by (simp add: generate_pkce_pair_def generate_random_string_def RAND_bytes_def zero_env_def abind_def
        demo_pair_def del: b64url.simps)
qed

definition demo_start :: auth_start where
  "demo_start = create_authorization_url demo_realm demo_state demo_pair"

definition demo_stored :: "nat \<Rightarrow> mem_map" where
  "demo_stored p = [demo_state \<mapsto> \<lparr>me_verifier = code_verifier demo_pair, me_realm = ''r'',
     me_expires_at = int (Suc p) + 300 * 10 ^ 9\<rparr>]"

lemma sweep_empty [simp]: "sweep now Map.empty = Map.empty"
  by (auto simp: sweep_def)

lemma demo_create:
  assumes "p < 1000"
  shows "mem_create_state_entry \<lparr>se_code_verifier = code_verifier demo_pair, se_realm = ''r''\<rparr> 300
      (Map.empty, zero_env p q) = (Inr demo_state, (demo_stored p, zero_env (Suc (Suc p)) (Suc q)))"
proof -
  have "fits_int64 (int (Suc p) + 300 * 10 ^ 9)" using assms by (simp add: fits_int64_def)
  then have "steady_add (int (Suc p)) 300 = Inr (int (Suc p) + 300 * 10 ^ 9)"
    by (simp add: steady_add_def add_int64_def fits_int64_def)
  then have ins: "mem_insert demo_state \<lparr>se_code_verifier = code_verifier demo_pair, se_realm = ''r''\<rparr> 300
      (Map.empty, zero_env (Suc p) (Suc q)) = (Inr demo_state, (demo_stored p, zero_env (Suc (Suc p)) (Suc q)))"
    by (simp add: mem_insert_def abind_def zero_env_def demo_stored_def)
  have draw: "on_snd random_state_32 (m, zero_env p q) = (Inr demo_state, (m, zero_env p (Suc q)))" for m :: mem_map and p
    by (simp add: on_snd_def random_state_32_def RAND_bytes_def abind_def zero_env_def demo_state_def kStateBytes_def)
  have "mem_attempts (Suc n) e ttl (Map.empty, zero_env (Suc p) q) =
      mem_insert demo_state e ttl (Map.empty, zero_env (Suc p) (Suc q))" for n e ttl
    by (simp add: abind_def draw)
  then have att: "mem_attempts 8 e ttl (Map.empty, zero_env (Suc p) q) =
      mem_insert demo_state e ttl (Map.empty, zero_env (Suc p) (Suc q))" for e ttl
    by (simp only: eval_nat_numeral(3) [symmetric] numeral_eq_Suc)
  have "cleanup_expired_unsafe (Map.empty, zero_env p q) = (Inr (), (Map.empty, zero_env (Suc p) q))"
    by (simp add: zero_env_def)
  with att ins show ?thesis
    by (simp add: mem_create_state_entry_def abind_def del: cleanup_eq)
qed

abbreviation demo_client :: "(mem_map, request list) lworld auth_client" where
  "demo_client \<equiv> multi_realm_client demo_http demo_plib mem_create_state_entry mem_consume_state_entry demo_manager"

lemma demo_login:
  assumes "p < 1000"
  shows "ac_start_login demo_client ''r'' 300 ((Map.empty, zero_env p q), log) =
    (Inr demo_start, ((demo_stored p, zero_env (Suc (Suc p)) (Suc (Suc q))), log))"
proof -
  have "on_snd (generate_pkce_pair demo_plib 64) (m, zero_env p q) = (Inr demo_pair, (m, zero_env p (Suc q)))" for m :: mem_map
    by (simp add: on_snd_def demo_pkce)
  with demo_create [OF assms, of "Suc q"] show ?thesis
    by (simp add: multi_realm_client_def manager_start_login_def on_fst_def abind_def lookup_realm_def
        demo_manager_def demo_config_def demo_realm_def demo_start_def)
qed

definition demo_input :: callback_input where
  "demo_input = \<lparr>cb_code = ''code'', cb_state = demo_state\<rparr>"

definition demo_result :: callback_result where
  "demo_result = \<lparr>cr_ok = True, cr_http_status = 200, cr_error = [], cr_tokens = demo_tokens, cr_realm = ''r''\<rparr>"

lemma demo_consume:
  "mem_consume_state_entry demo_state (demo_stored p, zero_env (Suc (Suc p)) q) =
    (Inr (Some \<lparr>se_code_verifier = code_verifier demo_pair, se_realm = ''r''\<rparr>),
     (Map.empty, zero_env (Suc (Suc (Suc p))) q))"
  by (auto simp: mem_consume_eq Let_def demo_stored_def sweep_def zero_env_def entry_of_def fun_eq_iff)

lemma demo_callback:
  "\<exists>req. ac_complete_login demo_client demo_input ((demo_stored p, zero_env (Suc (Suc p)) q), log) =
    (Inr demo_result, ((Map.empty, zero_env (Suc (Suc (Suc p))) q), log @ [req]))"
proof -
  have "demo_state \<noteq> []" "code_verifier demo_pair \<noteq> []"
    using state_hex_shape [of "replicate 16 (char_of (0 :: nat))"] by (auto simp: demo_state_def demo_pair_def)
  moreover from this obtain req where
    "exchange_authorization_code demo_http demo_ts ''code'' (code_verifier demo_pair) log =
      (Inr ((oauth_plain True 200 [])\<lparr>oa_tokens := demo_tokens\<rparr>), log @ [req])"
    using demo_exchange [of "''code''" "code_verifier demo_pair" log] by auto
  ultimately show ?thesis
    by (simp add: multi_realm_client_def manager_complete_login_def demo_input_def on_fst_def on_snd_def abind_def
        demo_consume demo_manager_def demo_config_def callback_of_def demo_result_def demo_realm_def)
qed

text \<open>Two logins in a row that are given the same state.\<close>

lemma demo_run:
  "\<exists>w'. run_logins demo_client [Do_start ''r'' 300, Do_complete demo_input, Do_start ''r'' 300, Do_complete demo_input]
     ((Map.empty, zero_env 0 0), []) =
   ([Started ''r'' (Inr demo_start), Completed demo_input (Inr demo_result),
     Started ''r'' (Inr demo_start), Completed demo_input (Inr demo_result)], w')"
proof -
  have s1: "ac_start_login demo_client ''r'' 300 ((Map.empty, zero_env 0 0), []) =
      (Inr demo_start, ((demo_stored 0, zero_env 2 2), []))"
    using demo_login [of 0 0 "[]"] by (simp add: numeral_2_eq_2)
  obtain r1 where c1: "ac_complete_login demo_client demo_input ((demo_stored 0, zero_env 2 2), []) =
      (Inr demo_result, ((Map.empty, zero_env 3 2), [r1]))"
    using demo_callback [of 0 2 "[]"] by (auto simp: numeral_2_eq_2 numeral_3_eq_3)
  have s2: "ac_start_login demo_client ''r'' 300 ((Map.empty, zero_env 3 2), [r1]) =
      (Inr demo_start, ((demo_stored 3, zero_env 5 4), [r1]))"
    using demo_login [of 3 2 "[r1]"] by (simp add: eval_nat_numeral)
  obtain r2 where c2: "ac_complete_login demo_client demo_input ((demo_stored 3, zero_env 5 4), [r1]) =
      (Inr demo_result, ((Map.empty, zero_env 6 4), [r1, r2]))"
    using demo_callback [of 3 4 "[r1]"] by auto
  show ?thesis by (simp add: s1 c1 s2 c2)
qed

section \<open>The Redis store\<close>

definition demo_entry :: state_entry where
  "demo_entry = \<lparr>se_code_verifier = ''v'', se_realm = ''r''\<rparr>"

definition demo_redis :: "string \<Rightarrow> string option" where
  "demo_redis = [make_key ''p:'' demo_state \<mapsto> encode_state_entry demo_entry]"

lemma demo_redis_create:
  "redis_create_state_entry plain_redis ''p:'' demo_entry 300 (Map.empty, zero_env p q) =
    (Inr demo_state, (demo_redis, zero_env p (Suc q)))"
proof -
  have draw: "on_snd random_state_32 (m, zero_env p q) = (Inr demo_state, (m, zero_env p (Suc q)))"
    for m :: "string \<Rightarrow> string option"
    by (simp add: on_snd_def random_state_32_def RAND_bytes_def abind_def zero_env_def demo_state_def kStateBytes_def)
  have "redis_attempts plain_redis ''p:'' (Suc n) (encode_state_entry demo_entry) t (Map.empty, zero_env p q) =
      (Inr demo_state, (demo_redis, zero_env p (Suc q)))" for n t
    by (simp add: abind_def draw demo_redis_def)
  then show ?thesis unfolding redis_create_state_entry_def by (simp only: numeral_eq_Suc)
qed

lemma demo_redis_consume:
  "redis_consume_state_entry plain_redis ''p:'' demo_state (demo_redis, s) = (Inr (Some demo_entry), (Map.empty, s))"
  by (simp add: redis_consume_state_entry_def demo_redis_def entry_of_encoded demo_entry_def)

lemma demo_redis_run:
  "\<exists>w'. run_ops (redis_create_state_entry plain_redis ''p:'') (redis_consume_state_entry plain_redis ''p:'')
      [Op_create demo_entry 300, Op_consume demo_state, Op_create demo_entry 300, Op_consume demo_state]
      (Map.empty, zero_env 0 0) =
    ([Created (Inr demo_state), Consumed demo_state (Inr (Some demo_entry)),
      Created (Inr demo_state), Consumed demo_state (Inr (Some demo_entry))], w')"
  by (simp add: demo_redis_create demo_redis_consume)

section \<open>A logout\<close>

definition demo_handler :: handler_config where
  "demo_handler = \<lparr>hc_token_cookies = \<lparr>tc_access_token_name = ''at'', tc_refresh_token_name = ''rt'', tc_path = ''/'',
     tc_secure = True, tc_same_site = ''Lax''\<rparr>, hc_post_login_redirect = ''/'', hc_post_logout_redirect = ''/'',
     hc_revoke_refresh_token_on_logout = True\<rparr>"

text \<open>A token service that logs its revocations.\<close>

definition demo_revoker :: "(string \<times> string \<times> string) list auth_tokens" where
  "demo_revoker = \<lparr>at_has_realm = (\<lambda>realm. realm = ''r''),
     at_revoke_token = (\<lambda>realm tok hint log. (Inr (oauth_plain True 200 []), log @ [(realm, tok, hint)]))\<rparr>"

definition demo_logout_request :: request where
  "demo_logout_request = blank_request\<lparr>req_uri := blank_uri\<lparr>uri_query := build_form_body [(''realm'', ''r'')]\<rparr>,
     req_headers := [(''Cookie'', cookie_header [(''rt_r'', ''RT'')])]\<rparr>"

lemma demo_active_readable:
  "readable ''active'' [(''active'', ''false'')]" "readable ''active'' [(''active'', ''true '')]"
  by (auto simp: readable_def value_text_def scalar_text_def delim_def isspace_def quiet_no_dq)

section \<open>A payload with roles\<close>

definition demo_roles :: "(string \<times> string) list" where
  "demo_roles = [(''realm_access'', object_text [(''roles'', array_text (map string_text [''user'', ''admin'', ''user'']))])]"

lemma demo_roles_readable: "readable ''realm_access'' demo_roles" "readable ''resource_access'' demo_roles"
proof -
  have "quiet key (array_text (map string_text [''user'', ''admin'', ''user'']))"
    if "plain_key key" "key \<notin> {''user'', ''admin''}" for key
    by (rule quiet_array) (use that in \<open>auto simp: quiet_string\<close>)
  then have "quiet key (object_text [(''roles'', array_text (map string_text [''user'', ''admin'', ''user'']))])"
    if "plain_key key" "key \<notin> {''user'', ''admin'', ''roles''}" for key
    using that by (intro quiet_object) auto
  moreover have "value_text (object_text [(''roles'', array_text (map string_text [''user'', ''admin'', ''user'']))])"
    by (simp add: plain_def)
  ultimately show "readable ''realm_access'' demo_roles" "readable ''resource_access'' demo_roles"
    by (simp_all add: readable_def demo_roles_def)
qed

end
