(* ===== verification/Sessions.thy ===== *)
theory Sessions
  imports AuthHandler
begin

text \<open>
  Sessions across requests: what a user agent does with the cookies of a callback, and what the
  logout handler makes of them; and the separation of the realms of one manager.
\<close>

section \<open>The user agent\<close>

text \<open>The \<open>Cookie\<close> header for the cookies that a response has set, in their order.\<close>

definition agent_cookies :: "resp_op list \<Rightarrow> string" where
  "agent_cookies tr = (case cookie_pairs tr of
     [] \<Rightarrow> [] | p # ps \<Rightarrow> p @ concat (map (\<lambda>p. ''; '' @ p) ps))"

lemma agent_cookies_header: "cookie_pairs tr = map cookie_pair kvs \<Longrightarrow> agent_cookies tr = cookie_header kvs"
  by (auto simp: agent_cookies_def cookie_header_def comp_def split: list.splits)

lemma agent_cookies_append:
  "cookie_pairs a = [] \<Longrightarrow> cookie_pairs c = [] \<Longrightarrow> agent_cookies (a @ b @ c) = agent_cookies b"
  by (simp add: agent_cookies_def)

text \<open>Sent back after a successful callback, they name the refresh token of that login.\<close>

lemma callback_cookies:
  assumes "handle_callback cfg client req (w, []) = (Inr (), (w', tr))"
    and "ac_complete_login client \<lparr>cb_code = param_or_empty (callback_params req) ''code'',
      cb_state = param_or_empty (callback_params req) ''state''\<rparr> w = (Inr r, w1)" and "cr_ok r"
  shows "parse_cookie_header (agent_cookies tr) (tc_refresh_token_name (token_cookie_config_for_realm cfg (cr_realm r))) =
      Some (refresh_token (cr_tokens r))"
proof -
  let ?cc = "token_cookie_config_for_realm cfg (cr_realm r)"
  let ?kvs = "[(tc_access_token_name ?cc, access_token (cr_tokens r)), (tc_refresh_token_name ?cc, refresh_token (cr_tokens r))]"
  from assms(1) obtain r' where
    run: "ac_complete_login client \<lparr>cb_code = param_or_empty (callback_params req) ''code'',
        cb_state = param_or_empty (callback_params req) ''state''\<rparr> w = (Inr r', w')"
    and tr: "tr = [] @ no_store @ (if \<not> cr_ok r' then
          [json_type, Set_status (of_int (cr_http_status r')), Set_body (error_body (json_escape (cr_error r')))]
        else add_token_cookies cfg (cr_realm r') (cr_tokens r') @
          [Set_status 302, Add_header ''Location'' (hc_post_login_redirect cfg), Set_body []])"
    by (rule handle_callback_Inr)
  from run assms(2) have "r' = r" by simp
  with tr assms(3) have "cookie_pairs tr = map cookie_pair ?kvs" by (simp add: cookie_pairs_tokens)
  then have "agent_cookies tr = cookie_header ?kvs" by (rule agent_cookies_header)
  then show ?thesis
    using parse_cookie_pairs [of ?kvs] by (simp add: token_cookie_config_for_realm_def)
qed

text \<open>A logout with these cookies revokes that token, and no other.\<close>

lemma logout_revokes_cookie:
  assumes "parse_form_encoded (uri_query (req_uri req)) ''realm'' = Some realm" "realm \<noteq> []" "at_has_realm tokens realm"
    and "hc_revoke_refresh_token_on_logout cfg" and "header_value lib (req_headers req) ''Cookie'' = Some raw"
    and "parse_cookie_header raw (tc_refresh_token_name (token_cookie_config_for_realm cfg realm)) = Some tok" and "tok \<noteq> []"
  shows "handle_logout lib cfg tokens req (w, tr) =
    (case at_revoke_token tokens realm tok ''refresh_token'' w of
       (Inl e, w') \<Rightarrow> (Inl e, (w', tr @ no_store))
     | (Inr _, w') \<Rightarrow> (Inr (), (w', tr @ no_store @ clear_token_cookies cfg realm @
         [Set_status 302, Add_header ''Location'' (hc_post_logout_redirect cfg), Set_body []])))"
proof -
  have "logout_revoke lib cfg tokens req realm w =
      abind (at_revoke_token tokens realm tok ''refresh_token'') (\<lambda>_. aret ()) w"
    using assms(4-7) by (simp add: logout_revoke_def get_cookie_def)
  with logout_known_realm [of req realm tokens lib cfg w tr] assms(1-3) show ?thesis
    by (auto simp: abind_def split: prod.splits sum.splits)
qed

section \<open>Realms do not share keys\<close>

text \<open>
  A validation for one realm is the validation of that realm's own validator, and it leaves the
  cached keys of every other realm alone.
\<close>

lemma manager_validate_eq:
  assumes "mg_realms m realm = Some rt"
  shows "manager_validate lib ssl m realm tok w =
    (case validate lib ssl (mc_auth rt) tok (focus realm w) of (r, v) \<Rightarrow> (r, unfocus realm w v))"
  using assms by (simp add: manager_validate_def lookup_realm_def abind_def)

lemma manager_validate_unknown:
  "mg_realms m realm = None \<Longrightarrow> \<exists>e. manager_validate lib ssl m realm tok w = (Inl e, w)"
  by (auto simp: manager_validate_def lookup_realm_def abind_def)

lemma unfocus_simps [simp]:
  "fst (fst (unfocus realm w v)) realm' = (if realm' = realm then fst (fst v) else fst (fst w) realm')"
  "focus realm (unfocus realm w v) = v"
  by (simp_all add: unfocus_def focus_def)

lemma manager_validate_isolated:
  assumes "manager_validate lib ssl m realm tok w = (r, w')" and "realm' \<noteq> realm"
  shows "fst (fst w') realm' = fst (fst w) realm'"
proof (cases "mg_realms m realm")
  case None
  with assms manager_validate_unknown [of m realm lib ssl tok w] show ?thesis by auto
next
  case (Some rt)
  with assms show ?thesis by (auto simp: manager_validate_eq split: prod.splits)
qed

lemma manager_validate_accepts:
  assumes "manager_validate lib ssl m realm tok w = (Inr r, w')" and "jv_ok r"
  shows "\<exists>rt jwt. mg_realms m realm = Some rt \<and> config_ok (mc_auth rt) \<and> decode_jwt tok = Some jwt \<and>
    authentic ssl (mc_auth rt) (ca_keys (fst (fst w') realm))
      (wall_secs (snd (fst w)) (Suc (wall_pos (snd (fst w))))) jwt \<and>
    build_context (payload_json jwt) = Inr (jv_context r)"
proof (cases "mg_realms m realm")
  case None
  with assms manager_validate_unknown [of m realm lib ssl tok w] show ?thesis by auto
next
  case (Some rt)
  with assms(1) obtain v where v: "validate lib ssl (mc_auth rt) tok (focus realm w) = (Inr r, v)" "w' = unfocus realm w v"
    by (auto simp: manager_validate_eq split: prod.splits)
  from validate_decision [OF v(1)] assms(2) Some v(2) show ?thesis
    by (auto simp: accepts_def v_sys_def v_cache_def focus_def)
qed

section \<open>Issuers keep the realms of a token apart\<close>

text \<open>
  Two realms whose validators expect different issuers never both accept one token: the issuer claim
  is read from the one payload.
\<close>

lemma one_realm_per_token:
  assumes "manager_validate lib ssl m realm1 tok w1 = (Inr r1, w1')" "jv_ok r1" "mg_realms m realm1 = Some rt1"
    and "manager_validate lib ssl m realm2 tok w2 = (Inr r2, w2')" "jv_ok r2" "mg_realms m realm2 = Some rt2"
  shows "expected_issuer (mc_auth rt1) = expected_issuer (mc_auth rt2)"
  using manager_validate_accepts [OF assms(1,2)] manager_validate_accepts [OF assms(4,5)] assms(3,6)
  by (auto simp: authentic_def claims_ok_def)

end
