(* ===== verification/StoreApi.thy ===== *)
theory StoreApi
  imports MemoryStore RedisStore
begin

text \<open>
  The interface of a state store as the templates of the sources use it: the concept
  \<open>StateStoreLike\<close> of \<open>api_models/concepts.hpp\<close> with the two entry operations, as a record; both
  stores as values of it; and the forwarding class \<open>KeycloakHandler\<close> of
  \<open>keycloak/state_store/state_store.hpp\<close>, which is shown to be the store it wraps.
\<close>

record 'w store_api =
  sa_create_state :: "string \<Rightarrow> int \<Rightarrow> ('w, string) act"
  sa_create_state_entry :: "'w create_op"
  sa_consume_state :: "string \<Rightarrow> ('w, string option) act"
  sa_consume_state_entry :: "'w consume_op"
  sa_random_state_32 :: "('w, string) act"
  sa_cleanup_expired_unsafe :: "('w, unit) act"

definition memory_api :: "mem_world store_api" where
  "memory_api =
     \<lparr>sa_create_state = create_state mem_create_state_entry,
      sa_create_state_entry = mem_create_state_entry,
      sa_consume_state = consume_state mem_consume_state_entry,
      sa_consume_state_entry = mem_consume_state_entry,
      sa_random_state_32 = on_snd random_state_32,
      sa_cleanup_expired_unsafe = cleanup_expired_unsafe\<rparr>"

text \<open>Redis expires its keys itself: the clean-up is empty.\<close>

definition redis_cleanup :: "('w, unit) act" where
  "redis_cleanup = aret ()"

definition redis_api :: "'r redis_command \<Rightarrow> string \<Rightarrow> ('r \<times> sysenv) store_api" where
  "redis_api command key_prefix =
     \<lparr>sa_create_state = redis_create_state command key_prefix,
      sa_create_state_entry = redis_create_state_entry command key_prefix,
      sa_consume_state = redis_consume_state command key_prefix,
      sa_consume_state_entry = redis_consume_state_entry command key_prefix,
      sa_random_state_32 = on_snd redis_random_state_32,
      sa_cleanup_expired_unsafe = redis_cleanup\<rparr>"

section \<open>The forwarding handler\<close>

definition handler_create_state :: "'w store_api \<Rightarrow> string \<Rightarrow> int \<Rightarrow> ('w, string) act" where
  "handler_create_state store code_verifier ttl = abind (sa_create_state store code_verifier ttl) aret"

definition handler_create_state_entry :: "'w store_api \<Rightarrow> state_entry \<Rightarrow> int \<Rightarrow> ('w, string) act" where
  "handler_create_state_entry store entry ttl = abind (sa_create_state_entry store entry ttl) aret"

definition handler_consume_state :: "'w store_api \<Rightarrow> string \<Rightarrow> ('w, string option) act" where
  "handler_consume_state store st = abind (sa_consume_state store st) aret"

definition handler_consume_state_entry :: "'w store_api \<Rightarrow> string \<Rightarrow> ('w, state_entry option) act" where
  "handler_consume_state_entry store st = abind (sa_consume_state_entry store st) aret"

definition keycloak_handler :: "'w store_api \<Rightarrow> 'w store_api" where
  "keycloak_handler store =
     \<lparr>sa_create_state = handler_create_state store,
      sa_create_state_entry = handler_create_state_entry store,
      sa_consume_state = handler_consume_state store,
      sa_consume_state_entry = handler_consume_state_entry store,
      sa_random_state_32 = sa_random_state_32 store,
      sa_cleanup_expired_unsafe = sa_cleanup_expired_unsafe store\<rparr>"

lemma abind_return: "abind m aret = m"
  by (auto simp: abind_def aret_def fun_eq_iff split: prod.splits sum.splits)

lemma keycloak_handler_id [simp]: "keycloak_handler store = store"
  by (simp add: keycloak_handler_def handler_create_state_def handler_create_state_entry_def
      handler_consume_state_def handler_consume_state_entry_def abind_return fun_eq_iff)

text \<open>So the handler around the memory store keeps the contract of a store.\<close>

interpretation handler_store: state_store "sa_create_state_entry (keycloak_handler memory_api)"
  "sa_consume_state_entry (keycloak_handler memory_api)" mem_stored "\<lambda>st r. r = Inr st" env_noise
  using mem_store.state_store_axioms by (simp add: memory_api_def)

section \<open>Verifier-only states\<close>

text \<open>
  A state created without a realm through \<open>create_state\<close> hands its verifier back: what the single
  realm client relies on.
\<close>

lemma mem_verifier_roundtrip:
  assumes "sa_create_state memory_api v ttl (m, s) = (Inr st, (m1, s1))"
    and "steady_ticks s1 (steady_pos s1) < steady_ticks s (Suc (steady_pos s)) + ttl * 10 ^ 9"
  shows "\<exists>w. sa_consume_state memory_api st (m1, s1) = (Inr (Some v), w)"
proof -
  have "fst (mem_consume_state_entry st (m1, s1)) = Inr (Some \<lparr>se_code_verifier = v, se_realm = []\<rparr>)"
    using mem_expiry [of "\<lparr>se_code_verifier = v, se_realm = []\<rparr>" ttl m s st m1 s1] assms
    by (simp add: memory_api_def create_state_def)
  then show ?thesis
    by (cases "mem_consume_state_entry st (m1, s1)") (auto simp: memory_api_def consume_state_def abind_def)
qed

end
