(* ===== verification/StoreSpec.thy ===== *)
theory StoreSpec
  imports MemoryStore
begin

text \<open>
  The abstract specification of a state store, and the memory store as a refinement of it.

  The specification never cleans up: it keeps every entry together with its deadline and looks at
  the deadline when a state is asked for. The memory store erases what has expired at the start of
  each operation instead. With a clock that never goes back no client can tell them apart: every
  sequence of operations has the same outcomes (\<open>run_ops_refines\<close>). The second half shows what a
  client may count on: a state stays redeemable until it is consumed or its deadline has passed,
  whatever others do with the store in between.
\<close>

section \<open>The specification\<close>

type_synonym spec_map = "string \<Rightarrow> (state_entry \<times> int) option"
type_synonym spec_world = "spec_map \<times> sysenv"

definition live :: "spec_map \<Rightarrow> int \<Rightarrow> string \<Rightarrow> state_entry option" where
  "live a now st = (case a st of None \<Rightarrow> None | Some (e, deadline) \<Rightarrow> if now < deadline then Some e else None)"

definition spec_insert :: "string \<Rightarrow> state_entry \<Rightarrow> int \<Rightarrow> (spec_world, string) act" where
  "spec_insert st e ttl =
     abind (on_snd steady_now) (\<lambda>now.
     abind (alift (steady_add now ttl)) (\<lambda>deadline. \<lambda>(a, s). (Inr st, (a(st \<mapsto> (e, deadline)), s))))"

fun spec_attempts :: "nat \<Rightarrow> int \<Rightarrow> state_entry \<Rightarrow> int \<Rightarrow> (spec_world, string) act" where
  "spec_attempts 0 now e ttl =
     athrow (Runtime_error ''MemoryStateStore::create_state failed: unable to allocate unique state'')"
| "spec_attempts (Suc left) now e ttl =
     abind (on_snd random_state_32) (\<lambda>st. \<lambda>(a, s).
       if live a now st \<noteq> None then spec_attempts left now e ttl (a, s)
       else spec_insert st e ttl (a, s))"

definition spec_create :: "state_entry \<Rightarrow> int \<Rightarrow> (spec_world, string) act" where
  "spec_create e ttl = abind (on_snd steady_now) (\<lambda>now. spec_attempts 8 now e ttl)"

definition spec_consume :: "string \<Rightarrow> (spec_world, state_entry option) act" where
  "spec_consume st =
     abind (on_snd steady_now) (\<lambda>now. \<lambda>(a, s). (Inr (live a now st), (a(st := None), s)))"

section \<open>Refinement\<close>

text \<open>
  At every future reading of the clock, both stores would honour the same states with the same
  entries.
\<close>

definition refines :: "sysenv \<Rightarrow> mem_map \<Rightarrow> spec_map \<Rightarrow> bool" where
  "refines s m a \<longleftrightarrow> (\<forall>i st. steady_pos s \<le> i \<longrightarrow>
     map_option entry_of (sweep (steady_ticks s i) m st) = live a (steady_ticks s i) st)"

lemma refines_empty: "refines s Map.empty Map.empty"
  by (simp add: refines_def sweep_def live_def)

lemma refinesD:
  "refines s m a \<Longrightarrow> steady_pos s \<le> i \<Longrightarrow>
    map_option entry_of (sweep (steady_ticks s i) m st) = live a (steady_ticks s i) st"
  by (simp add: refines_def)

text \<open>Sweeping early is unobservable, because the clock does not go back.\<close>

lemma sweep_twice: "t \<le> t' \<Longrightarrow> sweep t' (sweep t m) = sweep t' m"
  by (auto simp: sweep_def fun_eq_iff split: option.splits)

lemma sweep_upd: "sweep t (m(st := x)) = (sweep t m)(st := sweep t (m(st := x)) st)"
  by (auto simp: sweep_def fun_eq_iff)

definition same_clock :: "sysenv \<Rightarrow> sysenv \<Rightarrow> bool" where
  "same_clock s s' \<longleftrightarrow> steady_ticks s' = steady_ticks s \<and> steady_pos s \<le> steady_pos s'"

lemma same_clock_trans: "same_clock s s' \<Longrightarrow> same_clock s' s'' \<Longrightarrow> same_clock s s''"
  by (simp add: same_clock_def)

lemma same_clock_monotone: "same_clock s s' \<Longrightarrow> steady_monotone s \<Longrightarrow> steady_monotone s'"
  by (simp add: same_clock_def steady_monotone_def)

lemma refines_later: "refines s m a \<Longrightarrow> same_clock s s' \<Longrightarrow> refines s' m a"
  by (simp add: refines_def same_clock_def)

lemma refines_sweep:
  assumes "refines s m a" and "steady_monotone s" and "same_clock s s'" and "steady_pos s < steady_pos s'"
  shows "refines s' (sweep (steady_ticks s (steady_pos s)) m) a"
proof -
  have "steady_ticks s (steady_pos s) \<le> steady_ticks s i" if "steady_pos s' \<le> i" for i
    using assms(2,4) that by (simp add: steady_monotone_def)
  with assms show ?thesis by (simp add: refines_def same_clock_def sweep_twice)
qed

lemma refines_upd:
  assumes "refines s m a"
    and "\<And>t. map_option entry_of (sweep t (m(st := x)) st) = live (a(st := y)) t st"
  shows "refines s (m(st := x)) (a(st := y))"
proof -
  have "map_option entry_of (sweep t (m(st := x)) k) = live (a(st := y)) t k"
    if "map_option entry_of (sweep t m k) = live a t k" for t k
    using assms(2) [of t] that by (cases "k = st") (simp_all add: sweep_def live_def)
  with assms(1) show ?thesis by (simp add: refines_def)
qed

lemma refines_delete: "refines s m a \<Longrightarrow> refines s (m(st := None)) (a(st := None))"
  by (rule refines_upd) (simp_all add: sweep_def live_def)

lemma consume_refines:
  assumes "mem_consume_state_entry st (m, s) = (r, (m', s'))" and "refines s m a" and "steady_monotone s"
  shows "\<exists>a'. spec_consume st (a, s) = (r, (a', s')) \<and> refines s' m' a' \<and> same_clock s s'"
proof -
  let ?now = "steady_ticks s (steady_pos s)"
  have out: "r = Inr (map_option entry_of (sweep ?now m st))" "m' = (sweep ?now m)(st := None)"
    "s' = s\<lparr>steady_pos := Suc (steady_pos s)\<rparr>"
    using assms(1) by (simp_all add: mem_consume_eq Let_def)
  have clock: "same_clock s s'" by (simp add: out same_clock_def)
  have "refines s' m' (a(st := None))"
    unfolding out(2) by (rule refines_delete, rule refines_sweep) (use assms(2,3) clock out(3) in simp_all)
  moreover have "spec_consume st (a, s) = (r, (a(st := None), s'))"
    using refinesD [OF assms(2), of "steady_pos s" st] by (simp add: spec_consume_def abind_def out)
  ultimately show ?thesis using clock by blast
qed

lemma insert_refines:
  assumes "mem_insert st e ttl (m, s) = (r, (m', s'))" and "refines s m a"
  shows "\<exists>a'. spec_insert st e ttl (a, s) = (r, (a', s')) \<and> refines s' m' a' \<and> same_clock s s'"
proof -
  let ?now = "steady_ticks s (steady_pos s)"
  have s': "s' = s\<lparr>steady_pos := Suc (steady_pos s)\<rparr>" by (rule mem_insert_Inr [OF assms(1)])
  have clock: "same_clock s s'" by (simp add: s' same_clock_def)
  note later = refines_later [OF assms(2) clock]
  show ?thesis
  proof (cases "steady_add ?now ttl")
    case (Inl x)
    with assms(1) later clock show ?thesis by (auto simp: mem_insert_def spec_insert_def abind_def)
  next
    case (Inr d)
    have "refines s' (m(st \<mapsto> \<lparr>me_verifier = se_code_verifier e, me_realm = se_realm e, me_expires_at = d\<rparr>))
        (a(st \<mapsto> (e, d)))"
      by (rule refines_upd [OF later]) (simp add: sweep_def live_def entry_of_def)
    with Inr assms(1) clock show ?thesis by (auto simp: mem_insert_def spec_insert_def abind_def)
  qed
qed

lemma random_state_steady:
  assumes "random_state_32 s = (r, s')"
  shows "same_clock s s' \<and> steady_pos s' = steady_pos s"
  using assms
  by (auto simp: random_state_32_def abind_def RAND_bytes_def same_clock_def split: option.splits)

lemma attempts_refine:
  assumes "mem_attempts n e ttl (m, s) = (r, (m', s'))" and "refines s m a"
    and "\<And>st. m st = None \<longleftrightarrow> live a now st = None"
  shows "\<exists>a'. spec_attempts n now e ttl (a, s) = (r, (a', s')) \<and> refines s' m' a' \<and> same_clock s s'"
  using assms
proof (induction n arbitrary: s)
  case 0
  then show ?case by (simp add: same_clock_def)
next
  case (Suc n)
  obtain rr s1 where rnd: "random_state_32 s = (rr, s1)" by (cases "random_state_32 s")
  note clock = random_state_steady [OF rnd]
  then have later: "refines s1 m a" using Suc.prems(2) refines_later by blast
  show ?case
  proof (cases rr)
    case (Inl x)
    with Suc.prems(1) rnd later clock show ?thesis by (auto simp: abind_def on_snd_def)
  next
    case (Inr st)
    show ?thesis
    proof (cases "m st = None")
      case True
      then have "mem_insert st e ttl (m, s1) = (r, (m', s'))"
        using Suc.prems(1) rnd Inr by (simp add: abind_def on_snd_def)
      from insert_refines [OF this later] True Suc.prems(3) [of st] Inr rnd clock show ?thesis
        by (auto simp: abind_def on_snd_def intro: same_clock_trans)
    next
      case False
      then have "mem_attempts n e ttl (m, s1) = (r, (m', s'))"
        using Suc.prems(1) rnd Inr by (simp add: abind_def on_snd_def)
      from Suc.IH [OF this later Suc.prems(3)] False Suc.prems(3) [of st] Inr rnd clock show ?thesis
        by (auto simp: abind_def on_snd_def intro: same_clock_trans)
    qed
  qed
qed

lemma create_refines:
  assumes "mem_create_state_entry e ttl (m, s) = (r, (m', s'))" and "refines s m a" and "steady_monotone s"
  shows "\<exists>a'. spec_create e ttl (a, s) = (r, (a', s')) \<and> refines s' m' a' \<and> same_clock s s'"
proof -
  let ?now = "steady_ticks s (steady_pos s)" and ?s = "s\<lparr>steady_pos := Suc (steady_pos s)\<rparr>"
  have run: "mem_attempts 8 e ttl (sweep ?now m, ?s) = (r, (m', s'))"
    using assms(1) by (simp add: mem_create_state_entry_def abind_def del: mem_attempts.simps)
  have clock: "same_clock s ?s" by (simp add: same_clock_def)
  have "refines ?s (sweep ?now m) a" by (rule refines_sweep [OF assms(2,3) clock]) simp
  moreover have "sweep ?now m st = None \<longleftrightarrow> live a ?now st = None" for st
    using refinesD [OF assms(2), of "steady_pos s" st] by (metis map_option_is_None order_refl)
  ultimately show ?thesis
    using attempts_refine [OF run, of a ?now] clock
    by (auto simp: spec_create_def abind_def simp del: spec_attempts.simps intro: same_clock_trans)
qed

theorem run_ops_refines:
  assumes "run_ops mem_create_state_entry mem_consume_state_entry ops (m, s) = (obs, (m', s'))"
    and "refines s m a" and "steady_monotone s"
  shows "\<exists>a'. run_ops spec_create spec_consume ops (a, s) = (obs, (a', s')) \<and> refines s' m' a'"
  using assms
proof (induction ops arbitrary: m s a obs)
  case (Cons p ops)
  show ?case
  proof (cases p)
    case (Op_create e ttl)
    obtain r m1 s1 where st: "mem_create_state_entry e ttl (m, s) = (r, (m1, s1))"
      by (cases "mem_create_state_entry e ttl (m, s)") auto
    from create_refines [OF this Cons.prems(2,3)] obtain a1 where
      a1: "spec_create e ttl (a, s) = (r, (a1, s1))" "refines s1 m1 a1" "same_clock s s1" by blast
    from Cons.IH [OF _ a1(2) same_clock_monotone [OF a1(3) Cons.prems(3)]] Cons.prems(1) st a1(1)
    show ?thesis by (fastforce simp: Op_create split: prod.splits)
  next
    case (Op_consume st)
    obtain r m1 s1 where c: "mem_consume_state_entry st (m, s) = (r, (m1, s1))"
      by (cases "mem_consume_state_entry st (m, s)") auto
    from consume_refines [OF this Cons.prems(2,3)] obtain a1 where
      a1: "spec_consume st (a, s) = (r, (a1, s1))" "refines s1 m1 a1" "same_clock s s1" by blast
    from Cons.IH [OF _ a1(2) same_clock_monotone [OF a1(3) Cons.prems(3)]] Cons.prems(1) c a1(1)
    show ?thesis by (fastforce simp: Op_consume split: prod.splits)
  qed
qed simp

section \<open>A state stays redeemable\<close>

text \<open>
  Between two operations of the store its clients read the clocks and draw random bytes: the
  environment moves on, but the clock remains the clock.
\<close>

definition env_advance :: "'a \<times> sysenv \<Rightarrow> 'a \<times> sysenv \<Rightarrow> bool" where
  "env_advance w w' \<longleftrightarrow> fst w' = fst w \<and> same_clock (snd w) (snd w')"

abbreviation mem_steps :: "mem_world \<Rightarrow> store_obs list \<Rightarrow> mem_world \<Rightarrow> bool" where
  "mem_steps \<equiv> store_steps mem_create_state_entry mem_consume_state_entry env_advance"

lemma mem_attempts_clock:
  "mem_attempts n e ttl (m, s) = (r, (m', s')) \<Longrightarrow> same_clock s s' \<and> (m st = Some me \<longrightarrow> m' st = Some me)"
proof (induction n arbitrary: s)
  case 0
  then show ?case by (simp add: same_clock_def)
next
  case (Suc n)
  obtain rr s1 where rnd: "random_state_32 s = (rr, s1)" by (cases "random_state_32 s")
  note clock = random_state_steady [OF rnd]
  show ?case
  proof (cases rr)
    case (Inl x)
    with Suc.prems rnd clock show ?thesis by (auto simp: abind_def on_snd_def)
  next
    case (Inr st1)
    show ?thesis
    proof (cases "m st1 = None")
      case True
      then have "mem_insert st1 e ttl (m, s1) = (r, (m', s'))"
        using Suc.prems rnd Inr by (simp add: abind_def on_snd_def)
      from mem_insert_Inr [OF this] True clock show ?thesis by (auto simp: same_clock_def)
    next
      case False
      then have "mem_attempts n e ttl (m, s1) = (r, (m', s'))"
        using Suc.prems rnd Inr by (simp add: abind_def on_snd_def)
      from Suc.IH [OF this] clock show ?thesis by (auto intro: same_clock_trans)
    qed
  qed
qed

lemma mem_create_clock:
  assumes "mem_create_state_entry e ttl (m, s) = (r, (m', s'))"
  shows "same_clock s s' \<and>
    (m st = Some me \<and> steady_ticks s (steady_pos s) < me_expires_at me \<longrightarrow> m' st = Some me) \<and>
    steady_pos s < steady_pos s'"
proof -
  let ?m = "sweep (steady_ticks s (steady_pos s)) m" and ?s = "s\<lparr>steady_pos := Suc (steady_pos s)\<rparr>"
  have "mem_attempts 8 e ttl (?m, ?s) = (r, (m', s'))"
    using assms by (simp add: mem_create_state_entry_def abind_def del: mem_attempts.simps)
  from mem_attempts_clock [OF this, of st me] show ?thesis
    by (auto simp: same_clock_def sweep_def)
qed

lemma mem_consume_clock:
  assumes "mem_consume_state_entry st' (m, s) = (r, (m', s'))"
  shows "same_clock s s' \<and> steady_pos s < steady_pos s' \<and>
    (m st = Some me \<and> steady_ticks s (steady_pos s) < me_expires_at me \<and> st' \<noteq> st \<longrightarrow> m' st = Some me)"
  using assms by (auto simp: mem_consume_eq Let_def same_clock_def sweep_def)

lemma mem_steps_clock: "mem_steps w obs w' \<Longrightarrow> same_clock (snd w) (snd w')"
proof (induction rule: store_steps.induct)
  case (create e ttl w r w1 obs w')
  then show ?case
    by (cases w; cases w1) (auto dest: mem_create_clock intro: same_clock_trans)
next
  case (consume st w r w1 obs w')
  then show ?case
    by (cases w; cases w1) (auto dest: mem_consume_clock intro: same_clock_trans)
next
  case (noise w w1 obs w')
  then show ?case by (auto simp: env_advance_def intro: same_clock_trans)
qed (simp add: same_clock_def)

text \<open>An operation that has run before the deadline did not sweep the entry away.\<close>

lemma before_deadline:
  assumes "same_clock s s1" and "same_clock s1 s'" and "steady_monotone s"
    and "steady_pos s < steady_pos s1" and "steady_ticks s' (steady_pos s') < d"
  shows "steady_ticks s (steady_pos s) < d"
proof -
  have "steady_ticks s (steady_pos s) \<le> steady_ticks s (steady_pos s')"
    using assms(1-4) by (simp add: steady_monotone_def same_clock_def)
  with assms show ?thesis by (simp add: same_clock_def)
qed

lemma entry_stays:
  assumes "mem_steps w obs w'" and "fst w st = Some me" and "steady_monotone (snd w)"
    and "\<And>r. Consumed st r \<notin> set obs"
    and "steady_ticks (snd w') (steady_pos (snd w')) < me_expires_at me"
  shows "fst w' st = Some me"
  using assms
proof (induction rule: store_steps.induct)
  case (create e ttl w r w1 obs w')
  obtain m s m1 s1 where w: "w = (m, s)" "w1 = (m1, s1)" by (cases w; cases w1)
  note c = mem_create_clock [OF create.hyps(1) [unfolded w], of st me]
  have "steady_ticks s (steady_pos s) < me_expires_at me"
    using before_deadline [of s s1 "snd w'"] c mem_steps_clock [OF create.hyps(2)] create.prems(2,4)
    by (simp add: w)
  with c create.prems w show ?case
    by (intro create.IH) (auto intro: same_clock_monotone)
next
  case (consume st' w r w1 obs w')
  obtain m s m1 s1 where w: "w = (m, s)" "w1 = (m1, s1)" by (cases w; cases w1)
  note c = mem_consume_clock [OF consume.hyps(1) [unfolded w], of st me]
  have "steady_ticks s (steady_pos s) < me_expires_at me"
    using before_deadline [of s s1 "snd w'"] c mem_steps_clock [OF consume.hyps(2)] consume.prems(2,4)
    by (simp add: w)
  moreover have "st' \<noteq> st" using consume.prems(3) by auto
  ultimately show ?case using c consume.prems w by (intro consume.IH) (auto intro: same_clock_monotone)
next
  case (noise w w1 obs w')
  then show ?case by (intro noise.IH) (auto simp: env_advance_def intro: same_clock_monotone)
qed simp

lemma redeemable:
  assumes "mem_create_state_entry e ttl w = (Inr st, w1)" and "mem_steps w1 obs w2"
    and "steady_monotone (snd w)" and "\<And>r. Consumed st r \<notin> set obs"
    and "steady_ticks (snd w2) (steady_pos (snd w2)) <
      steady_ticks (snd w) (Suc (steady_pos (snd w))) + ttl * 10 ^ 9"
  shows "\<exists>w3. mem_consume_state_entry st w2 = (Inr (Some e), w3)"
proof -
  obtain m s m1 s1 m2 s2 where w: "w = (m, s)" "w1 = (m1, s1)" "w2 = (m2, s2)" by (cases w; cases w1; cases w2)
  let ?me = "new_entry e (steady_ticks s (Suc (steady_pos s))) ttl"
  have m1: "m1 st = Some ?me" using mem_create_result [OF assms(1) [unfolded w]] by auto
  have clock: "same_clock s s1" using mem_create_clock [OF assms(1) [unfolded w]] by blast
  have d: "me_expires_at ?me = steady_ticks s (Suc (steady_pos s)) + ttl * 10 ^ 9" by (simp add: new_entry_def)
  have "m2 st = Some ?me"
    using entry_stays [OF assms(2), of st ?me] m1 same_clock_monotone [OF clock] assms(3,4,5) by (simp add: w d)
  then show ?thesis using assms(5) by (auto simp: w mem_consume_eq Let_def sweep_def d)
qed

end
