(* ===== verification/LoginLiveness.thy ===== *)
theory LoginLiveness
  imports LoginFlow StoreSpec
begin

text \<open>
  Availability of the login flow over the memory store: a user who comes back with a state that was
  issued to them, in time and for the first time, is never turned away by the library. The callback
  reaches the code exchange of the realm of the login, and its outcome is the outcome of that
  exchange.
\<close>

lemma generate_random_string_steady:
  "generate_random_string n s = (r, s') \<Longrightarrow> same_clock s s' \<and> steady_pos s' = steady_pos s"
  by (auto simp: generate_random_string_def abind_def RAND_bytes_def same_clock_def split: option.splits)

lemma generate_pkce_pair_steady:
  assumes "generate_pkce_pair lib n s = (r, s')"
  shows "same_clock s s' \<and> steady_pos s' = steady_pos s"
proof -
  obtain x s1 where x: "generate_random_string (if (if n < 43 then 43 else n) > 128 then 128 else if n < 43 then 43 else n) s = (x, s1)"
    by fastforce
  have "s' = s1" using assms x by (auto simp: generate_pkce_pair_def abind_def Let_def split: sum.splits prod.splits)
  with generate_random_string_steady [OF x] show ?thesis by simp
qed

lemma generate_pkce_pair_fills: "generate_pkce_pair lib n s = (r, s') \<Longrightarrow> rand_fills s' = rand_fills s"
  by (auto simp: generate_pkce_pair_def generate_random_string_def abind_def RAND_bytes_def rand_fills_def Let_def
      split: option.splits sum.splits prod.splits)

lemma random_state_fills: "random_state_32 s = (r, s') \<Longrightarrow> rand_fills s' = rand_fills s"
  by (auto simp: random_state_32_def abind_def RAND_bytes_def rand_fills_def split: option.splits)

lemma mem_attempts_length:
  "mem_attempts n e ttl (m, s) = (Inr st, w') \<Longrightarrow> rand_fills s \<Longrightarrow> length st = 32"
proof (induction n arbitrary: s)
  case (Suc n)
  obtain rr s1 where rnd: "random_state_32 s = (rr, s1)" by (cases "random_state_32 s")
  with Suc.prems obtain st1 where st1: "rr = Inr st1" by (cases rr) (auto simp: abind_def on_snd_def)
  show ?case
  proof (cases "m st1 = None")
    case True
    then have "mem_insert st1 e ttl (m, s1) = (Inr st, w')"
      using Suc.prems(1) rnd st1 by (simp add: abind_def on_snd_def)
    then have "st = st1" by (cases w') (auto dest: mem_insert_Inr(1))
    with random_state_shape rnd st1 Suc.prems(2) show ?thesis by blast
  next
    case False
    with Suc rnd st1 random_state_fills [OF rnd] show ?thesis by (simp add: abind_def on_snd_def)
  qed
qed simp

lemma mem_create_length:
  "mem_create_state_entry e ttl (m, s) = (Inr st, w') \<Longrightarrow> rand_fills s \<Longrightarrow> length st = 32"
  by (auto simp: mem_create_state_entry_def abind_def rand_fills_def simp del: mem_attempts.simps
      dest!: mem_attempts_length)

text \<open>The outcome of a callback with a live entry is the outcome of the exchange.\<close>

lemma manager_complete_login_consumes:
  assumes "consume (cb_state inp) (fst w) = (Inr (Some e), v)" and "mg_realms m (se_realm e) = Some rt"
    and "cb_code inp \<noteq> []" and "cb_state inp \<noteq> []"
    and "exchange_authorization_code lib (mc_token rt) (cb_code inp) (se_code_verifier e) (snd w) = (x, h)"
  shows "manager_complete_login lib consume m inp w =
    (map_sum id (\<lambda>oa. callback_of oa (rc_realm (mc_realm rt))) x, (v, h))"
  using assms
  by (cases w; cases x) (simp_all add: manager_complete_login_def abind_def on_fst_def on_snd_def)

lemma manager_login_succeeds:
  assumes start: "manager_start_login plib mem_create_state_entry m realm ttl w = (Inr a, w1)"
    and names: "\<And>rt. mg_realms m realm = Some rt \<Longrightarrow> rc_realm (mc_realm rt) = realm"
    and env: "steady_monotone (snd w)" "rand_fills (snd w)"
    and between: "mem_steps w1 obs (fst w2)" "\<And>r. Consumed (as_state a) r \<notin> set obs"
    and in_time: "steady_ticks (snd (fst w2)) (steady_pos (snd (fst w2))) <
      steady_ticks (snd w) (Suc (steady_pos (snd w))) + ttl * 10 ^ 9"
    and inp: "cb_code inp \<noteq> []" "cb_state inp = as_state a"
  shows "\<exists>rt pkce x v. mg_realms m realm = Some rt \<and>
    fst (generate_pkce_pair plib (rc_pkce_verifier_len (mc_realm rt)) (snd w)) = Inr pkce \<and>
    a = create_authorization_url (mc_realm rt) (as_state a) pkce \<and>
    exchange_authorization_code lib (mc_token rt) (cb_code inp) (code_verifier pkce) (snd w2) = x \<and>
    manager_complete_login lib mem_consume_state_entry m inp w2 =
      (map_sum id (\<lambda>oa. callback_of oa realm) (fst x), (v, snd x))"
proof -
  from start obtain rt pkce w0 where rt: "mg_realms m realm = Some rt"
    and pkce: "generate_pkce_pair plib (rc_pkce_verifier_len (mc_realm rt)) (snd w) = (Inr pkce, snd w0)"
    and cr: "mem_create_state_entry \<lparr>se_code_verifier = code_verifier pkce, se_realm = rc_realm (mc_realm rt)\<rparr> ttl w0 =
      (Inr (as_state a), w1)"
    and a: "a = create_authorization_url (mc_realm rt) (as_state a) pkce"
    by (rule manager_start_login_Inr) blast
  from generate_pkce_pair_steady [OF pkce] have clock: "same_clock (snd w) (snd w0)"
    "steady_pos (snd w0) = steady_pos (snd w)" by simp_all
  have fills: "rand_fills (snd w0)"
    using generate_pkce_pair_fills [OF pkce] env(2) by simp
  have "length (as_state a) = 32" using mem_create_length [of _ ttl "fst w0" "snd w0"] cr fills by simp
  then have ne: "cb_state inp \<noteq> []" using inp(2) by auto
  have "\<exists>w3. mem_consume_state_entry (as_state a) (fst w2) =
      (Inr (Some \<lparr>se_code_verifier = code_verifier pkce, se_realm = rc_realm (mc_realm rt)\<rparr>), w3)"
    by (rule redeemable [OF cr between(1) same_clock_monotone [OF clock(1) env(1)] between(2)])
      (use in_time clock in \<open>simp add: same_clock_def\<close>)
  then obtain v where con: "mem_consume_state_entry (cb_state inp) (fst w2) =
      (Inr (Some \<lparr>se_code_verifier = code_verifier pkce, se_realm = realm\<rparr>), v)"
    using names [OF rt] inp(2) by auto
  obtain x h where ex: "exchange_authorization_code lib (mc_token rt) (cb_code inp) (code_verifier pkce) (snd w2) = (x, h)"
    by fastforce
  have "manager_complete_login lib mem_consume_state_entry m inp w2 =
      (map_sum id (\<lambda>oa. callback_of oa realm) x, (v, h))"
    using manager_complete_login_consumes [of mem_consume_state_entry inp w2, OF con, of m rt lib x h] rt ex inp(1) ne names [OF rt] by simp
  with rt a ex pkce show ?thesis by auto
qed

end
