(* ===== verification/ValidatorThreads.thy ===== *)
theory ValidatorThreads
  imports TokenValidator
begin

text \<open>
  Concurrent validations on one \<open>AccessTokenValidator\<close>. \<open>validate\<close> is a coroutine that shares the
  key cache with every other validation: it takes the cache mutex to read the keys, suspends while
  the key set is fetched, and takes the mutex again to store what came back. Here a validation is a
  thread with a program counter between these points; \<open>vt_step\<close> is the code from one point to the
  next. Run on its own, a thread computes exactly \<open>validate\<close> (\<open>vt_run_validate\<close>). The step relation
  \<open>v_steps\<close> interleaves any number of threads, with other users of the environment in between.
\<close>

section \<open>A validation as a thread\<close>

datatype vpc =
    V_begin
  | V_send decoded_jwt string string
  | V_reply decoded_jwt string string http_response
  | V_check decoded_jwt string string "jwk list"
  | V_done "jwt_result res"

text \<open>Up to the reading of the cache.\<close>

definition v_begin :: "auth_config \<Rightarrow> string \<Rightarrow> ('h vworld, vpc) act" where
  "v_begin cfg tok =
     (let reject = (\<lambda>st err. aret (V_done (Inr (failure st err)))) in
      if expected_issuer cfg = [] then reject 500 ''auth_config_missing_expected_issuer''
      else if jwks_url cfg = [] then reject 500 ''auth_config_missing_jwks_url''
      else if require_audience cfg \<and> expected_audience cfg = []
      then reject 500 ''auth_config_missing_expected_audience''
      else if tok = [] then reject 401 ''missing_access_token''
      else
        (case decode_jwt tok of
           None \<Rightarrow> reject 401 ''invalid_jwt_format''
         | Some jwt \<Rightarrow>
             abind (alift (json_string_or (header_json jwt) ''alg'' [])) (\<lambda>alg.
               if alg = [] then reject 401 ''jwt_missing_alg''
               else if evp_digest_for_alg alg = None then reject 401 ''unsupported_jwt_alg''
               else
                 abind (alift (json_string_or (header_json jwt) ''kid'' [])) (\<lambda>kid.
                   if kid = [] then reject 401 ''jwt_missing_kid''
                   else
                     abind v_system (\<lambda>_.
                     abind cached_keys (\<lambda>keys.
                       aret (if keys \<noteq> [] then V_check jwt alg kid keys else V_send jwt alg kid)))))))"

text \<open>The request for the key set; the thread is suspended until the response is there.\<close>

definition v_send ::
  "('h, 'm) http_lib_scheme \<Rightarrow> auth_config \<Rightarrow> decoded_jwt \<Rightarrow> string \<Rightarrow> string \<Rightarrow> ('h vworld, vpc) act" where
  "v_send lib cfg jwt alg kid =
     abind (alift (make_json_get lib (jwks_url cfg) None)) (\<lambda>req.
     abind (on_snd (http_send lib req)) (\<lambda>resp. aret (V_reply jwt alg kid resp)))"

text \<open>From the response to the storing of the keys.\<close>

definition v_reply ::
  "auth_config \<Rightarrow> decoded_jwt \<Rightarrow> string \<Rightarrow> string \<Rightarrow> http_response \<Rightarrow> ('h vworld, vpc) act" where
  "v_reply cfg jwt alg kid resp =
     (if \<not> is_2xx (effective_status resp) then aret (V_done (Inr (failure 502 ''jwks_fetch_failed'')))
      else
        abind (alift (extract_jwks (resp_body resp))) (\<lambda>keys.
          if keys = [] then aret (V_done (Inr (failure 502 ''jwks_parse_failed'')))
          else
            abind v_steady (\<lambda>now.
            abind (alift (steady_add now (jwks_cache_ttl cfg))) (\<lambda>expires. \<lambda>w.
              (Inr (V_check jwt alg kid keys), set_cache \<lparr>ca_keys = keys, ca_expires_at = expires\<rparr> w)))))"

text \<open>An exception ends the thread.\<close>

definition absorb :: "('w, vpc) act \<Rightarrow> 'w \<Rightarrow> vpc \<times> 'w" where
  "absorb m w = (case m w of (r, w') \<Rightarrow> (case r of Inl e \<Rightarrow> V_done (Inl e) | Inr pc \<Rightarrow> pc, w'))"

fun vt_step ::
  "('h, 'm) http_lib_scheme \<Rightarrow> openssl \<Rightarrow> auth_config \<Rightarrow> string \<Rightarrow> vpc \<Rightarrow> 'h vworld \<Rightarrow> vpc \<times> 'h vworld" where
  "vt_step lib ssl cfg tok V_begin = absorb (v_begin cfg tok)"
| "vt_step lib ssl cfg tok (V_send jwt alg kid) = absorb (v_send lib cfg jwt alg kid)"
| "vt_step lib ssl cfg tok (V_reply jwt alg kid resp) = absorb (v_reply cfg jwt alg kid resp)"
| "vt_step lib ssl cfg tok (V_check jwt alg kid keys) =
     absorb (abind (check_signed ssl cfg jwt alg kid keys) (\<lambda>r. aret (V_done (Inr r))))"
| "vt_step lib ssl cfg tok (V_done r) = (\<lambda>w. (V_done r, w))"

fun vt_run ::
  "('h, 'm) http_lib_scheme \<Rightarrow> openssl \<Rightarrow> auth_config \<Rightarrow> string \<Rightarrow> nat \<Rightarrow> vpc \<Rightarrow> 'h vworld \<Rightarrow> vpc \<times> 'h vworld" where
  "vt_run lib ssl cfg tok 0 pc w = (pc, w)"
| "vt_run lib ssl cfg tok (Suc n) pc w =
     (case vt_step lib ssl cfg tok pc w of (pc', w') \<Rightarrow> vt_run lib ssl cfg tok n pc' w')"

section \<open>A thread on its own computes the validation\<close>

text \<open>What is left to do at a program point, in one piece.\<close>

fun vt_rest ::
  "('h, 'm) http_lib_scheme \<Rightarrow> openssl \<Rightarrow> auth_config \<Rightarrow> string \<Rightarrow> vpc \<Rightarrow> ('h vworld, jwt_result) act" where
  "vt_rest lib ssl cfg tok V_begin = validate lib ssl cfg tok"
| "vt_rest lib ssl cfg tok (V_send jwt alg kid) =
     abind (refresh_jwks lib cfg) (\<lambda>refreshed.
       if \<not> jf_ok refreshed then aret (failure (jf_http_status refreshed) (jf_error refreshed))
       else check_signed ssl cfg jwt alg kid (jf_keys refreshed))"
| "vt_rest lib ssl cfg tok (V_reply jwt alg kid resp) =
     abind (v_reply cfg jwt alg kid resp) (\<lambda>pc.
       case pc of V_check _ _ _ keys \<Rightarrow> check_signed ssl cfg jwt alg kid keys | V_done r \<Rightarrow> alift r
       | _ \<Rightarrow> athrow Diverges)"
| "vt_rest lib ssl cfg tok (V_check jwt alg kid keys) = check_signed ssl cfg jwt alg kid keys"
| "vt_rest lib ssl cfg tok (V_done r) = alift r"

text \<open>The number of steps a thread can still make.\<close>

fun vt_left :: "vpc \<Rightarrow> nat" where
  "vt_left V_begin = 4"
| "vt_left (V_send jwt alg kid) = 3"
| "vt_left (V_reply jwt alg kid resp) = 2"
| "vt_left (V_check jwt alg kid keys) = 1"
| "vt_left (V_done r) = 0"

lemma vt_left_done: "vt_left pc = 0 \<longleftrightarrow> (\<exists>r. pc = V_done r)"
  by (cases pc) auto

lemma absorb_abind:
  "absorb (abind m f) w = (case m w of (Inl e, w') \<Rightarrow> (V_done (Inl e), w') | (Inr x, w') \<Rightarrow> absorb (f x) w')"
  by (simp add: absorb_def abind_def split: prod.splits sum.splits)

lemma absorb_simps [simp]: "absorb (aret pc) w = (pc, w)" "absorb (athrow e) w = (V_done (Inl e), w)"
  "absorb (\<lambda>w. (Inr pc, f w)) w = (pc, f w)"
  by (simp_all add: absorb_def)

lemma vt_step_left:
  "vt_step lib ssl cfg tok pc w = (pc', w') \<Longrightarrow> vt_left pc \<noteq> 0 \<Longrightarrow> vt_left pc' < vt_left pc"
  by (cases pc) (auto simp: absorb_def v_begin_def v_send_def v_reply_def abind_def Let_def
      split: prod.splits sum.splits if_splits option.splits)

lemma vt_rest_begin:
  "vt_rest lib ssl cfg tok V_begin w =
    (case vt_step lib ssl cfg tok V_begin w of (pc', w') \<Rightarrow> vt_rest lib ssl cfg tok pc' w')"
  by (auto simp: absorb_def v_begin_def validate_def validate_jwt_def abind_def Let_def
      split: prod.splits sum.splits if_splits option.splits)

lemma vt_rest_send:
  "vt_rest lib ssl cfg tok (V_send jwt alg kid) w =
    (case vt_step lib ssl cfg tok (V_send jwt alg kid) w of (pc', w') \<Rightarrow> vt_rest lib ssl cfg tok pc' w')"
  by (auto simp: absorb_def v_send_def v_reply_def refresh_jwks_def abind_def
      split: prod.splits sum.splits if_splits)

lemma vt_rest_step:
  "vt_rest lib ssl cfg tok pc w =
    (case vt_step lib ssl cfg tok pc w of (pc', w') \<Rightarrow> vt_rest lib ssl cfg tok pc' w')"
proof (cases pc)
  case (V_reply jwt alg kid resp)
  then show ?thesis
    by (auto simp: absorb_def v_reply_def abind_def split: prod.splits sum.splits if_splits)
next
  case (V_check jwt alg kid keys)
  then show ?thesis by (auto simp: absorb_def abind_def split: prod.splits sum.splits)
next
  case V_begin
  then show ?thesis by (simp only: vt_rest_begin)
next
  case (V_send jwt alg kid)
  then show ?thesis by (simp only: vt_rest_send)
qed simp

lemma vt_run_rest:
  "vt_left pc \<le> n \<Longrightarrow> vt_run lib ssl cfg tok n pc w =
    (case vt_rest lib ssl cfg tok pc w of (r, w') \<Rightarrow> (V_done r, w'))"
proof (induction n arbitrary: pc w)
  case 0
  then show ?case by (auto simp: vt_left_done)
next
  case (Suc n)
  obtain pc' w' where st: "vt_step lib ssl cfg tok pc w = (pc', w')"
    by (cases "vt_step lib ssl cfg tok pc w")
  have "vt_left pc' \<le> n" using vt_step_left [OF st] Suc.prems st by (cases "vt_left pc = 0") (auto simp: vt_left_done)
  from Suc.IH [OF this] st show ?case by (simp add: vt_rest_step [of lib ssl cfg tok pc w])
qed

lemma vt_run_validate:
  "vt_run lib ssl cfg tok 4 V_begin w = (case validate lib ssl cfg tok w of (r, w') \<Rightarrow> (V_done r, w'))"
  using vt_run_rest [of V_begin 4] by simp

section \<open>Many threads\<close>

text \<open>
  \<open>sy_replies\<close> records the responses to requests for the key set; no code reads it, the statements
  below do. \<open>At_thread i\<close> is a step of thread \<open>i\<close>, \<open>New_call tok\<close> a new validation; in between,
  others may use the clocks and the HTTP client.
\<close>

record 'h vsystem =
  sy_world :: "'h vworld"
  sy_threads :: "(string \<times> vpc) list"
  sy_replies :: "http_response list"

datatype vevent = At_thread nat | New_call string | Elsewhere

definition reply_of :: "vpc \<Rightarrow> vpc \<Rightarrow> http_response list" where
  "reply_of pc pc' = (case (pc, pc') of (V_send _ _ _, V_reply _ _ _ resp) \<Rightarrow> [resp] | _ \<Rightarrow> [])"

definition run_thread ::
  "('h, 'm) http_lib_scheme \<Rightarrow> openssl \<Rightarrow> auth_config \<Rightarrow> nat \<Rightarrow> 'h vsystem \<Rightarrow> 'h vsystem" where
  "run_thread lib ssl cfg i sy =
     (case sy_threads sy ! i of (tok, pc) \<Rightarrow>
        (case vt_step lib ssl cfg tok pc (sy_world sy) of (pc', w') \<Rightarrow>
           \<lparr>sy_world = w', sy_threads = (sy_threads sy)[i := (tok, pc')],
            sy_replies = sy_replies sy @ reply_of pc pc'\<rparr>))"

definition env_later :: "'h vworld \<Rightarrow> 'h vworld \<Rightarrow> bool" where
  "env_later w w' \<longleftrightarrow> v_cache w' = v_cache w \<and> steady_ticks (v_sys w') = steady_ticks (v_sys w) \<and>
     wall_secs (v_sys w') = wall_secs (v_sys w) \<and> steady_pos (v_sys w) \<le> steady_pos (v_sys w') \<and>
     wall_pos (v_sys w) \<le> wall_pos (v_sys w')"

inductive v_steps ::
  "('h, 'm) http_lib_scheme \<Rightarrow> openssl \<Rightarrow> auth_config \<Rightarrow> 'h vsystem \<Rightarrow> vevent list \<Rightarrow> 'h vsystem \<Rightarrow> bool"
  for lib ssl cfg where
  v_stop: "v_steps lib ssl cfg sy [] sy"
| v_thread: "v_steps lib ssl cfg sy evs sy1 \<Longrightarrow> i < length (sy_threads sy1) \<Longrightarrow>
    v_steps lib ssl cfg sy (evs @ [At_thread i]) (run_thread lib ssl cfg i sy1)"
| v_call: "v_steps lib ssl cfg sy evs sy1 \<Longrightarrow>
    v_steps lib ssl cfg sy (evs @ [New_call tok]) (sy1\<lparr>sy_threads := sy_threads sy1 @ [(tok, V_begin)]\<rparr>)"
| v_elsewhere: "v_steps lib ssl cfg sy evs sy1 \<Longrightarrow> env_later (sy_world sy1) w \<Longrightarrow>
    v_steps lib ssl cfg sy (evs @ [Elsewhere]) (sy1\<lparr>sy_world := w\<rparr>)"

lemma v_steps_append:
  "v_steps lib ssl cfg sy1 evs1 sy2 \<Longrightarrow> v_steps lib ssl cfg sy0 evs0 sy1 \<Longrightarrow> v_steps lib ssl cfg sy0 (evs0 @ evs1) sy2"
proof (induction rule: v_steps.induct)
  case (v_thread sy evs sy1 i)
  then show ?case using v_steps.v_thread by (metis append_assoc)
next
  case (v_call sy evs sy1 tok)
  then show ?case using v_steps.v_call by (metis append_assoc)
next
  case (v_elsewhere sy evs sy1 w)
  then show ?case using v_steps.v_elsewhere by (metis append_assoc)
qed simp

inductive_simps v_steps_Nil [simp]: "v_steps lib ssl cfg sy [] sy'"

text \<open>A validator as constructed: an empty cache and no call yet.\<close>

definition v_start :: "'h vsystem \<Rightarrow> bool" where
  "v_start sy \<longleftrightarrow> ca_keys (v_cache (sy_world sy)) = [] \<and> sy_threads sy = [] \<and> sy_replies sy = []"

text \<open>Any schedule of the threads that are there is a run.\<close>

lemma fold_run_thread_length [simp]:
  "length (sy_threads (fold (run_thread lib ssl cfg) sched sy)) = length (sy_threads sy)"
  by (induction sched arbitrary: sy) (simp_all add: run_thread_def split: prod.splits)

lemma v_steps_schedule:
  "\<forall>i \<in> set sched. i < length (sy_threads sy) \<Longrightarrow>
    v_steps lib ssl cfg sy (map At_thread sched) (fold (run_thread lib ssl cfg) sched sy)"
proof (induction sched rule: rev_induct)
  case (snoc i sched)
  then show ?case using v_steps.v_thread [of lib ssl cfg sy "map At_thread sched" _ i] by simp
qed simp

section \<open>No thread is held up by the others\<close>

lemma run_thread_length [simp]: "length (sy_threads (run_thread lib ssl cfg i sy)) = length (sy_threads sy)"
  by (simp add: run_thread_def split: prod.splits)

lemma run_thread_left:
  assumes "j < length (sy_threads sy)"
  shows "vt_left (snd (sy_threads (run_thread lib ssl cfg i sy) ! j)) \<le>
    vt_left (snd (sy_threads sy ! j)) - (if i = j then 1 else 0)"
proof (cases "i = j")
  case True
  obtain tok pc where t: "sy_threads sy ! j = (tok, pc)" by fastforce
  obtain pc' w' where st: "vt_step lib ssl cfg tok pc (sy_world sy) = (pc', w')"
    by (cases "vt_step lib ssl cfg tok pc (sy_world sy)")
  have "vt_left pc' \<le> vt_left pc - 1"
  proof (cases "vt_left pc = 0")
    case True
    then obtain r where "pc = V_done r" by (auto simp: vt_left_done)
    with st show ?thesis by auto
  qed (use vt_step_left [OF st] in simp)
  with t st True assms show ?thesis by (simp add: run_thread_def)
qed (auto simp: run_thread_def split: prod.splits)

lemma v_steps_left:
  assumes "v_steps lib ssl cfg sy evs sy'" and "j < length (sy_threads sy)"
  shows "j < length (sy_threads sy') \<and>
    vt_left (snd (sy_threads sy' ! j)) + count_list evs (At_thread j) \<le>
    max (vt_left (snd (sy_threads sy ! j))) (count_list evs (At_thread j))"
  using assms
proof (induction rule: v_steps.induct)
  case (v_thread sy evs sy1 i)
  then have "j < length (sy_threads sy1)" by simp
  from run_thread_left [OF this, of lib ssl cfg i] v_thread show ?case by (auto split: if_splits)
next
  case (v_call sy evs sy1 tok)
  then show ?case by (auto simp: nth_append)
qed auto

lemma v_steps_done:
  assumes "v_steps lib ssl cfg sy evs sy'" and "j < length (sy_threads sy)"
    and "vt_left (snd (sy_threads sy ! j)) \<le> count_list evs (At_thread j)"
  shows "\<exists>r. snd (sy_threads sy' ! j) = V_done r"
  using v_steps_left [OF assms(1,2)] assms(3) by (auto simp: vt_left_done [symmetric])

text \<open>A call keeps its token.\<close>

lemma v_steps_token:
  assumes "v_steps lib ssl cfg sy evs sy'" and "j < length (sy_threads sy)"
  shows "j < length (sy_threads sy') \<and> fst (sy_threads sy' ! j) = fst (sy_threads sy ! j)"
  using assms
proof (induction rule: v_steps.induct)
  case (v_thread sy evs sy1 i)
  then show ?case by (cases "i = j") (auto simp: run_thread_def split: prod.splits)
next
  case (v_call sy evs sy1 tok)
  then show ?case by (auto simp: nth_append)
qed auto

section \<open>What holds in every reachable state\<close>

definition published :: "http_response list \<Rightarrow> jwk list \<Rightarrow> bool" where
  "published replies keys \<longleftrightarrow>
     (\<exists>resp \<in> set replies. is_2xx (effective_status resp) \<and> extract_jwks (resp_body resp) = Inr keys)"

text \<open>An acceptance with its grounds: published keys, and a reading of the clock.\<close>

definition vouched ::
  "openssl \<Rightarrow> auth_config \<Rightarrow> sysenv \<Rightarrow> http_response list \<Rightarrow> string \<Rightarrow> jwt_result \<Rightarrow> bool" where
  "vouched ssl cfg s replies tok r \<longleftrightarrow> config_ok cfg \<and>
     (\<exists>jwt keys i. decode_jwt tok = Some jwt \<and> published replies keys \<and> i < wall_pos s \<and>
        authentic ssl cfg keys (wall_secs s i) jwt \<and> accepts (payload_json jwt) r)"

fun pc_ok :: "openssl \<Rightarrow> auth_config \<Rightarrow> sysenv \<Rightarrow> http_response list \<Rightarrow> string \<Rightarrow> vpc \<Rightarrow> bool" where
  "pc_ok ssl cfg s replies tok V_begin = True"
| "pc_ok ssl cfg s replies tok (V_send jwt alg kid) =
     (config_ok cfg \<and> decode_jwt tok = Some jwt \<and> header_ok jwt alg kid)"
| "pc_ok ssl cfg s replies tok (V_reply jwt alg kid resp) =
     (config_ok cfg \<and> decode_jwt tok = Some jwt \<and> header_ok jwt alg kid \<and> resp \<in> set replies)"
| "pc_ok ssl cfg s replies tok (V_check jwt alg kid keys) =
     (config_ok cfg \<and> decode_jwt tok = Some jwt \<and> header_ok jwt alg kid \<and> published replies keys)"
| "pc_ok ssl cfg s replies tok (V_done r) =
     (case r of Inl _ \<Rightarrow> True
      | Inr res \<Rightarrow> if jv_ok res then vouched ssl cfg s replies tok res else rejects {401, 403, 500, 502} res)"

definition v_inv :: "openssl \<Rightarrow> auth_config \<Rightarrow> 'h vsystem \<Rightarrow> bool" where
  "v_inv ssl cfg sy \<longleftrightarrow>
     (ca_keys (v_cache (sy_world sy)) \<noteq> [] \<longrightarrow> published (sy_replies sy) (ca_keys (v_cache (sy_world sy)))) \<and>
     (\<forall>(tok, pc) \<in> set (sy_threads sy). pc_ok ssl cfg (v_sys (sy_world sy)) (sy_replies sy) tok pc)"

lemma published_mono: "published replies keys \<Longrightarrow> set replies \<subseteq> set replies' \<Longrightarrow> published replies' keys"
  by (auto simp: published_def)

lemma pc_ok_mono:
  assumes "pc_ok ssl cfg s replies tok pc" and "set replies \<subseteq> set replies'"
    and "wall_secs s' = wall_secs s" and "wall_pos s \<le> wall_pos s'"
  shows "pc_ok ssl cfg s' replies' tok pc"
proof (cases pc)
  case (V_done r)
  have "vouched ssl cfg s' replies' tok res" if "vouched ssl cfg s replies tok res" for res
    using that published_mono [OF _ assms(2)] assms(3,4) unfolding vouched_def by (metis order_less_le_trans)
  with assms(1) V_done show ?thesis by (auto split: sum.splits)
qed (use assms published_mono in auto)

text \<open>A step leaves the clocks in place and only moves them on.\<close>

definition env_forward :: "sysenv \<Rightarrow> sysenv \<Rightarrow> bool" where
  "env_forward s s' \<longleftrightarrow> wall_secs s' = wall_secs s \<and> wall_pos s \<le> wall_pos s' \<and>
     steady_ticks s' = steady_ticks s \<and> steady_pos s \<le> steady_pos s'"

lemma v_begin_step:
  fixes w :: "'h vworld"
  assumes "absorb (v_begin cfg tok) w = (pc', w')"
    and "ca_keys (v_cache w) \<noteq> [] \<longrightarrow> published replies (ca_keys (v_cache w))"
  shows "pc_ok ssl cfg s replies tok pc' \<and> v_cache w' = v_cache w \<and> env_forward (v_sys w) (v_sys w')"
proof (cases "config_ok cfg \<and> tok \<noteq> []")
  case False
  then have "w' = w \<and> (\<exists>st err. pc' = V_done (Inr (failure st err)) \<and> st \<in> {401, 500} \<and> err \<noteq> [])"
    using assms(1) by (auto simp: v_begin_def config_ok_def Let_def split: if_splits)
  then show ?thesis by (auto simp: env_forward_def)
next
  case True
  then have cfg: "expected_issuer cfg \<noteq> []" "jwks_url cfg \<noteq> []" "\<not> (require_audience cfg \<and> expected_audience cfg = [])"
    by (auto simp: config_ok_def)
  show ?thesis
  proof (cases "decode_jwt tok")
    case None
    with assms(1) cfg True show ?thesis by (auto simp: v_begin_def env_forward_def Let_def)
  next
    case (Some jwt)
    define tail :: "string \<Rightarrow> string \<Rightarrow> ('h vworld, vpc) act" where "tail = (\<lambda>alg kid. abind v_system (\<lambda>_. abind cached_keys (\<lambda>keys.
        aret (if keys \<noteq> [] then V_check jwt alg kid keys else V_send jwt alg kid))))"
    have run: "absorb (abind (alift (json_string_or (header_json jwt) ''alg'' [])) (\<lambda>alg.
        if alg = [] then aret (V_done (Inr (failure 401 ''jwt_missing_alg'')))
        else if evp_digest_for_alg alg = None then aret (V_done (Inr (failure 401 ''unsupported_jwt_alg'')))
        else abind (alift (json_string_or (header_json jwt) ''kid'' [])) (\<lambda>kid.
          if kid = [] then aret (V_done (Inr (failure 401 ''jwt_missing_kid''))) else tail alg kid))) w = (pc', w')"
      using assms(1) cfg True Some unfolding tail_def by (simp add: v_begin_def Let_def)
    consider (early) "w' = w" "(\<exists>e. pc' = V_done (Inl e)) \<or> (\<exists>err. err \<noteq> [] \<and> pc' = V_done (Inr (failure 401 err)))"
      | (header) alg kid where "json_string_or (header_json jwt) ''alg'' [] = Inr alg" "alg \<noteq> []"
        "evp_digest_for_alg alg \<noteq> None" "json_string_or (header_json jwt) ''kid'' [] = Inr kid" "kid \<noteq> []"
        "absorb (tail alg kid) w = (pc', w')"
      using run by (auto simp: absorb_abind split: sum.splits if_splits)
    then show ?thesis
    proof cases
      case early
      then show ?thesis by (auto simp: env_forward_def)
    next
      case header
      have hdr: "header_ok jwt alg kid"
        using header by (auto simp: header_ok_def json_string_or_def value_or_def split: option.splits)
      have "w' = (if ca_keys (v_cache w) = [] then tick_wall w else tick_steady (tick_wall w))"
        and "pc' = (if cache_fresh w then V_check jwt alg kid (ca_keys (v_cache w)) else V_send jwt alg kid)"
        using header(6)
        by (auto simp: tail_def absorb_abind cached_keys_eq cache_fresh_def split: if_splits)
      then show ?thesis using True Some hdr assms(2)
        by (auto simp: env_forward_def cache_fresh_def)
    qed
  qed
qed

lemma v_send_step:
  assumes "absorb (v_send lib cfg jwt alg kid) w = (pc', w')"
    and "config_ok cfg" "decode_jwt tok = Some jwt" "header_ok jwt alg kid"
  shows "pc_ok ssl cfg s (replies @ reply_of (V_send jwt alg kid) pc') tok pc' \<and> v_cache w' = v_cache w \<and>
    env_forward (v_sys w) (v_sys w')"
  using assms
  by (auto simp: absorb_abind v_send_def reply_of_def env_forward_def v_cache_def v_sys_def
      split: sum.splits prod.splits dest!: on_snd_keeps)

lemma v_reply_step:
  assumes "absorb (v_reply cfg jwt alg kid resp) w = (pc', w')"
    and "config_ok cfg" "decode_jwt tok = Some jwt" "header_ok jwt alg kid" "resp \<in> set replies"
  shows "pc_ok ssl cfg s replies tok pc' \<and> env_forward (v_sys w) (v_sys w') \<and>
    (v_cache w' = v_cache w \<or> published replies (ca_keys (v_cache w')))"
proof (cases "is_2xx (effective_status resp)")
  case False
  with assms(1) show ?thesis by (auto simp: v_reply_def env_forward_def)
next
  case True
  show ?thesis
  proof (cases "extract_jwks (resp_body resp)")
    case (Inl e)
    with assms(1) True show ?thesis by (auto simp: v_reply_def absorb_abind env_forward_def)
  next
    case (Inr keys)
    with True assms(5) have pub: "published replies keys" by (auto simp: published_def)
    have store: "absorb (abind v_steady (\<lambda>now. abind (alift (steady_add now (jwks_cache_ttl cfg))) (\<lambda>expires. \<lambda>w.
        (Inr (V_check jwt alg kid keys), set_cache \<lparr>ca_keys = keys, ca_expires_at = expires\<rparr> w)))) w = (pc', w')"
      if "keys \<noteq> []" using assms(1) True Inr that by (simp add: v_reply_def absorb_abind)
    show ?thesis
    proof (cases "keys = []")
      case True
      with assms(1) \<open>is_2xx (effective_status resp)\<close> Inr show ?thesis
        by (auto simp: v_reply_def absorb_abind env_forward_def)
    next
      case False
      from store [OF this] show ?thesis
        by (cases "steady_add (v_now w) (jwks_cache_ttl cfg)")
          (use assms(2-4) pub in \<open>auto simp: absorb_abind env_forward_def\<close>)
    qed
  qed
qed

lemma v_check_step:
  assumes "absorb (abind (check_signed ssl cfg jwt alg kid keys) (\<lambda>r. aret (V_done (Inr r)))) w = (pc', w')"
    and "config_ok cfg" "decode_jwt tok = Some jwt" "header_ok jwt alg kid" "published replies keys"
  shows "pc_ok ssl cfg (v_sys w') replies tok pc' \<and> v_cache w' = v_cache w \<and> env_forward (v_sys w) (v_sys w')"
proof -
  obtain x w1 where x: "check_signed ssl cfg jwt alg kid keys w = (x, w1)"
    by (cases "check_signed ssl cfg jwt alg kid keys w")
  with assms(1) have pc: "pc' = (case x of Inl e \<Rightarrow> V_done (Inl e) | Inr r \<Rightarrow> V_done (Inr r))" "w' = w1"
    by (auto simp: absorb_abind split: sum.splits)
  have clock: "w1 = w \<and> (\<forall>r. x = Inr r \<longrightarrow> \<not> jv_ok r) \<or> w1 = tick_wall w"
    using x by (auto simp: check_signed_def abind_v_system split: option.splits if_splits)
  then have env: "v_cache w' = v_cache w \<and> env_forward (v_sys w) (v_sys w')"
    by (auto simp: pc(2) env_forward_def)
  have "pc_ok ssl cfg (v_sys w') replies tok pc'"
  proof (cases x)
    case (Inr r)
    have "expected_issuer cfg \<noteq> []" using assms(2) by (simp add: config_ok_def)
    note d = check_signed_Inr(2) [OF x [unfolded Inr] assms(4) this]
    show ?thesis
    proof (cases "jv_ok r")
      case True
      with d have "authentic ssl cfg keys (wall_secs (v_sys w) (wall_pos (v_sys w))) jwt" "accepts (payload_json jwt) r"
        by (auto simp: rejects_def split: if_splits)
      moreover have "w1 = tick_wall w" using clock True Inr by auto
      ultimately have "vouched ssl cfg (v_sys w') replies tok r"
        unfolding vouched_def using assms(2,3,5) pc(2) by fastforce
      with True pc Inr show ?thesis by simp
    next
      case False
      with d have "rejects {401, 403, 500, 502} r"
        by (auto simp: accepts_def elim: rejects_mono split: if_splits)
      with False pc Inr show ?thesis by simp
    qed
  qed (simp add: pc)
  with env show ?thesis by blast
qed

lemma vt_step_ok:
  assumes "vt_step lib ssl cfg tok pc w = (pc', w')" and "pc_ok ssl cfg (v_sys w) replies tok pc"
    and "ca_keys (v_cache w) \<noteq> [] \<longrightarrow> published replies (ca_keys (v_cache w))"
  defines "replies' \<equiv> replies @ reply_of pc pc'"
  shows "pc_ok ssl cfg (v_sys w') replies' tok pc' \<and> env_forward (v_sys w) (v_sys w') \<and>
    (ca_keys (v_cache w') \<noteq> [] \<longrightarrow> published replies' (ca_keys (v_cache w')))"
proof -
  have sub: "set replies \<subseteq> set replies'" by (simp add: replies'_def)
  note grow = published_mono [OF _ sub] pc_ok_mono [OF _ sub]
  show ?thesis
  proof (cases pc)
    case V_begin
    with v_begin_step [of cfg tok w pc' w' replies ssl "v_sys w'"] assms(1,3) grow show ?thesis by auto
  next
    case (V_send jwt alg kid)
    with v_send_step [of lib cfg jwt alg kid w pc' w' tok ssl "v_sys w'" replies] assms(1-3) grow show ?thesis
      by (auto simp: replies'_def)
  next
    case (V_reply jwt alg kid resp)
    with v_reply_step [of cfg jwt alg kid resp w pc' w' tok replies ssl "v_sys w'"] assms(1-3) grow show ?thesis
      by auto
  next
    case (V_check jwt alg kid keys)
    with v_check_step [of ssl cfg jwt alg kid keys w pc' w' tok replies] assms(1-3) grow show ?thesis
      by auto
  next
    case (V_done r)
    with assms grow show ?thesis by (auto simp: env_forward_def)
  qed
qed

lemma run_thread_inv:
  assumes "v_inv ssl cfg sy" and "i < length (sy_threads sy)"
  shows "v_inv ssl cfg (run_thread lib ssl cfg i sy)"
proof -
  obtain tok pc where t: "sy_threads sy ! i = (tok, pc)" by fastforce
  obtain pc' w' where st: "vt_step lib ssl cfg tok pc (sy_world sy) = (pc', w')"
    by (cases "vt_step lib ssl cfg tok pc (sy_world sy)")
  let ?replies = "sy_replies sy @ reply_of pc pc'"
  have "(tok, pc) \<in> set (sy_threads sy)" using t assms(2) by (metis nth_mem)
  with assms(1) have "pc_ok ssl cfg (v_sys (sy_world sy)) (sy_replies sy) tok pc"
    and cache: "ca_keys (v_cache (sy_world sy)) \<noteq> [] \<longrightarrow> published (sy_replies sy) (ca_keys (v_cache (sy_world sy)))"
    by (auto simp: v_inv_def)
  note new = vt_step_ok [OF st this]
  have "pc_ok ssl cfg (v_sys w') ?replies tok2 pc2" if "(tok2, pc2) \<in> set ((sy_threads sy)[i := (tok, pc')])" for tok2 pc2
  proof (cases "(tok2, pc2) = (tok, pc')")
    case False
    with that have "(tok2, pc2) \<in> set (sy_threads sy)" using set_update_subset_insert by fastforce
    with assms(1) have "pc_ok ssl cfg (v_sys (sy_world sy)) (sy_replies sy) tok2 pc2" by (auto simp: v_inv_def)
    then show ?thesis by (rule pc_ok_mono) (use new in \<open>auto simp: env_forward_def\<close>)
  qed (use new in simp)
  with new t st show ?thesis by (auto simp: run_thread_def v_inv_def)
qed

lemma v_steps_inv: "v_steps lib ssl cfg sy evs sy' \<Longrightarrow> v_inv ssl cfg sy \<Longrightarrow> v_inv ssl cfg sy'"
proof (induction rule: v_steps.induct)
  case (v_thread sy evs sy1 i)
  then show ?case by (simp add: run_thread_inv)
next
  case (v_elsewhere sy evs sy1 w)
  have "pc_ok ssl cfg (v_sys w) (sy_replies sy1) tok pc"
    if "pc_ok ssl cfg (v_sys (sy_world sy1)) (sy_replies sy1) tok pc" for tok pc
    using that by (rule pc_ok_mono) (use v_elsewhere in \<open>auto simp: env_later_def\<close>)
  moreover have "v_cache w = v_cache (sy_world sy1)" using v_elsewhere by (simp add: env_later_def)
  moreover have "v_inv ssl cfg sy1" using v_elsewhere by simp
  ultimately show ?case unfolding v_inv_def by auto
qed (auto simp: v_inv_def)

lemma v_start_inv: "v_start sy \<Longrightarrow> v_inv ssl cfg sy"
  by (simp add: v_start_def v_inv_def)

end
