(* ===== verification/ValidatorProgress.thy ===== *)
theory ValidatorProgress
  imports ValidatorThreads
begin

text \<open>
  Progress of concurrent validations: while the identity provider answers requests for its key set
  with one set of keys, a token that is genuine under these keys is accepted, whatever the other
  validations on the same validator do in between.
\<close>

text \<open>The provider answers every request for the key set with \<open>keys\<close>.\<close>

definition key_answer :: "jwk list \<Rightarrow> http_response \<Rightarrow> bool" where
  "key_answer keys resp \<longleftrightarrow> is_2xx (effective_status resp) \<and> extract_jwks (resp_body resp) = Inr keys"

definition serves_keys :: "('h, 'm) http_lib_scheme \<Rightarrow> auth_config \<Rightarrow> jwk list \<Rightarrow> bool" where
  "serves_keys lib cfg keys \<longleftrightarrow> (\<exists>req. make_json_get lib (jwks_url cfg) None = Inr req \<and>
     (\<forall>h. \<exists>resp h'. http_send lib req h = (Inr resp, h') \<and> key_answer keys resp))"

text \<open>
  The token is genuine at every reading of the clock between two moments, and the cache lifetime can
  be added to every reading of the steady clock between them.
\<close>

definition signed_by :: "openssl \<Rightarrow> jwk list \<Rightarrow> decoded_jwt \<Rightarrow> bool" where
  "signed_by ssl keys jwt \<longleftrightarrow> (\<exists>alg kid k. header_ok jwt alg kid \<and> find (\<lambda>k. jwk_kid k = kid) keys = Some k \<and>
     verify_rsa_signature ssl k alg (signing_input jwt) (signature jwt))"

definition genuine_during ::
  "openssl \<Rightarrow> auth_config \<Rightarrow> jwk list \<Rightarrow> sysenv \<Rightarrow> sysenv \<Rightarrow> decoded_jwt \<Rightarrow> request_context \<Rightarrow> bool" where
  "genuine_during ssl cfg keys s s' jwt ctx \<longleftrightarrow> config_ok cfg \<and> signed_by ssl keys jwt \<and>
     (\<forall>i. wall_pos s \<le> i \<and> i < wall_pos s' \<longrightarrow>
        claims_ok cfg (wall_secs s i) (payload_json jwt) \<and> payload_ok cfg (wall_secs s i) (payload_json jwt) ctx) \<and>
     (\<forall>i. steady_pos s \<le> i \<and> i < steady_pos s' \<longrightarrow>
        (\<exists>d. steady_add (steady_ticks s i) (jwks_cache_ttl cfg) = Inr d))"

definition acceptance :: "request_context \<Rightarrow> jwt_result" where
  "acceptance ctx = \<lparr>jv_ok = True, jv_http_status = 200, jv_error = [], jv_context = ctx\<rparr>"

text \<open>A thread on its way to the acceptance.\<close>

fun on_way :: "decoded_jwt \<Rightarrow> string \<Rightarrow> string \<Rightarrow> request_context \<Rightarrow> vpc \<Rightarrow> bool" where
  "on_way jwt alg kid ctx V_begin = True"
| "on_way jwt alg kid ctx (V_send j a k) = (j = jwt \<and> a = alg \<and> k = kid)"
| "on_way jwt alg kid ctx (V_reply j a k resp) = (j = jwt \<and> a = alg \<and> k = kid)"
| "on_way jwt alg kid ctx (V_check j a k keys) = (j = jwt \<and> a = alg \<and> k = kid)"
| "on_way jwt alg kid ctx (V_done r) = (r = Inr (acceptance ctx))"

text \<open>\<open>before s s'\<close>: in \<open>s\<close> no more has been read from the clocks than in \<open>s'\<close>.\<close>

definition before :: "sysenv \<Rightarrow> sysenv \<Rightarrow> bool" where
  "before s s' \<longleftrightarrow> wall_pos s \<le> wall_pos s' \<and> steady_pos s \<le> steady_pos s'"

lemma before_trans: "before s s' \<Longrightarrow> before s' s'' \<Longrightarrow> before s s''"
  by (simp add: before_def)

definition p_inv ::
  "openssl \<Rightarrow> auth_config \<Rightarrow> jwk list \<Rightarrow> sysenv \<Rightarrow> sysenv \<Rightarrow> string \<Rightarrow> decoded_jwt \<Rightarrow> string \<Rightarrow> string \<Rightarrow>
    request_context \<Rightarrow> 'h vsystem \<Rightarrow> bool" where
  "p_inv ssl cfg keys s s' tok jwt alg kid ctx sy \<longleftrightarrow> v_inv ssl cfg sy \<and>
     (\<forall>resp \<in> set (sy_replies sy). key_answer keys resp) \<and>
     wall_secs (v_sys (sy_world sy)) = wall_secs s \<and> steady_ticks (v_sys (sy_world sy)) = steady_ticks s \<and>
     before s (v_sys (sy_world sy)) \<and>
     (before (v_sys (sy_world sy)) s' \<longrightarrow> (\<forall>pc. (tok, pc) \<in> set (sy_threads sy) \<longrightarrow> on_way jwt alg kid ctx pc))"

lemma published_keys: "published replies ks \<Longrightarrow> \<forall>resp \<in> set replies. key_answer keys resp \<Longrightarrow> ks = keys"
  by (auto simp: published_def key_answer_def)

section \<open>One step\<close>

lemma begin_on_way:
  assumes "config_ok cfg" and "decode_jwt tok = Some jwt" and "header_ok jwt alg kid"
  shows "fst (vt_step lib ssl cfg tok V_begin w) =
    (if cache_fresh w then V_check jwt alg kid (ca_keys (v_cache w)) else V_send jwt alg kid)"
proof -
  have ne: "tok \<noteq> []" using assms(2) by (auto simp: decode_jwt_def find_ch_none [of "[]" 0 "[]"])
  have alg: "json_string_or (header_json jwt) ''alg'' [] = Inr alg" "alg \<noteq> []"
    "evp_digest_for_alg alg \<noteq> None"
    using assms(3) by (auto simp: header_ok_def json_string_or_def value_or_def evp_digest_for_alg_def)
  have kid: "json_string_or (header_json jwt) ''kid'' [] = Inr kid" "kid \<noteq> []"
    using assms(3) by (auto simp: header_ok_def json_string_or_def value_or_def)
  have fresh: "cache_fresh (tick_wall w) = cache_fresh w" "cache_fresh w \<Longrightarrow> ca_keys (v_cache w) \<noteq> []"
    by (simp_all add: cache_fresh_def)
  show ?thesis using assms(1,2) ne alg kid fresh
    by (cases "evp_digest_for_alg alg")
      (auto simp: v_begin_def config_ok_def absorb_def abind_alift abind_v_system abind_cached_keys Let_def)
qed

lemma send_on_way:
  assumes "serves_keys lib cfg keys"
  shows "\<exists>resp w'. vt_step lib ssl cfg tok (V_send jwt alg kid) w = (V_reply jwt alg kid resp, w') \<and> key_answer keys resp"
proof -
  from assms obtain req resp h' where req: "make_json_get lib (jwks_url cfg) None = Inr req"
    "http_send lib req (snd w) = (Inr resp, h')" "key_answer keys resp"
    unfolding serves_keys_def by blast
  then have "on_snd (http_send lib req) w = (Inr resp, (fst w, h'))" by (cases w) (simp add: on_snd_def)
  with req show ?thesis by (simp add: v_send_def absorb_def abind_def)
qed

lemma reply_on_way:
  assumes "key_answer keys resp" and "keys \<noteq> []"
    and "vt_step lib ssl cfg tok (V_reply jwt alg kid resp) w = (pc', w')"
  shows "steady_pos (v_sys w') = Suc (steady_pos (v_sys w))"
    and "steady_add (v_now w) (jwks_cache_ttl cfg) = Inr d \<Longrightarrow> pc' = V_check jwt alg kid keys"
  using assms
  by (auto simp: v_reply_def key_answer_def absorb_abind split: sum.splits)

lemma check_on_way:
  assumes "signed_by ssl keys jwt" and "header_ok jwt alg kid"
    and "vt_step lib ssl cfg tok (V_check jwt alg kid keys) w = (pc', w')"
  defines "now \<equiv> wall_secs (v_sys w) (wall_pos (v_sys w))"
  shows "wall_pos (v_sys w') = Suc (wall_pos (v_sys w))"
    and "claims_ok cfg now (payload_json jwt) \<Longrightarrow> payload_ok cfg now (payload_json jwt) ctx \<Longrightarrow>
      pc' = V_done (Inr (acceptance ctx))"
proof -
  from assms(1,2) obtain k where k: "find (\<lambda>k. jwk_kid k = kid) keys = Some k"
    "verify_rsa_signature ssl k alg (signing_input jwt) (signature jwt)"
    by (auto simp: signed_by_def header_ok_def)
  with assms(3) show "wall_pos (v_sys w') = Suc (wall_pos (v_sys w))"
    by (auto simp: check_signed_def abind_v_system absorb_abind split: sum.splits)
  show "pc' = V_done (Inr (acceptance ctx))"
    if "claims_ok cfg now (payload_json jwt)" "payload_ok cfg now (payload_json jwt) ctx"
    using k assms(3) check_claims_complete [OF that]
    by (simp add: check_signed_def abind_v_system absorb_abind acceptance_def now_def)
qed

text \<open>Any thread: the replies stay answers of the provider.\<close>

lemma reply_of_answer:
  assumes "serves_keys lib cfg keys" and "vt_step lib ssl cfg tok pc w = (pc', w')"
  shows "\<forall>resp \<in> set (reply_of pc pc'). key_answer keys resp"
proof (cases pc)
  case (V_send jwt alg kid)
  from send_on_way [OF assms(1)] obtain resp w2 where
    "vt_step lib ssl cfg tok (V_send jwt alg kid) w = (V_reply jwt alg kid resp, w2)" "key_answer keys resp" by blast
  with assms(2) V_send show ?thesis by (simp add: reply_of_def)
qed (simp_all add: reply_of_def)

lemma step_on_way:
  assumes serves: "serves_keys lib cfg keys" and gen: "genuine_during ssl cfg keys s s' jwt ctx"
    and tok: "decode_jwt tok = Some jwt" "header_ok jwt alg kid"
    and inv: "p_inv ssl cfg keys s s' tok jwt alg kid ctx sy" "(tok, pc) \<in> set (sy_threads sy)"
    and st: "vt_step lib ssl cfg tok pc (sy_world sy) = (pc', w')"
    and time: "env_forward (v_sys (sy_world sy)) (v_sys w')" "before (v_sys w') s'"
  shows "on_way jwt alg kid ctx pc'"
proof -
  let ?w = "sy_world sy"
  have "before (v_sys ?w) s'" using time by (auto simp: before_def env_forward_def)
  with inv have clocks: "wall_secs (v_sys ?w) = wall_secs s" "steady_ticks (v_sys ?w) = steady_ticks s"
    and start: "before s (v_sys ?w)"
    and here: "on_way jwt alg kid ctx pc" "pc_ok ssl cfg (v_sys ?w) (sy_replies sy) tok pc"
    and answers: "\<forall>resp \<in> set (sy_replies sy). key_answer keys resp"
    by (auto simp: p_inv_def v_inv_def)
  have cfg: "config_ok cfg" and signed: "signed_by ssl keys jwt" using gen by (simp_all add: genuine_during_def)
  have ne: "keys \<noteq> []" using signed by (auto simp: signed_by_def)
  show ?thesis
  proof (cases pc)
    case V_begin
    then show ?thesis using begin_on_way [OF cfg tok, of lib ssl ?w] st by (auto split: if_splits)
  next
    case (V_send j a k)
    then show ?thesis using send_on_way [OF serves, of ssl tok j a k ?w] here st by auto
  next
    case (V_reply j a k resp)
    have "key_answer keys resp" using V_reply here answers by auto
    note reply = reply_on_way [OF this ne st [unfolded V_reply]]
    have "steady_pos s \<le> steady_pos (v_sys ?w) \<and> steady_pos (v_sys ?w) < steady_pos s'"
      using reply(1) start time(2) by (simp add: before_def)
    then obtain d where "steady_add (v_now ?w) (jwks_cache_ttl cfg) = Inr d"
      using gen clocks by (auto simp: genuine_during_def v_now_def)
    from reply(2) [OF this] V_reply here show ?thesis by simp
  next
    case (V_check j a k ks)
    with here have eq: "ks = keys" "j = jwt" "a = alg" "k = kid" using published_keys answers by auto
    note check = check_on_way [OF signed tok(2) st [unfolded V_check eq]]
    have "wall_pos s \<le> wall_pos (v_sys ?w) \<and> wall_pos (v_sys ?w) < wall_pos s'"
      using check(1) start time(2) by (simp add: before_def)
    then have "claims_ok cfg (wall_secs s (wall_pos (v_sys ?w))) (payload_json jwt)"
      "payload_ok cfg (wall_secs s (wall_pos (v_sys ?w))) (payload_json jwt) ctx"
      using gen by (simp_all add: genuine_during_def)
    then show ?thesis using check(2) by (simp add: clocks)
  next
    case (V_done r)
    then show ?thesis using here st by auto
  qed
qed

section \<open>All steps\<close>

lemma run_thread_p_inv:
  assumes serves: "serves_keys lib cfg keys" and gen: "genuine_during ssl cfg keys s s' jwt ctx"
    and tok: "decode_jwt tok = Some jwt" "header_ok jwt alg kid"
    and inv: "p_inv ssl cfg keys s s' tok jwt alg kid ctx sy" and i: "i < length (sy_threads sy)"
  shows "p_inv ssl cfg keys s s' tok jwt alg kid ctx (run_thread lib ssl cfg i sy)"
proof -
  obtain t pc where t: "sy_threads sy ! i = (t, pc)" by fastforce
  obtain pc' w' where st: "vt_step lib ssl cfg t pc (sy_world sy) = (pc', w')"
    by (cases "vt_step lib ssl cfg t pc (sy_world sy)")
  have mem: "(t, pc) \<in> set (sy_threads sy)" using t i by (metis nth_mem)
  have v: "v_inv ssl cfg sy" using inv by (simp add: p_inv_def)
  then have "pc_ok ssl cfg (v_sys (sy_world sy)) (sy_replies sy) t pc"
    "ca_keys (v_cache (sy_world sy)) \<noteq> [] \<longrightarrow> published (sy_replies sy) (ca_keys (v_cache (sy_world sy)))"
    using mem by (auto simp: v_inv_def)
  with vt_step_ok [OF st] have clocks: "env_forward (v_sys (sy_world sy)) (v_sys w')" by blast
  then have later: "before (v_sys (sy_world sy)) (v_sys w')" by (simp add: env_forward_def before_def)
  have "on_way jwt alg kid ctx pc2"
    if "(tok, pc2) \<in> set ((sy_threads sy)[i := (t, pc')])" "before (v_sys w') s'" for pc2
  proof (cases "(tok, pc2) = (t, pc')")
    case True
    with step_on_way [OF serves gen tok inv _ _ clocks that(2), of pc pc'] mem st show ?thesis by simp
  next
    case False
    with that have "(tok, pc2) \<in> set (sy_threads sy)" using set_update_subset_insert by fastforce
    with inv before_trans [OF later that(2)] show ?thesis by (auto simp: p_inv_def)
  qed
  moreover have "\<forall>resp \<in> set (sy_replies sy @ reply_of pc pc'). key_answer keys resp"
    using reply_of_answer [OF serves st] inv by (auto simp: p_inv_def)
  moreover have "before s (v_sys w')" using inv before_trans [OF _ later] by (simp add: p_inv_def)
  ultimately show ?thesis
    using run_thread_inv [OF v i, of lib] clocks inv t st by (simp add: p_inv_def run_thread_def env_forward_def)
qed

lemma v_steps_p_inv:
  assumes "v_steps lib ssl cfg sy evs sy'" and "serves_keys lib cfg keys" and "genuine_during ssl cfg keys s s' jwt ctx"
    and "decode_jwt tok = Some jwt" and "header_ok jwt alg kid" and "p_inv ssl cfg keys s s' tok jwt alg kid ctx sy"
  shows "p_inv ssl cfg keys s s' tok jwt alg kid ctx sy'"
  using assms
proof (induction rule: v_steps.induct)
  case (v_thread sy evs sy1 i)
  then show ?case by (simp add: run_thread_p_inv)
next
  case (v_call sy evs sy1 tok')
  then have "p_inv ssl cfg keys s s' tok jwt alg kid ctx sy1" by simp
  then show ?case by (auto simp: p_inv_def v_inv_def)
next
  case (v_elsewhere sy evs sy1 w)
  then have inv: "p_inv ssl cfg keys s s' tok jwt alg kid ctx sy1" by simp
  have later: "before (v_sys (sy_world sy1)) (v_sys w)" using v_elsewhere(2) by (simp add: env_later_def before_def)
  have "v_inv ssl cfg (sy1\<lparr>sy_world := w\<rparr>)"
    by (rule v_steps_inv [OF v_steps.v_elsewhere [OF v_steps.v_stop v_elsewhere(2), of lib ssl cfg]])
      (use inv in \<open>simp add: p_inv_def\<close>)
  then show ?case
    using inv v_elsewhere(2) before_trans [OF _ later] before_trans [OF later] by (simp add: p_inv_def env_later_def)
qed simp

text \<open>Four steps of its own bring a thread to the acceptance.\<close>

lemma genuine_progress:
  assumes steps: "v_steps lib ssl cfg sy0 evs0 sy" "v_steps lib ssl cfg sy evs sy'" and start: "v_start sy0"
    and serves: "serves_keys lib cfg keys"
    and gen: "genuine_during ssl cfg keys (v_sys (sy_world sy0)) (v_sys (sy_world sy')) jwt ctx"
    and tok: "decode_jwt tok = Some jwt"
    and thread: "j < length (sy_threads sy)" "fst (sy_threads sy ! j) = tok" "4 \<le> count_list evs (At_thread j)"
  shows "sy_threads sy' ! j = (tok, V_done (Inr (acceptance ctx)))"
proof -
  let ?s = "v_sys (sy_world sy0)" and ?s' = "v_sys (sy_world sy')"
  obtain alg kid where hdr: "header_ok jwt alg kid" using gen by (auto simp: genuine_during_def signed_by_def)
  have "p_inv ssl cfg keys ?s ?s' tok jwt alg kid ctx sy0"
    using v_start_inv [OF start] start by (simp add: p_inv_def v_start_def before_def)
  from v_steps_p_inv [OF steps(1) serves gen tok hdr this]
  have "p_inv ssl cfg keys ?s ?s' tok jwt alg kid ctx sy" .
  from v_steps_p_inv [OF steps(2) serves gen tok hdr this]
  have inv: "p_inv ssl cfg keys ?s ?s' tok jwt alg kid ctx sy'" .
  have "vt_left (snd (sy_threads sy ! j)) \<le> 4" by (cases "snd (sy_threads sy ! j)") auto
  with v_steps_done [OF steps(2) thread(1)] thread(3) obtain r where r: "snd (sy_threads sy' ! j) = V_done r" by auto
  moreover have "j < length (sy_threads sy') \<and> fst (sy_threads sy' ! j) = tok"
    using v_steps_token [OF steps(2) thread(1)] thread(2) by simp
  ultimately have "sy_threads sy' ! j = (tok, V_done r)" "(tok, V_done r) \<in> set (sy_threads sy')"
    by (auto simp: prod_eq_iff in_set_conv_nth)
  with inv show ?thesis by (auto simp: p_inv_def before_def)
qed

end
