(* ===== verification/JsonDoc.thy ===== *)
theory JsonDoc
  imports AuthHandler JsonObject
begin

text \<open>
  JSON documents as a datatype, printed with the library's own string escapes, and what the
  library's reader makes of a printed document. The reader is not a JSON parser: it searches for the
  quoted key in the text. \<open>mentions\<close> says exactly when a value can mislead that search; a document in
  which no member value mentions the key is read as the document it is.
\<close>

datatype json =
    J_null
  | J_bool bool
  | J_num int
  | J_str string
  | J_arr "json list"
  | J_obj "(string \<times> json) list"

primrec json_text :: "json \<Rightarrow> string" where
  "json_text J_null = ''null''"
| "json_text (J_bool b) = (if b then ''true'' else ''false'')"
| "json_text (J_num n) = to_string_int n"
| "json_text (J_str s) = string_text (json_escape s)"
| "json_text (J_arr js) = array_text (map json_text js)"
| "json_text (J_obj ms) = object_text (map (map_prod id json_text) ms)"

text \<open>Documents with member names that need no escape, at every depth.\<close>

primrec plain_names :: "json \<Rightarrow> bool" where
  "plain_names J_null = True"
| "plain_names (J_bool b) = True"
| "plain_names (J_num n) = True"
| "plain_names (J_str s) = True"
| "plain_names (J_arr js) = list_all id (map plain_names js)"
| "plain_names (J_obj ms) = list_all (\<lambda>m. plain (fst m) \<and> snd m) (map (map_prod id plain_names) ms)"

text \<open>
  A string misleads the search for \<open>key\<close> if it is the key, or if it ends in a quote and the key:
  then its escape, the key and its closing quote look like the quoted key.
\<close>

definition text_mentions :: "string \<Rightarrow> string \<Rightarrow> bool" where
  "text_mentions key s \<longleftrightarrow> s = key \<or> suffix (DQ # key) s"

primrec mentions :: "string \<Rightarrow> json \<Rightarrow> bool" where
  "mentions key J_null = False"
| "mentions key (J_bool b) = False"
| "mentions key (J_num n) = False"
| "mentions key (J_str s) = text_mentions key s"
| "mentions key (J_arr js) = list_ex id (map (mentions key) js)"
| "mentions key (J_obj ms) = list_ex (\<lambda>m. fst m = key \<or> snd m) (map (map_prod id (mentions key)) ms)"

lemma json_induct [case_names null bool num str arr obj]:
  assumes "P J_null" "\<And>b. P (J_bool b)" "\<And>n. P (J_num n)" "\<And>s. P (J_str s)"
    and "\<And>js. (\<And>j. j \<in> set js \<Longrightarrow> P j) \<Longrightarrow> P (J_arr js)"
    and "\<And>ms. (\<And>k v. (k, v) \<in> set ms \<Longrightarrow> P v) \<Longrightarrow> P (J_obj ms)"
  shows "P j"
  by (induction j) (use assms in \<open>auto\<close>)

lemma plain_names_simps [simp]:
  "plain_names (J_arr js) \<longleftrightarrow> (\<forall>j \<in> set js. plain_names j)"
  "plain_names (J_obj ms) \<longleftrightarrow> (\<forall>(k, v) \<in> set ms. plain k \<and> plain_names v)"
  by (auto simp: list_all_iff)

lemma mentions_simps [simp]:
  "mentions key (J_arr js) \<longleftrightarrow> (\<exists>j \<in> set js. mentions key j)"
  "mentions key (J_obj ms) \<longleftrightarrow> (\<exists>(k, v) \<in> set ms. k = key \<or> mentions key v)"
  by (auto simp: list_ex_iff) force+

declare plain_names.simps(5,6) [simp del] mentions.simps(5,6) [simp del]

section \<open>Printed documents belong to the grammar\<close>

lemma number_chars: "c \<in> set (to_string_int n) \<Longrightarrow> c = CHR ''-'' \<or> is_digit c"
  using to_string_nat_digits by (auto simp: to_string_int_def split: if_splits)

lemma scalar_number_text: "scalar_text (to_string_int n)" "DQ \<notin> set (to_string_int n)"
proof -
  have d: "\<not> delim c \<and> c \<noteq> DQ \<and> \<not> isspace c \<and> c \<noteq> CHR ''{'' \<and> c \<noteq> CHR ''[''" if "is_digit c" for c
    using that by (auto simp: delim_def is_digit_def isspace_def)
  have "\<not> delim (CHR ''-'') \<and> CHR ''-'' \<noteq> DQ \<and> \<not> isspace (CHR ''-'')" by (simp add: delim_def isspace_def)
  with d number_chars have all: "\<not> delim c \<and> c \<noteq> DQ \<and> \<not> isspace c \<and> c \<noteq> CHR ''{'' \<and> c \<noteq> CHR ''[''"
    if "c \<in> set (to_string_int n)" for c
    using that by (cases "c = CHR ''-''") auto
  moreover have ne: "to_string_int n \<noteq> []" using to_string_nat_nonempty by (simp add: to_string_int_def)
  ultimately show "scalar_text (to_string_int n)" "DQ \<notin> set (to_string_int n)"
    using hd_in_set [OF ne] by (auto simp: scalar_text_def)
qed

lemma scalar_words: "scalar_text ''null''" "scalar_text ''true''" "scalar_text ''false''"
  by (simp_all add: scalar_text_def delim_def isspace_def)

lemma json_text_value: "plain_names j \<Longrightarrow> value_text (json_text j)"
proof (induction j rule: json_induct)
  case (str s)
  then show ?case by (simp add: value_text_def closed_string str_body_json_escape)
next
  case (arr js)
  then show ?case by (auto intro: value_array)
next
  case (obj ms)
  then have "\<forall>(k, v) \<in> set (map (map_prod id json_text) ms). plain k \<and> value_text v" by fastforce
  then show ?case by simp
qed (simp_all add: value_text_def scalar_words scalar_number_text)

section \<open>Where the search for a key is misled\<close>

text \<open>Behind an opening quote, only the key itself looks like the key.\<close>

lemma escape_prefix_key:
  assumes "plain_key key" and "prefix (quoted key) (DQ # json_escape s @ DQ # z)"
  shows "s = key"
proof -
  have no: "DQ \<notin> set key" "BSL \<notin> set key" using assms(1) by (auto simp: plain_key_def char_class_defs)
  from assms(2) obtain y where y: "key @ DQ # y = json_escape s @ DQ # z" by (auto simp: prefix_def quoted_def)
  have "length key = length (json_escape s)"
  proof (rule ccontr)
    assume "length key \<noteq> length (json_escape s)"
    then consider (short) "length key < length (json_escape s)" | (long) "length (json_escape s) < length key"
      by linarith
    then show False
    proof cases
      case short
      then have "take (Suc (length key)) (json_escape s) = key @ [DQ]"
        using arg_cong [OF y, of "take (Suc (length key))"] by simp
      then have "json_escape s = key @ DQ # drop (Suc (length key)) (json_escape s)"
        by (metis append_Cons append_assoc append_take_drop_id self_append_conv2)
      moreover have "\<not> str_body (u @ DQ # v)" if "BSL \<notin> set u" "DQ \<notin> set u" for u v
        using that by (induction u) auto
      ultimately show False using str_body_json_escape [of s] no by metis
    next
      case long
      have "(key @ DQ # y) ! length (json_escape s) = DQ" by (simp add: y)
      with long no(1) show False by (simp add: nth_append) (metis nth_mem)
    qed
  qed
  with y have "json_escape s = key" by (metis append_eq_append_conv)
  then have "s = unescape_loop False key" by (metis unescape_json_escape)
  then show ?thesis by (simp add: unescape_plain no(2))
qed

lemma key_free_escaped:
  assumes "plain_key key" and "\<not> suffix (DQ # key) s"
  shows "key_free (quoted key) (json_escape s) (DQ # z)"
  using assms(2)
proof (induction s)
  case (Cons c s)
  then have ih: "key_free (quoted key) (json_escape s) (DQ # z)" by (simp add: suffix_Cons)
  have "s \<noteq> key" if "c = DQ" using Cons.prems that by (auto simp: suffix_Cons)
  then have "\<not> prefix (quoted key) (DQ # json_escape s @ DQ # z)" if "c = DQ"
    using escape_prefix_key [OF assms(1)] that by blast
  then have "key_free (quoted key) (json_escape_char c) (json_escape s @ DQ # z)"
    by (cases "c = DQ") (auto simp: json_escape_char_def quoted_def)
  with ih show ?case by (simp add: key_free_append)
qed simp

lemma quiet_json_string:
  assumes "plain_key key" and "\<not> text_mentions key s"
  shows "quiet key (string_text (json_escape s))"
proof -
  have "key_free (quoted key) (string_text (json_escape s)) (d # r)" if "delim d" for d r
  proof -
    have "\<not> prefix (quoted key) (DQ # json_escape s @ DQ # d # r)"
      using escape_prefix_key [OF assms(1)] assms(2) by (auto simp: text_mentions_def)
    moreover have "\<not> prefix (quoted key) (DQ # d # r)"
      using plain_keyD(1) [OF assms(1)] delim_not_key [OF assms(1) that] by (cases key) (auto simp: quoted_def)
    ultimately show ?thesis
      using key_free_escaped [OF assms(1), of s] assms(2)
      by (simp add: string_text_def key_free_append text_mentions_def)
  qed
  then show ?thesis by (simp add: quiet_def)
qed

lemma json_text_quiet: "plain_key key \<Longrightarrow> plain_names j \<Longrightarrow> \<not> mentions key j \<Longrightarrow> quiet key (json_text j)"
proof (induction j rule: json_induct)
  case (arr js)
  then show ?case by (auto intro!: quiet_array)
next
  case (obj ms)
  then have "\<forall>(k, v) \<in> set (map (map_prod id json_text) ms). DQ \<notin> set k \<and> k \<noteq> key \<and> quiet key v"
    by (fastforce simp: plain_def)
  with obj show ?case by (simp add: quiet_object)
qed (simp_all add: quiet_no_dq scalar_number_text quiet_json_string)

section \<open>Reading a document\<close>

text \<open>The text of a JSON object with the given members.\<close>

definition document_text :: "(string \<times> json) list \<Rightarrow> string" where
  "document_text ms = json_text (J_obj ms)"

definition clear_for :: "string \<Rightarrow> (string \<times> json) list \<Rightarrow> bool" where
  "clear_for key ms \<longleftrightarrow> plain_key key \<and> (\<forall>(k, v) \<in> set ms. plain k \<and> plain_names v \<and> \<not> mentions key v)"

lemma clear_readable: "clear_for key ms \<Longrightarrow> readable key (map (map_prod id json_text) ms)"
  by (auto simp: clear_for_def readable_def plain_def json_text_quiet json_text_value)

lemma map_of_json_text: "map_of (map (map_prod id json_text) ms) key = map_option json_text (map_of ms key)"
  by (induction ms) auto

lemma document_value:
  "clear_for key ms \<Longrightarrow> extract_json_value (document_text ms) key = Inr (map_option json_text (map_of ms key))"
  using readable_extract [OF clear_readable] by (simp add: document_text_def map_of_json_text)

lemma json_text_not_string:
  "(\<And>s. j \<noteq> J_str s) \<Longrightarrow> plain_names j \<Longrightarrow> parse_json_string (json_text j) = None"
  using scalar_words scalar_number_text
  by (cases j) (auto simp: parse_json_string_def scalar_text_def array_text_def object_text_def)

text \<open>What the typed readers return for a member value.\<close>

fun as_string :: "json \<Rightarrow> string option" where
  "as_string (J_str s) = Some s"
| "as_string _ = None"

fun_cases as_string_SomeE: "as_string j = Some s"

fun as_bool :: "json \<Rightarrow> bool option" where
  "as_bool (J_bool b) = Some b"
| "as_bool _ = None"

fun_cases as_bool_SomeE: "as_bool j = Some b"

lemma document_string:
  assumes "clear_for key ms"
  shows "extract_json_string (document_text ms) key = Inr (Option.bind (map_of ms key) as_string)"
proof (cases "map_of ms key")
  case None
  with document_value [OF assms] show ?thesis by (simp add: extract_json_string_def)
next
  case (Some j)
  then have "plain_names j" using assms by (auto simp: clear_for_def dest: map_of_SomeD)
  then have "parse_json_string (json_text j) = as_string j"
    using json_text_not_string [of j] by (cases j) auto
  with document_value [OF assms] Some show ?thesis by (simp add: extract_json_string_def)
qed

lemma json_text_bool:
  assumes "plain_names j"
  shows "json_text j = ''true'' \<longleftrightarrow> j = J_bool True" "json_text j = ''false'' \<longleftrightarrow> j = J_bool False"
proof -
  have "to_string_int n \<noteq> t # ts" if "t \<noteq> CHR ''-''" "\<not> is_digit t" for n t ts
    using number_chars [of t n] that by auto
  then have num: "to_string_int n \<noteq> ''true''" "to_string_int n \<noteq> ''false''" for n
    by (simp_all add: is_digit_def)
  show "json_text j = ''true'' \<longleftrightarrow> j = J_bool True" "json_text j = ''false'' \<longleftrightarrow> j = J_bool False"
    using num by (cases j; simp add: string_text_def array_text_def object_text_def)+
qed

lemma document_bool:
  assumes "clear_for key ms"
  shows "extract_json_bool (document_text ms) key = Inr (Option.bind (map_of ms key) as_bool)"
proof (cases "map_of ms key")
  case None
  with document_value [OF assms] show ?thesis by (simp add: extract_json_bool_def)
next
  case (Some j)
  then have "plain_names j" using assms by (auto simp: clear_for_def dest: map_of_SomeD)
  from json_text_bool [OF this] document_value [OF assms] Some show ?thesis
    by (cases j) (auto simp: extract_json_bool_def)
qed

lemma document_int64:
  assumes "clear_for key ms" and "map_of ms key = Some (J_num n)" and "fits_int64 n"
  shows "extract_json_int64 (document_text ms) key = Inr (Some n)"
  using document_value [OF assms(1)] assms(2,3)
  by (simp add: extract_json_int64_def stoll_to_string catch_all_def)

lemma skip_document:
  assumes "plain_names j" and "ends_item rest"
  shows "skip_json_value (json_text j @ rest) 0 = Inr (length (json_text j))"
  using skip_value_at [of "json_text j @ rest" 0 "json_text j" rest] json_text_value [OF assms(1)] assms(2) by simp

end
