(* ===== verification/ClaimsDoc.thy ===== *)
theory ClaimsDoc
  imports JsonDoc TokenValidator
begin

text \<open>
  The claim checks of a validation on the level of JSON documents: for a payload that is the text of
  a JSON object, the checks on the text decide the conditions one would write down for the object.
\<close>

section \<open>The remaining typed readers\<close>

fun as_int64 :: "json \<Rightarrow> int option" where
  "as_int64 (J_num n) = (if fits_int64 n then Some n else None)"
| "as_int64 _ = None"

fun_cases as_int64_SomeE: "as_int64 j = Some n"

fun as_strings :: "json \<Rightarrow> string list" where
  "as_strings (J_arr js) = List.map_filter as_string js"
| "as_strings _ = []"

lemma stoll_no_number:
  assumes "c \<noteq> CHR ''-''" "c \<noteq> CHR ''+''" "\<not> isspace c" "\<not> is_digit c"
  shows "catch_all (stoll (c # cs)) = None"
  using assms by (simp add: stoll_def parse_int_def catch_all_def Let_def)

lemma json_text_int64: "catch_all (stoll (json_text j)) = as_int64 j"
proof (cases j)
  case (J_num n)
  then show ?thesis
    using parse_int_to_string [of "[]" n] by (simp add: stoll_def catch_all_def)
next
  case (J_bool b)
  then show ?thesis by (simp add: stoll_no_number isspace_def is_digit_def)
qed (simp_all add: stoll_no_number isspace_def is_digit_def string_text_def array_text_def object_text_def)

lemma document_int64_all:
  "clear_for key ms \<Longrightarrow> extract_json_int64 (document_text ms) key = Inr (Option.bind (map_of ms key) as_int64)"
  by (cases "map_of ms key") (simp_all add: extract_json_int64_def document_value json_text_int64)

lemma json_text_hd_bracket:
  assumes "plain_names j"
  shows "hd (json_text j) = CHR ''['' \<longleftrightarrow> (\<exists>js. j = J_arr js)"
  using assms scalar_number_text(1)
  by (cases j) (auto simp: string_text_def array_text_def object_text_def scalar_text_def)

lemma map_filter_json_text:
  "\<forall>j \<in> set js. plain_names j \<Longrightarrow>
    List.map_filter parse_json_string (map json_text js) = List.map_filter as_string js"
proof (induction js)
  case (Cons j js)
  then have "parse_json_string (json_text j) = as_string j"
    using json_text_not_string [of j] by (cases j) auto
  with Cons show ?case by (simp add: List.map_filter_simps split: option.splits)
qed (simp add: List.map_filter_simps)

lemma document_strings:
  assumes "clear_for key ms"
  shows "extract_json_string_array (document_text ms) key =
    Inr (case map_of ms key of None \<Rightarrow> [] | Some j \<Rightarrow> as_strings j)"
proof (cases "map_of ms key")
  case None
  with document_value [OF assms] show ?thesis
    by (simp add: extract_json_string_array_def extract_json_array_def)
next
  case (Some j)
  then have plain: "plain_names j" using assms by (auto simp: clear_for_def dest: map_of_SomeD)
  have ne: "json_text j \<noteq> []" using json_text_value [OF plain] by (auto simp: value_text_def scalar_text_def dest: jclosed_head)
  show ?thesis
  proof (cases "\<exists>js. j = J_arr js")
    case True
    then obtain js where j: "j = J_arr js" ..
    have "split_json_array_elements (array_text (map json_text js)) = Inr (map json_text js)"
      by (rule split_array_text) (use plain j json_text_value in auto)
    with document_value [OF assms] Some j ne json_text_hd_bracket [OF plain] plain show ?thesis
      by (simp add: extract_json_string_array_def extract_json_array_def map_filter_json_text)
  next
    case False
    then have "as_strings j = []" by (cases j) auto
    with document_value [OF assms] Some ne json_text_hd_bracket [OF plain] False show ?thesis
      by (simp add: extract_json_string_array_def extract_json_array_def)
  qed
qed

section \<open>The claims of a document\<close>

definition doc_audiences :: "(string \<times> json) list \<Rightarrow> string list" where
  "doc_audiences cs = (case map_of cs ''aud'' of
     None \<Rightarrow> []
   | Some j \<Rightarrow> (case as_string j of Some s \<Rightarrow> [s] | None \<Rightarrow> as_strings j))"

definition doc_claims :: "auth_config \<Rightarrow> int \<Rightarrow> (string \<times> json) list \<Rightarrow> bool" where
  "doc_claims cfg now cs \<longleftrightarrow>
     expected_issuer cfg \<noteq> [] \<and>
     map_of cs ''iss'' = Some (J_str (expected_issuer cfg)) \<and>
     (\<exists>e. map_of cs ''exp'' = Some (J_num e) \<and> fits_int64 e \<and> now \<le> e + clock_skew_seconds cfg) \<and>
     (\<forall>n. map_of cs ''nbf'' = Some (J_num n) \<and> fits_int64 n \<longrightarrow> n \<le> now + clock_skew_seconds cfg) \<and>
     (require_audience cfg \<longrightarrow> expected_audience cfg \<in> set (doc_audiences cs)) \<and>
     (expected_azp cfg \<noteq> [] \<longrightarrow> map_of cs ''azp'' = Some (J_str (expected_azp cfg)))"

lemma bind_as_string [simp]: "Option.bind x as_string = Some s \<longleftrightarrow> x = Some (J_str s)"
  by (cases x) (auto elim!: as_string_SomeE)

lemma bind_as_int64 [simp]: "Option.bind x as_int64 = Some n \<longleftrightarrow> x = Some (J_num n) \<and> fits_int64 n"
  by (cases x) (auto elim!: as_int64_SomeE split: if_splits)

lemma document_audiences:
  assumes "clear_for ''aud'' cs"
  shows "extract_audience_values (document_text cs) = Inr (doc_audiences cs)"
proof (cases "map_of cs ''aud''")
  case None
  then show ?thesis
    by (simp add: extract_audience_values_def document_strings [OF assms] document_string [OF assms] doc_audiences_def)
next
  case (Some j)
  then show ?thesis
    by (cases j) (simp_all add: extract_audience_values_def document_strings [OF assms] document_string [OF assms]
        doc_audiences_def)
qed

theorem claims_of_document:
  assumes "\<forall>key \<in> {''iss'', ''exp'', ''nbf'', ''aud'', ''azp''}. clear_for key cs"
  shows "claims_ok cfg now (document_text cs) \<longleftrightarrow> doc_claims cfg now cs"
  using assms
  by (simp add: claims_ok_def doc_claims_def document_string document_int64_all document_audiences)

end
