(* ===== verification/RolesText.thy ===== *)
theory RolesText
  imports JsonObject
begin

text \<open>
  The hand-written walk of \<open>extract_all_roles\<close> over the members of \<open>resource_access\<close>, on the text of
  an object with any members: it visits every client and merges the roles it reads.
\<close>

section \<open>The walk over the clients\<close>

lemma member_at:
  assumes "at tx pos (sep_concat (map member_text ((k, v) # ms)) @ ''}'')"
  shows "at tx pos (string_text k @ CHR '':'' # v @ (if ms = [] then ''}'' else CHR '','' # sep_concat (map member_text ms) @ ''}''))"
  using assms by (cases ms) (auto simp: member_text_def)

text \<open>What the walk reads from a member value: the roles of an object, nothing otherwise.\<close>

definition member_roles :: "string \<Rightarrow> string list \<Rightarrow> bool" where
  "member_roles v rs \<longleftrightarrow> value_text v \<and>
     (if hd v = CHR ''{'' then extract_json_string_array v ''roles'' = Inr rs else rs = [])"

abbreviation merge_roles :: "('a \<times> string list) list \<Rightarrow> string list \<Rightarrow> string list" where
  "merge_roles \<equiv> fold (\<lambda>c acc. append_unique acc (snd c))"

lemma resource_roles_members:
  assumes "at ra pos (sep_concat (map member_text (map fst cs)) @ ''}'')"
    and "\<forall>(m, rs) \<in> set cs. plain (fst m) \<and> member_roles (snd m) rs"
  shows "resource_roles_loop ra pos roles = Inr (merge_roles cs roles)"
  using assms
proof (induction cs arbitrary: pos roles)
  case Nil
  then have "length ra = pos + 1" by (auto dest: at_length)
  then show ?case by (simp add: resource_roles_loop.simps [of ra pos roles])
next
  case (Cons c cs)
  obtain k v rs where c: "c = ((k, v), rs)" by (metis surj_pair)
  let ?ms = "map fst cs"
  let ?rest = "if ?ms = [] then ''}'' else CHR '','' # sep_concat (map member_text ?ms) @ ''}''"
  have k: "plain k" and rs: "member_roles v rs" and v: "value_text v"
    using Cons.prems(2) c by (auto simp: member_roles_def)
  have head: "v \<noteq> []" "\<not> isspace (hd v)" using value_text_head [OF v] by simp_all
  have a: "at ra pos (string_text k @ CHR '':'' # v @ ?rest)"
    using member_at [of ra pos k v ?ms] Cons.prems(1) c by simp
  let ?p1 = "pos + length (string_text k)"
  let ?p2 = "Suc (?p1 + length v)"
  have key: "skip_json_string ra pos = ?p1"
    by (rule skip_json_string_body [OF a]) (simp add: plain_str_body k)
  have a1: "at ra ?p1 (CHR '':'' # v @ ?rest)" using at_append [OF a] .
  have a2: "at ra (Suc ?p1) (v @ ?rest)" using at_Cons [OF a1] .
  have a3: "at ra ?p2 ?rest" using at_append [OF a2] by simp
  have ws0: "skip_ws ra pos = pos" by (rule skip_ws_here [OF a]) (simp add: string_text_def)
  have ws1: "skip_ws ra ?p1 = ?p1" by (rule skip_ws_here [OF a1]) simp
  have ws2: "skip_ws ra (Suc ?p1) = Suc ?p1" by (rule skip_ws_here [OF a2]) (simp add: head)
  have ws3: "skip_ws ra ?p2 = ?p2" by (rule skip_ws_here [OF a3]) simp
  have skip: "skip_json_value ra (Suc ?p1) = Inr ?p2"
    using skip_value_at [OF a2 v] by simp
  have sub: "substr ra (Suc ?p1) (length v) = v" by (rule substr_at [OF a2])
  have len: "length ra = ?p2 + length ?rest" using at_length [OF a3] by simp
  have rest1: "length ?rest \<ge> 1" by simp
  have dq: "ra ! pos = DQ" using a at_nth by (fastforce simp: string_text_def)
  have colon: "ra ! ?p1 = CHR '':''" using at_nth [OF a1] .
  let ?next = "if ?p2 < length ra \<and> ra ! ?p2 = CHR '','' then Suc ?p2 else ?p2"
  have key_len: "0 < length (string_text k)" "0 < length v" using head by (simp_all add: string_text_def)
  have read: "hd v = CHR ''{'' \<Longrightarrow> extract_json_string_array v ''roles'' = Inr rs" "hd v \<noteq> CHR ''{'' \<Longrightarrow> rs = []"
    using rs by (auto simp: member_roles_def)
  have step: "resource_roles_loop ra pos roles = resource_roles_loop ra ?next (append_unique roles rs)"
  proof -
    have inside: "Suc pos < length ra" "\<not> length ra - Suc 0 \<le> pos" "?p1 < length ra"
      using len rest1 key_len by linarith+
    show ?thesis
      using key_len
      by (cases "hd v = CHR ''{''"; subst resource_roles_loop.simps)
        (simp_all add: inside ws0 ws1 ws2 ws3 key skip sub dq colon Let_def read)
  qed
  show ?case
  proof (cases "cs = []")
    case True
    with a3 have "ra ! ?p2 = CHR ''}''" by (auto dest: at_nth)
    moreover have "resource_roles_loop ra ?p2 acc = Inr acc" for acc
      using len True by (simp add: resource_roles_loop.simps [of ra ?p2])
    ultimately show ?thesis using step True c by simp
  next
    case False
    then have a4: "at ra ?p2 (CHR '','' # sep_concat (map member_text ?ms) @ ''}'')" using a3 by simp
    have "?next = Suc ?p2" using at_nth [OF a4] len rest1 by simp
    with step Cons.IH [OF at_Cons [OF a4], of "append_unique roles rs"] Cons.prems(2) c show ?thesis by simp
  qed
qed

lemma resource_roles_texts:
  assumes "\<forall>(m, rs) \<in> set cs. plain (fst m) \<and> member_roles (snd m) rs"
  shows "resource_roles_loop (object_text (map fst cs)) (Suc 0) roles = Inr (merge_roles cs roles)"
proof -
  have "at (object_text (map fst cs)) (Suc 0) (sep_concat (map member_text (map fst cs)) @ ''}'')"
    using at_Cons [of "object_text (map fst cs)" 0 "CHR ''{''"] by (simp add: object_text_def)
  from resource_roles_members [OF this assms] show ?thesis .
qed

text \<open>Merging keeps every role once.\<close>

lemma fold_append_unique:
  "distinct acc \<Longrightarrow> set (merge_roles cs acc) = set acc \<union> (\<Union>c \<in> set cs. set (snd c)) \<and>
    distinct (merge_roles cs acc)"
  by (induction cs arbitrary: acc) (auto simp: append_unique_set append_unique_distinct)

end
