(* ===== verification/TokenDoc.thy ===== *)
theory TokenDoc
  imports ClaimsDoc RolesText JwtText
begin

text \<open>
  Tokens whose header and payload are JSON documents: roles, request context and the whole decision
  of a validation in terms of the documents, and key sets and token responses as documents.
\<close>

section \<open>Members of a document\<close>

fun as_members :: "json \<Rightarrow> (string \<times> json) list option" where
  "as_members (J_obj ms) = Some ms"
| "as_members _ = None"

definition doc_object :: "(string \<times> json) list \<Rightarrow> string \<Rightarrow> (string \<times> json) list option" where
  "doc_object cs key = Option.bind (map_of cs key) as_members"

definition doc_string :: "(string \<times> json) list \<Rightarrow> string \<Rightarrow> string \<Rightarrow> string" where
  "doc_string cs key d = value_or d (Option.bind (map_of cs key) as_string)"

lemma document_string_or:
  "clear_for key cs \<Longrightarrow> json_string_or (document_text cs) key d = Inr (doc_string cs key d)"
  by (simp add: json_string_or_def document_string doc_string_def)

lemma json_text_hd_brace:
  assumes "plain_names j"
  shows "hd (json_text j) = CHR ''{'' \<longleftrightarrow> (\<exists>ms. j = J_obj ms)"
  using assms scalar_number_text(1)
  by (cases j) (auto simp: string_text_def array_text_def object_text_def scalar_text_def)

lemma document_object:
  assumes "clear_for key cs"
  shows "extract_json_object (document_text cs) key = Inr (map_option document_text (doc_object cs key))"
proof (cases "map_of cs key")
  case None
  with document_value [OF assms] show ?thesis by (simp add: extract_json_object_def doc_object_def)
next
  case (Some j)
  then have plain: "plain_names j" using assms by (auto simp: clear_for_def dest: map_of_SomeD)
  have ne: "json_text j \<noteq> []" using value_text_head [OF json_text_value [OF plain]] by simp
  show ?thesis
  proof (cases "\<exists>ms. j = J_obj ms")
    case True
    then obtain ms where j: "j = J_obj ms" ..
    with document_value [OF assms] Some json_text_hd_brace [OF plain] ne show ?thesis
      by (simp add: extract_json_object_def doc_object_def document_text_def)
  next
    case False
    then have "as_members j = None" by (cases j) auto
    with document_value [OF assms] Some json_text_hd_brace [OF plain] ne False show ?thesis
      by (simp add: extract_json_object_def doc_object_def)
  qed
qed

section \<open>Roles\<close>

definition doc_role_list :: "(string \<times> json) list \<Rightarrow> string list" where
  "doc_role_list ms = (case map_of ms ''roles'' of None \<Rightarrow> [] | Some j \<Rightarrow> as_strings j)"

definition member_role_list :: "json \<Rightarrow> string list" where
  "member_role_list j = (case as_members j of None \<Rightarrow> [] | Some ms \<Rightarrow> doc_role_list ms)"

definition doc_roles :: "(string \<times> json) list \<Rightarrow> string list" where
  "doc_roles cs =
     merge_roles (map (\<lambda>m. (fst m, member_role_list (snd m))) (value_or [] (doc_object cs ''resource_access'')))
       (append_unique [] (case doc_object cs ''realm_access'' of None \<Rightarrow> [] | Some ms \<Rightarrow> doc_role_list ms))"

text \<open>No role name of a role object is taken for the member \<open>roles\<close>.\<close>

definition roles_clear :: "(string \<times> json) list \<Rightarrow> bool" where
  "roles_clear cs \<longleftrightarrow>
     (\<forall>ms. doc_object cs ''realm_access'' = Some ms \<longrightarrow> clear_for ''roles'' ms) \<and>
     (\<forall>ra k ms. doc_object cs ''resource_access'' = Some ra \<and> (k, J_obj ms) \<in> set ra \<longrightarrow> clear_for ''roles'' ms)"

lemma document_roles_of:
  "clear_for ''roles'' ms \<Longrightarrow> extract_json_string_array (document_text ms) ''roles'' = Inr (doc_role_list ms)"
  by (simp add: document_strings doc_role_list_def)

lemma document_member_roles:
  assumes "plain_names j" and "\<And>ms. j = J_obj ms \<Longrightarrow> clear_for ''roles'' ms"
  shows "member_roles (json_text j) (member_role_list j)"
proof (cases "\<exists>ms. j = J_obj ms")
  case True
  then obtain ms where j: "j = J_obj ms" ..
  with document_roles_of [OF assms(2)] assms(1) json_text_value [OF assms(1)] json_text_hd_brace [OF assms(1)]
  show ?thesis by (simp add: member_roles_def member_role_list_def document_text_def)
next
  case False
  then have "member_role_list j = []" by (cases j) (simp_all add: member_role_list_def)
  with False json_text_value [OF assms(1)] json_text_hd_brace [OF assms(1)] show ?thesis
    by (simp add: member_roles_def)
qed

lemma document_resource_roles:
  assumes "\<forall>(k, v) \<in> set ra. plain k \<and> plain_names v" and "\<And>k ms. (k, J_obj ms) \<in> set ra \<Longrightarrow> clear_for ''roles'' ms"
  shows "resource_roles_loop (document_text ra) (Suc 0) roles =
    Inr (merge_roles (map (\<lambda>m. (fst m, member_role_list (snd m))) ra) roles)"
proof -
  let ?cs = "map (\<lambda>m. ((fst m, json_text (snd m)), member_role_list (snd m))) ra"
  have "document_text ra = object_text (map fst ?cs)"
    by (simp add: document_text_def comp_def map_prod_def case_prod_unfold)
  moreover have "\<forall>(m, rs) \<in> set ?cs. plain (fst m) \<and> member_roles (snd m) rs"
    using assms by (auto intro!: document_member_roles)
  moreover have "merge_roles ?cs roles = merge_roles (map (\<lambda>m. (fst m, member_role_list (snd m))) ra) roles"
    by (induction ra arbitrary: roles) auto
  ultimately show ?thesis using resource_roles_texts [of ?cs roles] by simp
qed

lemma document_roles:
  assumes "clear_for ''realm_access'' cs" and "clear_for ''resource_access'' cs" and "roles_clear cs"
  shows "extract_all_roles (document_text cs) = Inr (doc_roles cs)"
proof -
  have plain: "\<forall>(k, v) \<in> set ra. plain k \<and> plain_names v" if "doc_object cs ''resource_access'' = Some ra" for ra
  proof -
    from that obtain j where j: "map_of cs ''resource_access'' = Some j" "as_members j = Some ra"
      by (auto simp: doc_object_def bind_eq_Some_conv)
    then have "j = J_obj ra" "plain_names j"
      using assms(2) by (auto simp: clear_for_def elim: as_members.elims dest: map_of_SomeD)
    then show ?thesis by simp
  qed
  show ?thesis
    using assms(3) document_resource_roles [OF plain]
    by (cases "doc_object cs ''realm_access''"; cases "doc_object cs ''resource_access''")
      (simp_all add: extract_all_roles_def document_object [OF assms(1)] document_object [OF assms(2)]
        document_roles_of roles_clear_def doc_roles_def value_or_def del: rbind_eq_Inr)
qed

lemma doc_roles_set:
  "distinct (doc_roles cs)"
  "set (doc_roles cs) =
    (case doc_object cs ''realm_access'' of None \<Rightarrow> {} | Some ms \<Rightarrow> set (doc_role_list ms)) \<union>
    (\<Union>(k, v) \<in> set (value_or [] (doc_object cs ''resource_access'')). set (member_role_list v))"
proof -
  let ?start = "append_unique [] (case doc_object cs ''realm_access'' of None \<Rightarrow> [] | Some ms \<Rightarrow> doc_role_list ms)"
  have start: "distinct ?start"
    "set ?start = (case doc_object cs ''realm_access'' of None \<Rightarrow> {} | Some ms \<Rightarrow> set (doc_role_list ms))"
    by (simp_all add: append_unique_set append_unique_distinct split: option.splits)
  note u = fold_append_unique [OF start(1),
      of "map (\<lambda>m. (fst m, member_role_list (snd m))) (value_or [] (doc_object cs ''resource_access''))"]
  show "distinct (doc_roles cs)" using u by (simp add: doc_roles_def)
  show "set (doc_roles cs) =
    (case doc_object cs ''realm_access'' of None \<Rightarrow> {} | Some ms \<Rightarrow> set (doc_role_list ms)) \<union>
    (\<Union>(k, v) \<in> set (value_or [] (doc_object cs ''resource_access'')). set (member_role_list v))"
    using u start(2) by (simp add: doc_roles_def case_prod_unfold)
qed

section \<open>The context of a payload\<close>

definition doc_context :: "(string \<times> json) list \<Rightarrow> request_context" where
  "doc_context cs = (let iss = doc_string cs ''iss'' [] in
     \<lparr>ctx_authenticated = True, ctx_sub = doc_string cs ''sub'' [],
      ctx_preferred_username = doc_string cs ''preferred_username'' [],
      ctx_realm = (if iss = [] then [] else last_path_segment iss), ctx_issuer = iss,
      ctx_client_id = doc_string cs ''azp'' (doc_string cs ''client_id'' []),
      ctx_roles = doc_roles cs, ctx_scopes = split_ws (doc_string cs ''scope'' [])\<rparr>)"

definition claim_names :: "string list" where
  "claim_names = [''iss'', ''exp'', ''nbf'', ''aud'', ''azp'', ''sub'', ''preferred_username'', ''client_id'', ''scope'',
     ''realm_access'', ''resource_access'']"

definition payload_clear :: "(string \<times> json) list \<Rightarrow> bool" where
  "payload_clear cs \<longleftrightarrow> (\<forall>key \<in> set claim_names. clear_for key cs) \<and> roles_clear cs"

lemma payload_clearD: "payload_clear cs \<Longrightarrow> key \<in> set claim_names \<Longrightarrow> clear_for key cs"
  by (simp add: payload_clear_def)

lemma document_context:
  assumes "payload_clear cs"
  shows "build_context (document_text cs) = Inr (doc_context cs)"
proof -
  note c = payload_clearD [OF assms]
  have "extract_all_roles (document_text cs) = Inr (doc_roles cs)"
    by (rule document_roles) (use assms c in \<open>simp_all add: payload_clear_def claim_names_def\<close>)
  then show ?thesis
    by (simp add: build_context_def document_string_or document_string c claim_names_def doc_context_def Let_def
        doc_string_def [of cs "''azp''"] del: rbind_eq_Inr)
qed

section \<open>The decision on a payload\<close>

text \<open>The sums of the time checks stay within 64 bits.\<close>

definition times_fit :: "auth_config \<Rightarrow> int \<Rightarrow> (string \<times> json) list \<Rightarrow> bool" where
  "times_fit cfg now cs \<longleftrightarrow> fits_int64 (now + clock_skew_seconds cfg) \<and>
     (\<forall>e. map_of cs ''exp'' = Some (J_num e) \<and> fits_int64 e \<longrightarrow> fits_int64 (e + clock_skew_seconds cfg))"

lemma document_check_returns:
  assumes "payload_clear cs" and "times_fit cfg now cs"
  shows "\<exists>r. check_claims cfg now (document_text cs) = Inr r"
proof -
  note c = payload_clearD [OF assms(1)]
  have reads: "clear_for key cs" if "key \<in> {''iss'', ''exp'', ''nbf'', ''aud'', ''azp''}" for key
    using that c by (auto simp: claim_names_def)
  have party: "\<exists>r. check_party cfg (document_text cs) = Inr r"
    by (cases "expected_azp cfg = []"; cases "doc_string cs ''azp'' [] = expected_azp cfg")
      (simp_all add: check_party_def Let_def document_string_or reads document_context [OF assms(1)] del: rbind_eq_Inr)
  then have aud: "\<exists>r. check_audience cfg (document_text cs) = Inr r"
    by (auto simp: check_audience_def document_audiences reads simp del: rbind_eq_Inr)
  have exp: "fits_int64 (e + clock_skew_seconds cfg)" if "Option.bind (map_of cs ''exp'') as_int64 = Some e" for e
    using that assms(2) by (simp add: times_fit_def)
  have nbf: "fits_int64 (now + clock_skew_seconds cfg)" using assms(2) by (simp add: times_fit_def)
  show ?thesis
  proof (cases "Option.bind (map_of cs ''exp'') as_int64")
    case None
    then show ?thesis
      by (simp add: check_claims_def document_string document_int64_all reads del: rbind_eq_Inr)
  next
    case (Some e)
    with exp have "add_int64 e (clock_skew_seconds cfg) = Inr (e + clock_skew_seconds cfg)"
      by (simp add: add_int64_def)
    moreover have "add_int64 now (clock_skew_seconds cfg) = Inr (now + clock_skew_seconds cfg)"
      using nbf by (simp add: add_int64_def)
    ultimately show ?thesis using aud Some
      by (cases "Option.bind (map_of cs ''nbf'') as_int64")
        (auto simp: check_claims_def document_string document_int64_all reads simp del: rbind_eq_Inr)
  qed
qed

lemma document_decision:
  assumes "payload_clear cs" and "times_fit cfg now cs" and "expected_issuer cfg \<noteq> []"
  obtains r where "check_claims cfg now (document_text cs) = Inr r"
    and "if doc_claims cfg now cs
      then r = \<lparr>jv_ok = True, jv_http_status = 200, jv_error = [], jv_context = doc_context cs\<rparr>
      else rejects {401, 403} r"
proof -
  obtain r where r: "check_claims cfg now (document_text cs) = Inr r"
    using document_check_returns [OF assms(1,2)] by blast
  have reads: "\<forall>key \<in> {''iss'', ''exp'', ''nbf'', ''aud'', ''azp''}. clear_for key cs"
    using payload_clearD [OF assms(1)] by (auto simp: claim_names_def)
  have "r = \<lparr>jv_ok = True, jv_http_status = 200, jv_error = [], jv_context = doc_context cs\<rparr>"
    if "accepts (document_text cs) r"
    using that document_context [OF assms(1)] by (cases r) (simp add: accepts_def)
  with check_claims_Inr [OF r assms(3)] claims_of_document [OF reads, of cfg now] r that
  show thesis by (auto split: if_splits)
qed

section \<open>The decision on a token\<close>

text \<open>The header of a document names a supported algorithm and a key.\<close>

definition doc_header :: "(string \<times> json) list \<Rightarrow> string \<Rightarrow> string \<Rightarrow> bool" where
  "doc_header hs alg kid \<longleftrightarrow> map_of hs ''alg'' = Some (J_str alg) \<and> evp_digest_for_alg alg \<noteq> None \<and>
     map_of hs ''kid'' = Some (J_str kid) \<and> kid \<noteq> []"

definition header_clear :: "(string \<times> json) list \<Rightarrow> bool" where
  "header_clear hs \<longleftrightarrow> clear_for ''alg'' hs \<and> clear_for ''kid'' hs"

definition document_token :: "(string \<times> json) list \<Rightarrow> (string \<times> json) list \<Rightarrow> string \<Rightarrow> string" where
  "document_token hs cs sg = compact_jwt (document_text hs) (document_text cs) sg"

definition document_signed :: "(string \<times> json) list \<Rightarrow> (string \<times> json) list \<Rightarrow> string" where
  "document_signed hs cs = b64url (document_text hs) @ CHR ''.'' # b64url (document_text cs)"

lemma document_token_decodes:
  "decode_jwt (document_token hs cs sg) = Some \<lparr>signing_input = document_signed hs cs,
    header_json = document_text hs, payload_json = document_text cs, signature = sg\<rparr>"
  by (simp add: document_token_def document_signed_def decode_compact)

lemma document_header_ok:
  "header_clear hs \<Longrightarrow> header_json jwt = document_text hs \<Longrightarrow> header_ok jwt alg kid \<longleftrightarrow> doc_header hs alg kid"
  by (auto simp: header_ok_def doc_header_def header_clear_def document_string)

text \<open>A header that is none is refused before any key is looked up.\<close>

lemma bad_header_refused:
  assumes "config_ok cfg" and "header_clear hs" and "\<nexists>alg kid. doc_header hs alg kid"
  shows "\<exists>err. err \<noteq> [] \<and> validate lib ssl cfg (document_token hs cs sg) w = (Inr (failure 401 err), w)"
proof -
  let ?alg = "doc_string hs ''alg'' []" and ?kid = "doc_string hs ''kid'' []"
  have "?alg = [] \<or> evp_digest_for_alg ?alg = None \<or> ?kid = []"
  proof (rule ccontr)
    assume a: "\<not> ?thesis"
    then have "doc_header hs ?alg ?kid"
      by (auto simp: doc_header_def doc_string_def value_or_def split: option.splits)
    with assms(3) show False by blast
  qed
  then have "\<exists>err. err \<noteq> [] \<and> validate_jwt lib ssl cfg \<lparr>signing_input = document_signed hs cs,
      header_json = document_text hs, payload_json = document_text cs, signature = sg\<rparr> w = (Inr (failure 401 err), w)"
    using assms(2) by (auto simp: validate_jwt_def abind_alift document_string_or header_clear_def)
  moreover have "document_token hs cs sg \<noteq> []" by (simp add: document_token_def)
  ultimately show ?thesis
    using assms(1) by (auto simp: validate_def config_ok_def document_token_decodes)
qed

theorem document_validation:
  fixes w :: "'h vworld"
  assumes "config_ok cfg" and "header_clear hs" and "payload_clear cs" and "cache_fresh w"
    and "times_fit cfg (wall_secs (v_sys w) (Suc (wall_pos (v_sys w)))) cs"
  shows "\<exists>r w'. validate lib ssl cfg (document_token hs cs sg) w = (Inr r, w') \<and>
    (if (\<exists>alg kid k. doc_header hs alg kid \<and> find (\<lambda>k. jwk_kid k = kid) (ca_keys (v_cache w)) = Some k \<and>
          verify_rsa_signature ssl k alg (document_signed hs cs) sg) \<and>
        doc_claims cfg (wall_secs (v_sys w) (Suc (wall_pos (v_sys w)))) cs
     then r = \<lparr>jv_ok = True, jv_http_status = 200, jv_error = [], jv_context = doc_context cs\<rparr>
     else rejects {401, 403} r)"
proof (cases "\<exists>alg kid. doc_header hs alg kid")
  case False
  with bad_header_refused [OF assms(1,2), of lib ssl cs sg w] obtain err where
    "err \<noteq> []" "validate lib ssl cfg (document_token hs cs sg) w = (Inr (failure 401 err), w)" by blast
  with False show ?thesis by (intro exI [of _ "failure 401 err"] exI [of _ w]) simp
next
  case True
  let ?jwt = "\<lparr>signing_input = document_signed hs cs, header_json = document_text hs,
    payload_json = document_text cs, signature = sg\<rparr>" and ?now = "wall_secs (v_sys w) (Suc (wall_pos (v_sys w)))"
  from True obtain alg kid where h: "doc_header hs alg kid" by blast
  have unique: "doc_header hs a k \<longleftrightarrow> a = alg \<and> k = kid" for a k using h by (auto simp: doc_header_def)
  have hdr: "header_ok ?jwt alg kid" using h document_header_ok [OF assms(2), of ?jwt] by simp
  note run = validate_fresh [OF assms(1) document_token_decodes hdr assms(4), of lib ssl]
  obtain r where r: "check_claims cfg ?now (document_text cs) = Inr r"
    "if doc_claims cfg ?now cs
      then r = \<lparr>jv_ok = True, jv_http_status = 200, jv_error = [], jv_context = doc_context cs\<rparr>
      else rejects {401, 403} r"
    by (rule document_decision [OF assms(3,5)]) (use assms(1) in \<open>auto simp: config_ok_def\<close>)
  show ?thesis
  proof (cases "\<exists>k. find (\<lambda>k. jwk_kid k = kid) (ca_keys (v_cache w)) = Some k \<and>
      verify_rsa_signature ssl k alg (document_signed hs cs) sg")
    case True
    then have "check_signed ssl cfg ?jwt alg kid (ca_keys (v_cache w)) (tick_steady (tick_wall w)) =
        (Inr r, tick_wall (tick_steady (tick_wall w)))"
      using r(1) by (auto simp: check_signed_def abind_v_system)
    with run r(2) True show ?thesis unfolding unique by auto
  next
    case False
    then have "\<exists>err. err \<noteq> [] \<and> check_signed ssl cfg ?jwt alg kid (ca_keys (v_cache w)) (tick_steady (tick_wall w)) =
        (Inr (failure 401 err), tick_steady (tick_wall w))"
      by (auto simp: check_signed_def split: option.splits)
    then obtain err where "err \<noteq> []" "check_signed ssl cfg ?jwt alg kid (ca_keys (v_cache w)) (tick_steady (tick_wall w)) =
        (Inr (failure 401 err), tick_steady (tick_wall w))" by blast
    with run False show ?thesis unfolding unique
      by (intro exI [of _ "failure 401 err"] exI [of _ "tick_steady (tick_wall w)"]) auto
  qed
qed

section \<open>Key sets\<close>

text \<open>
  A key set with members of any kind, as providers publish it: the objects with a key type are the
  keys, and of each only the five known members are looked at.
\<close>

definition jwk_of :: "(string \<times> json) list \<Rightarrow> jwk" where
  "jwk_of ms = \<lparr>jwk_kid = doc_string ms ''kid'' [], jwk_kty = doc_string ms ''kty'' [],
     jwk_alg = doc_string ms ''alg'' [], jwk_n = doc_string ms ''n'' [], jwk_e = doc_string ms ''e'' []\<rparr>"

definition doc_keys :: "json list \<Rightarrow> jwk list" where
  "doc_keys js = filter (\<lambda>k. jwk_kty k \<noteq> []) (map jwk_of (List.map_filter as_members js))"

definition keys_clear :: "json list \<Rightarrow> bool" where
  "keys_clear js \<longleftrightarrow> (\<forall>ms. J_obj ms \<in> set js \<longrightarrow> (\<forall>name \<in> {''kid'', ''kty'', ''alg'', ''n'', ''e''}. clear_for name ms))"

lemma jwks_loop_members:
  "\<forall>j \<in> set js. plain_names j \<Longrightarrow> keys_clear js \<Longrightarrow>
    extract_jwks_loop (map json_text js) acc = Inr (acc @ doc_keys js)"
proof (induction js arbitrary: acc)
  case Nil
  then show ?case by (simp add: doc_keys_def List.map_filter_simps)
next
  case (Cons j js)
  then have j: "plain_names j" and clear: "keys_clear js" by (auto simp: keys_clear_def)
  have ne: "json_text j \<noteq> []" using value_text_head [OF json_text_value [OF j]] by simp
  show ?case
  proof (cases "\<exists>ms. j = J_obj ms")
    case True
    then obtain ms where ms: "j = J_obj ms" ..
    have head: "document_text ms \<noteq> []" "hd (document_text ms) = CHR ''{''"
      by (simp_all add: document_text_def object_text_def)
    have "clear_for name ms" if "name \<in> {''kid'', ''kty'', ''alg'', ''n'', ''e''}" for name
      using Cons.prems(2) that ms unfolding keys_clear_def by (metis list.set_intros(1))
    then have "extract_jwks_loop (document_text ms # map json_text js) acc =
        extract_jwks_loop (map json_text js) (if jwk_kty (jwk_of ms) \<noteq> [] then acc @ [jwk_of ms] else acc)"
      by (simp add: document_string_or jwk_of_def head del: rbind_eq_Inr)
    with Cons clear show ?thesis
      by (simp add: ms document_text_def doc_keys_def List.map_filter_simps)
  next
    case False
    then have "as_members j = None" by (cases j) auto
    with Cons clear False json_text_hd_brace [OF j] ne show ?thesis
      by (simp add: doc_keys_def List.map_filter_simps)
  qed
qed

lemma document_keys:
  assumes "clear_for ''keys'' cs" and "map_of cs ''keys'' = Some (J_arr js)" and "keys_clear js"
  shows "extract_jwks (document_text cs) = Inr (doc_keys js)"
proof -
  have plain: "\<forall>j \<in> set js. plain_names j" using assms(1,2) by (auto simp: clear_for_def dest!: map_of_SomeD)
  have "split_json_array_elements (array_text (map json_text js)) = Inr (map json_text js)"
    by (rule split_array_text) (use plain json_text_value in auto)
  moreover have "array_text vs \<noteq> [] \<and> hd (array_text vs) = CHR ''[''" for vs by (simp add: array_text_def)
  ultimately show ?thesis
    using document_value [OF assms(1)] assms(2) jwks_loop_members [OF plain assms(3), of "[]"]
    by (simp add: extract_jwks_def extract_json_array_def del: rbind_eq_Inr)
qed

text \<open>A key set as a document, and the condition under which no value is taken for a member name.\<close>

definition jwk_doc :: "jwk \<Rightarrow> (string \<times> json) list" where
  "jwk_doc k = [(''kid'', J_str (jwk_kid k)), (''kty'', J_str (jwk_kty k)), (''alg'', J_str (jwk_alg k)),
     (''n'', J_str (jwk_n k)), (''e'', J_str (jwk_e k))]"

definition jwks_doc :: "jwk list \<Rightarrow> (string \<times> json) list" where
  "jwks_doc ks = [(''keys'', J_arr (map (\<lambda>k. J_obj (jwk_doc k)) ks))]"

definition jwk_clear :: "jwk \<Rightarrow> bool" where
  "jwk_clear k \<longleftrightarrow> jwk_kty k \<noteq> [] \<and>
     (\<forall>name \<in> {''keys'', ''kid'', ''kty'', ''alg'', ''n'', ''e''}.
      \<forall>v \<in> {jwk_kid k, jwk_kty k, jwk_alg k, jwk_n k, jwk_e k}. \<not> text_mentions name v)"

lemma plain_key_jwk [simp]: "plain_key ''keys''" "plain_key ''kid''" "plain_key ''kty''" "plain_key ''alg''"
  "plain_key ''n''" "plain_key ''e''"
  by (simp_all add: plain_key_def char_class_defs)

lemma jwks_of_document:
  assumes "\<forall>k \<in> set ks. jwk_clear k"
  shows "extract_jwks (document_text (jwks_doc ks)) = Inr ks"
proof -
  let ?js = "map (\<lambda>k. J_obj (jwk_doc k)) ks"
  have plain: "plain_names (J_obj (jwk_doc k))" for k by (auto simp: jwk_doc_def plain_def)
  have "\<not> mentions ''keys'' (J_obj (jwk_doc k))" if "jwk_clear k" for k
    using that by (auto simp: jwk_doc_def jwk_clear_def)
  with assms plain have clear: "clear_for ''keys'' (jwks_doc ks)"
    by (auto simp: clear_for_def jwks_doc_def plain_def simp del: mentions_simps(2) plain_names_simps(2))
  have "clear_for name (jwk_doc k)" if "jwk_clear k" "name \<in> {''kid'', ''kty'', ''alg'', ''n'', ''e''}" for name k
    using that by (auto simp: clear_for_def jwk_doc_def jwk_clear_def plain_def)
  then have "keys_clear ?js" using assms by (auto simp: keys_clear_def)
  moreover have "doc_keys ?js = ks"
    using assms by (induction ks) (auto simp: doc_keys_def List.map_filter_simps jwk_of_def jwk_doc_def doc_string_def
        value_or_def jwk_clear_def)
  ultimately show ?thesis using document_keys [OF clear, of ?js] by (simp add: jwks_doc_def)
qed

end
