(* ===== verification/ServiceDoc.thy ===== *)
theory ServiceDoc
  imports TokenDoc TokenService Discovery
begin

text \<open>
  The responses of the provider as JSON documents: what the token service and the discovery client
  make of a token response, an introspection response, a user info response and a discovery document.
\<close>

section \<open>Integers and literals\<close>

fun as_int32 :: "json \<Rightarrow> int option" where
  "as_int32 (J_num n) = (if fits_int32 n then Some n else None)"
| "as_int32 _ = None"

lemma stoi_no_number:
  assumes "c \<noteq> CHR ''-''" "c \<noteq> CHR ''+''" "\<not> isspace c" "\<not> is_digit c"
  shows "catch_all (stoi (c # cs)) = None"
  using assms by (simp add: stoi_def parse_int_def catch_all_def Let_def)

lemma json_text_int32: "catch_all (stoi (json_text j)) = as_int32 j"
proof (cases j)
  case (J_num n)
  then show ?thesis
    using parse_int_to_string [of "[]" n] by (simp add: stoi_def catch_all_def)
next
  case (J_bool b)
  then show ?thesis by (simp add: stoi_no_number isspace_def is_digit_def)
qed (simp_all add: stoi_no_number isspace_def is_digit_def string_text_def array_text_def object_text_def)

lemma document_int32:
  "clear_for key cs \<Longrightarrow> extract_json_int (document_text cs) key = Inr (Option.bind (map_of cs key) as_int32)"
  by (cases "map_of cs key") (simp_all add: extract_json_int_def document_value json_text_int32)

definition doc_int :: "(string \<times> json) list \<Rightarrow> string \<Rightarrow> int \<Rightarrow> int" where
  "doc_int cs key d = value_or d (Option.bind (map_of cs key) as_int32)"

lemma document_int_or: "clear_for key cs \<Longrightarrow> json_int_or (document_text cs) key d = Inr (doc_int cs key d)"
  by (simp add: json_int_or_def document_int32 doc_int_def)

section \<open>Token responses\<close>

definition token_names :: "string list" where
  "token_names = [''access_token'', ''id_token'', ''refresh_token'', ''token_type'', ''scope'', ''expires_in'',
     ''refresh_expires_in'']"

definition doc_tokens :: "(string \<times> json) list \<Rightarrow> token_set" where
  "doc_tokens cs = \<lparr>access_token = doc_string cs ''access_token'' [], id_token = doc_string cs ''id_token'' [],
     refresh_token = doc_string cs ''refresh_token'' [], token_type = doc_string cs ''token_type'' ''Bearer'',
     tk_scope = doc_string cs ''scope'' [], expires_in = doc_int cs ''expires_in'' 0,
     refresh_expires_in = doc_int cs ''refresh_expires_in'' 0\<rparr>"

lemma document_token_response:
  assumes "\<forall>key \<in> set token_names. clear_for key cs" and "is_2xx (effective_status resp)"
    and "resp_body resp = document_text cs"
  shows "parse_token_response resp fallback = Inr
    (if \<exists>tok. map_of cs ''access_token'' = Some (J_str tok)
     then (oauth_plain True (effective_status resp) [])\<lparr>oa_tokens := doc_tokens cs\<rparr>
     else oauth_plain False (effective_status resp) ''token_response_missing_access_token'')"
proof -
  have reads: "clear_for key cs" if "key \<in> set token_names" for key using assms(1) that by blast
  show ?thesis
  proof (cases "Option.bind (map_of cs ''access_token'') as_string")
    case None
    then have "\<nexists>tok. map_of cs ''access_token'' = Some (J_str tok)" by auto
    with None show ?thesis
      using assms(2,3) reads [of "''access_token''"]
      by (simp add: parse_token_response_def document_string token_names_def)
  next
    case (Some tok)
    then have "map_of cs ''access_token'' = Some (J_str tok)" by simp
    then show ?thesis using assms(2,3) reads
      by (simp add: parse_token_response_def document_string document_string_or document_int_or token_names_def
          doc_tokens_def doc_string_def [of cs "''access_token''"] value_or_def del: rbind_eq_Inr)
  qed
qed

section \<open>User info and introspection\<close>

definition user_names :: "string list" where
  "user_names = [''sub'', ''preferred_username'', ''email'', ''realm_access'', ''resource_access'']"

definition user_clear :: "(string \<times> json) list \<Rightarrow> bool" where
  "user_clear cs \<longleftrightarrow> (\<forall>key \<in> set user_names. clear_for key cs) \<and> roles_clear cs"

definition doc_user :: "(string \<times> json) list \<Rightarrow> user_info" where
  "doc_user cs = \<lparr>ui_sub = doc_string cs ''sub'' [], ui_preferred_username = doc_string cs ''preferred_username'' [],
     ui_email = doc_string cs ''email'' [], ui_roles = doc_roles cs\<rparr>"

lemma document_user: "user_clear cs \<Longrightarrow> read_user_info (document_text cs) = Inr (doc_user cs)"
  by (simp add: read_user_info_def document_string_or document_roles user_clear_def user_names_def doc_user_def
      del: rbind_eq_Inr)

lemma document_user_info:
  assumes "user_clear cs" and "is_2xx (effective_status resp)" and "resp_body resp = document_text cs"
  shows "userinfo_result resp = Inr ((oauth_plain True (effective_status resp) [])\<lparr>oa_user_info := doc_user cs\<rparr>)"
  using assms by (simp add: userinfo_result_def document_user)

definition introspection_names :: "string list" where
  "introspection_names = [''active'', ''scope'', ''token_type'', ''exp'']"

lemma document_introspection:
  assumes "user_clear cs" and "\<forall>key \<in> set introspection_names. clear_for key cs"
    and "is_2xx (effective_status resp)" and "resp_body resp = document_text cs"
  shows "introspect_result resp = Inr
    (if map_of cs ''active'' = Some (J_bool True)
     then (oauth_plain True (effective_status resp) [])
       \<lparr>oa_tokens := empty_token_set\<lparr>tk_scope := doc_string cs ''scope'' [],
          token_type := doc_string cs ''token_type'' ''Bearer'',
          expires_in := doc_int cs ''exp'' (expires_in empty_token_set)\<rparr>, oa_user_info := doc_user cs\<rparr>
     else oauth_plain False 401 ''inactive_token'')"
proof -
  have reads: "clear_for key cs" if "key \<in> set introspection_names" for key using assms(2) that by blast
  have "value_or False (Option.bind (map_of cs ''active'') as_bool) \<longleftrightarrow> map_of cs ''active'' = Some (J_bool True)"
    by (cases "map_of cs ''active''") (auto simp: value_or_def elim: as_bool_SomeE split: option.splits)
  then show ?thesis using assms(3,4) reads
    by (simp add: introspect_result_def document_bool document_user [OF assms(1)] document_string_or document_int32
        introspection_names_def doc_int_def del: rbind_eq_Inr)
qed

section \<open>Discovery\<close>

definition discovery_names :: "string list" where
  "discovery_names = [''issuer'', ''authorization_endpoint'', ''token_endpoint'', ''jwks_uri'', ''userinfo_endpoint'',
     ''revocation_endpoint'', ''introspection_endpoint'', ''end_session_endpoint'']"

lemma document_discovery:
  assumes "\<forall>key \<in> set discovery_names. clear_for key cs"
  shows "read_endpoints (document_text cs) base realm = Inr
    \<lparr>ep_issuer = doc_string cs ''issuer'' (realm_root base realm),
     ep_authorization = doc_string cs ''authorization_endpoint'' (authorization_endpoint base realm),
     ep_token = doc_string cs ''token_endpoint'' (token_endpoint base realm),
     ep_jwks_uri = doc_string cs ''jwks_uri'' (jwks_endpoint base realm),
     ep_userinfo = doc_string cs ''userinfo_endpoint'' (userinfo_endpoint base realm),
     ep_revocation = doc_string cs ''revocation_endpoint'' (revocation_endpoint base realm),
     ep_introspection = doc_string cs ''introspection_endpoint'' (introspection_endpoint base realm),
     ep_end_session = doc_string cs ''end_session_endpoint'' (logout_endpoint base realm)\<rparr>"
  using assms by (simp add: read_endpoints_def discovery_names_def document_string_or del: rbind_eq_Inr)

lemma document_discover_result:
  assumes "clear_for ''error'' cs"
    and "resp_body resp = document_text cs" and "read_endpoints (document_text cs) base realm = Inr eps"
  shows "discover_result base realm resp = Inr
    \<lparr>di_ok = is_2xx (effective_status resp), di_http_status = effective_status resp,
     di_error = (if is_2xx (effective_status resp) then [] else doc_string cs ''error'' ''oidc_discovery_failed''),
     di_endpoints = eps\<rparr>"
  using assms by (simp add: discover_result_def document_string_or Let_def del: rbind_eq_Inr)

lemma doc_string_member: "doc_string cs key d = (case map_of cs key of Some (J_str s) \<Rightarrow> s | _ \<Rightarrow> d)"
  by (simp add: doc_string_def value_or_def split: option.split json.split)

section \<open>The requests of the token service\<close>

text \<open>The body of a form request is read back as the fields; a secret comes last.\<close>

lemma with_secret_reads:
  assumes "map_of (rev kvs) = body"
  shows "map_of (rev (with_secret cfg kvs)) =
    (case ts_client_secret cfg of None \<Rightarrow> body | Some secret \<Rightarrow> body(''client_secret'' \<mapsto> secret))"
  using assms by (simp add: with_secret_def split: option.splits)

lemmas form_request_simps = form_request_def Let_def

lemma service_sends:
  assumes "base_url_ok (ts_base_url cfg) scheme host port ctx" and "blank_defaults lib" and "tok \<noteq> []"
    and "(operation, path, body, reading) \<in>
      {(refresh_tokens lib cfg tok, ''/protocol/openid-connect/token'',
        [''grant_type'' \<mapsto> ''refresh_token'', ''refresh_token'' \<mapsto> tok, ''client_id'' \<mapsto> ts_client_id cfg],
        \<lambda>resp. parse_token_response resp ''token_refresh_failed''),
       (revoke_token lib cfg tok hint, ''/protocol/openid-connect/revoke'',
        [''token'' \<mapsto> tok, ''token_type_hint'' \<mapsto> hint, ''client_id'' \<mapsto> ts_client_id cfg], revoke_result),
       (introspect_token lib cfg tok, ''/protocol/openid-connect/token/introspect'',
        [''token'' \<mapsto> tok, ''client_id'' \<mapsto> ts_client_id cfg], introspect_result)}"
  obtains kvs where "operation h = abind (http_send lib
      (form_request scheme host port (endpoint_path ctx (ts_realm cfg) path) kvs)) (\<lambda>resp. alift (reading resp)) h"
    and "map_of (rev kvs) =
      (case ts_client_secret cfg of None \<Rightarrow> body | Some secret \<Rightarrow> body(''client_secret'' \<mapsto> secret))"
proof -
  note sends = post_form_sends [OF assms(1,2)]
  from assms(4) consider
    (refresh) "operation = refresh_tokens lib cfg tok" "path = ''/protocol/openid-connect/token''"
      "body = [''grant_type'' \<mapsto> ''refresh_token'', ''refresh_token'' \<mapsto> tok, ''client_id'' \<mapsto> ts_client_id cfg]"
      "reading = (\<lambda>resp. parse_token_response resp ''token_refresh_failed'')"
  | (revoke) "operation = revoke_token lib cfg tok hint" "path = ''/protocol/openid-connect/revoke''"
      "body = [''token'' \<mapsto> tok, ''token_type_hint'' \<mapsto> hint, ''client_id'' \<mapsto> ts_client_id cfg]" "reading = revoke_result"
  | (introspect) "operation = introspect_token lib cfg tok" "path = ''/protocol/openid-connect/token/introspect''"
      "body = [''token'' \<mapsto> tok, ''client_id'' \<mapsto> ts_client_id cfg]" "reading = introspect_result"
    by auto
  then show thesis
  proof cases
    case refresh
    show thesis
      by (rule that [of "refresh_fields cfg tok"])
        (use sends assms(3) in \<open>simp add: refresh refresh_tokens_def token_endpoint_def\<close>,
          unfold refresh refresh_fields_def, rule with_secret_reads, auto simp: fun_eq_iff)
  next
    case revoke
    show thesis
      by (rule that [of "revoke_fields cfg tok hint"])
        (use sends assms(3) in \<open>simp add: revoke revoke_token_def revocation_endpoint_def\<close>,
          unfold revoke revoke_fields_def, rule with_secret_reads, auto simp: fun_eq_iff)
  next
    case introspect
    show thesis
      by (rule that [of "introspect_fields cfg tok"])
        (use sends assms(3) in \<open>simp add: introspect introspect_token_def introspection_endpoint_def\<close>,
          unfold introspect introspect_fields_def, rule with_secret_reads, auto simp: fun_eq_iff)
  qed
qed

end
