(* ===== verification/Scenarios.thy ===== *)
theory Scenarios
  imports ServiceDoc AuthHandler
begin

text \<open>
  The scenarios of \<open>tests/keycloak_flow_tests.cpp\<close>, run on the model: each lemma states what one of
  the tests expects, at the inputs of that test. The flow over the memory store, the replay of a
  state and the Redis store are among the runs of Instances and Runs.
\<close>

section \<open>The bodies\<close>

text \<open>JSON text as in the tests; a back quote stands for the double quote.\<close>

definition source :: "string \<Rightarrow> string" where
  "source s = map (\<lambda>c. if c = CHR 0x60 then DQ else c) s"

definition ok_response :: "string \<Rightarrow> http_response" where
  "ok_response body = \<lparr>status_code = 200, resp_body = body\<rparr>"

lemma ok_response_simps [simp]: "effective_status (ok_response body) = 200" "is_2xx 200"
  "resp_body (ok_response body) = body"
  by (simp_all add: ok_response_def effective_status_def is_2xx_def)

definition exchange_doc :: "(string \<times> json) list" where
  "exchange_doc = [(''access_token'', J_str ''access-1''), (''refresh_token'', J_str ''refresh-1''),
     (''id_token'', J_str ''id-1''), (''token_type'', J_str ''Bearer''), (''scope'', J_str ''openid profile''),
     (''expires_in'', J_num 300), (''refresh_expires_in'', J_num 3600)]"

definition introspection_doc :: "(string \<times> json) list" where
  "introspection_doc = [(''active'', J_bool True), (''sub'', J_str ''user-123''),
     (''preferred_username'', J_str ''alice''), (''email'', J_str ''alice@example.com''),
     (''scope'', J_str ''openid profile''), (''realm_access'', J_obj [(''roles'', J_arr [J_str ''admin''])])]"

definition user_doc :: "(string \<times> json) list" where
  "user_doc = [(''sub'', J_str ''user-123''), (''preferred_username'', J_str ''alice''),
     (''email'', J_str ''alice@example.com''),
     (''resource_access'', J_obj [(''api'', J_obj [(''roles'', J_arr [J_str ''reader''])])])]"

lemma test_bodies:
  "source ''{`access_token`:`access-1`,`refresh_token`:`refresh-1`,`id_token`:`id-1`,`token_type`:`Bearer`,`scope`:`openid profile`,`expires_in`:300,`refresh_expires_in`:3600}''
    = document_text exchange_doc"
  "source ''{`active`:true,`sub`:`user-123`,`preferred_username`:`alice`,`email`:`alice@example.com`,`scope`:`openid profile`,`realm_access`:{`roles`:[`admin`]}}''
    = document_text introspection_doc"
  "source ''{`sub`:`user-123`,`preferred_username`:`alice`,`email`:`alice@example.com`,`resource_access`:{`api`:{`roles`:[`reader`]}}}''
    = document_text user_doc"
  by code_simp+

lemmas clear_simps = clear_for_def plain_key_def char_class_defs plain_def text_mentions_def suffix_Cons
  roles_clear_def doc_object_def

section \<open>The token service\<close>

lemma test_exchange:
  "parse_token_response (ok_response (document_text exchange_doc)) fallback = Inr ((oauth_plain True 200 [])\<lparr>oa_tokens :=
     \<lparr>access_token = ''access-1'', id_token = ''id-1'', refresh_token = ''refresh-1'', token_type = ''Bearer'',
      tk_scope = ''openid profile'', expires_in = 300, refresh_expires_in = 3600\<rparr>\<rparr>)"
proof -
  have "\<forall>key \<in> set token_names. clear_for key exchange_doc"
    by (simp add: exchange_doc_def token_names_def clear_simps)
  from document_token_response [OF this, of "ok_response (document_text exchange_doc)" fallback] show ?thesis
    by (simp add: exchange_doc_def doc_tokens_def doc_string_def doc_int_def value_or_def fits_int32_def)
qed

lemma test_introspection:
  "\<exists>r. introspect_result (ok_response (document_text introspection_doc)) = Inr r \<and> oa_ok r \<and>
    ui_roles (oa_user_info r) = [''admin'']"
proof -
  have "user_clear introspection_doc" "\<forall>key \<in> set introspection_names. clear_for key introspection_doc"
    by (simp_all add: user_clear_def user_names_def introspection_names_def introspection_doc_def clear_simps)
  from document_introspection [OF this, of "ok_response (document_text introspection_doc)"] show ?thesis
    by (simp add: introspection_doc_def doc_user_def doc_roles_def doc_object_def doc_role_list_def value_or_def
        List.map_filter_simps)
qed

lemma test_user_info:
  "\<exists>r. userinfo_result (ok_response (document_text user_doc)) = Inr r \<and> oa_ok r \<and>
    ui_email (oa_user_info r) = ''alice@example.com'' \<and> ui_roles (oa_user_info r) = [''reader'']"
proof -
  have "user_clear user_doc" by (simp add: user_clear_def user_names_def user_doc_def clear_simps)
  from document_user_info [OF this, of "ok_response (document_text user_doc)"] show ?thesis
    by (simp add: user_doc_def doc_user_def doc_roles_def doc_object_def doc_role_list_def member_role_list_def
        doc_string_def value_or_def List.map_filter_simps)
qed

section \<open>Discovery\<close>

text \<open>A document that names the issuer of another host and an endpoint that is no string.\<close>

definition discovery_doc :: "(string \<times> json) list" where
  "discovery_doc = [(''issuer'', J_str ''https://other/r''), (''token_endpoint'', J_null)]"

lemma discovery_doc_clear:
  "\<forall>key \<in> {''issuer'', ''authorization_endpoint'', ''token_endpoint'', ''jwks_uri'', ''userinfo_endpoint'',
      ''revocation_endpoint'', ''introspection_endpoint'', ''end_session_endpoint'', ''error''}. clear_for key discovery_doc"
  by (simp add: discovery_doc_def clear_simps)

section \<open>The validator\<close>

text \<open>The payload that the tests sign at the time \<open>now\<close>, and the configuration they check it with.\<close>

definition payload_doc :: "int \<Rightarrow> (string \<times> json) list" where
  "payload_doc now = [(''iss'', J_str ''https://issuer.example/realms/demo''), (''sub'', J_str ''user-123''),
     (''preferred_username'', J_str ''alice''), (''aud'', J_arr [J_str ''api-audience'']),
     (''azp'', J_str ''spa-client''), (''scope'', J_str ''openid profile email''), (''exp'', J_num (now + 3600)),
     (''nbf'', J_num (now - 5)), (''realm_access'', J_obj [(''roles'', J_arr [J_str ''admin''])]),
     (''resource_access'', J_obj [(''api'', J_obj [(''roles'', J_arr [J_str ''reader''])])])]"

definition test_auth :: auth_config where
  "test_auth = \<lparr>expected_issuer = ''https://issuer.example/realms/demo'',
     jwks_url = ''https://issuer.example/realms/demo/protocol/openid-connect/certs'', jwks_cache_ttl = 300,
     require_audience = True, expected_audience = ''api-audience'', expected_azp = ''spa-client'',
     clock_skew_seconds = 30\<rparr>"

lemma payload_doc_clear: "payload_clear (payload_doc now)"
  by (simp add: payload_clear_def claim_names_def payload_doc_def clear_simps)

lemma test_payload_accepted:
  assumes "0 \<le> now" and "now < 2 ^ 62"
  shows "\<exists>r. check_claims test_auth now (document_text (payload_doc now)) = Inr r \<and> jv_ok r \<and>
    ctx_preferred_username (jv_context r) = ''alice'' \<and> ctx_roles (jv_context r) = [''admin'', ''reader'']"
proof -
  have fit: "times_fit test_auth now (payload_doc now)" and claims: "doc_claims test_auth now (payload_doc now)"
    using assms by (auto simp: times_fit_def doc_claims_def test_auth_def payload_doc_def fits_int64_def
        doc_audiences_def List.map_filter_simps)
  obtain r where "check_claims test_auth now (document_text (payload_doc now)) = Inr r"
    "r = \<lparr>jv_ok = True, jv_http_status = 200, jv_error = [], jv_context = doc_context (payload_doc now)\<rparr>"
    by (rule document_decision [OF payload_doc_clear fit]) (use claims in \<open>auto simp: test_auth_def\<close>)
  then show ?thesis
    by (simp add: doc_context_def payload_doc_def doc_string_def value_or_def doc_roles_def doc_object_def
        doc_role_list_def member_role_list_def List.map_filter_simps Let_def)
qed

text \<open>Without the issuer or without the expiry the payload is refused, with the errors of the tests.\<close>

lemma test_missing_issuer:
  "check_claims test_auth now (document_text (drop 1 (payload_doc now))) = Inr (failure 401 ''jwt_missing_issuer'')"
proof -
  have "clear_for ''iss'' (drop 1 (payload_doc now))" by (simp add: payload_doc_def clear_simps)
  then show ?thesis by (simp add: check_claims_def document_string) (simp add: payload_doc_def)
qed

lemma test_missing_exp:
  "check_claims test_auth now (document_text (take 6 (payload_doc now))) = Inr (failure 401 ''jwt_missing_exp'')"
proof -
  have "clear_for ''iss'' (take 6 (payload_doc now))" "clear_for ''exp'' (take 6 (payload_doc now))"
    by (simp_all add: payload_doc_def clear_simps)
  then show ?thesis
    by (simp add: check_claims_def document_string document_int64_all) (simp add: payload_doc_def test_auth_def)
qed

section \<open>The cookies and the handlers\<close>

lemma test_parse_cookie_header:
  "parse_cookie_header ''access_token=abc.def; refresh_token=refresh%201'' ''access_token'' = Some ''abc.def''"
  "parse_cookie_header ''access_token=abc.def; refresh_token=refresh%201'' ''refresh_token'' = Some ''refresh 1''"
  by code_simp+

definition trader_config :: handler_config where
  "trader_config = \<lparr>hc_token_cookies = \<lparr>tc_access_token_name = ''access_token'', tc_refresh_token_name = ''refresh_token'',
     tc_path = ''/'', tc_secure = False, tc_same_site = ''Lax''\<rparr>, hc_post_login_redirect = ''/app'',
     hc_post_logout_redirect = ''/signed-out'', hc_revoke_refresh_token_on_logout = True\<rparr>"

definition trader_client :: "unit auth_client" where
  "trader_client = \<lparr>ac_has_realm = (\<lambda>realm. realm = ''trader''),
     ac_start_login = (\<lambda>realm ttl w. (Inr \<lparr>authorization_url = ''https://issuer.example/auth?realm='' @ realm @ ''&state=state-1'',
       as_state = ''state-1''\<rparr>, w)),
     ac_complete_login = (\<lambda>inp w. (Inr \<lparr>cr_ok = True, cr_http_status = 200, cr_error = [],
       cr_tokens = \<lparr>access_token = ''access-1'', id_token = ''id-1'', refresh_token = ''refresh-1'', token_type = ''Bearer'',
         tk_scope = ''openid profile'', expires_in = 300, refresh_expires_in = 3600\<rparr>, cr_realm = ''trader''\<rparr>, w))\<rparr>"

definition trader_tokens :: "(string \<times> string) list auth_tokens" where
  "trader_tokens = \<lparr>at_has_realm = (\<lambda>realm. realm = ''trader''),
     at_revoke_token = (\<lambda>realm tok hint log. (Inr (oauth_plain True 204 []), log @ [(realm, tok)]))\<rparr>"

definition get_request :: "string \<Rightarrow> (string \<times> string) list \<Rightarrow> request" where
  "get_request query headers = blank_request\<lparr>method_token := ''GET'', req_uri := blank_uri\<lparr>uri_query := query\<rparr>,
     req_headers := headers\<rparr>"

lemma test_login:
  "handle_login trader_client (get_request ''realm=trader'' []) ((), []) = (Inr (), ((),
    [Set_status 302, Add_header ''Location'' ''https://issuer.example/auth?realm=trader&state=state-1''] @ no_store @
    [Set_body []]))"
  by code_simp

lemma test_callback:
  "handle_callback trader_config trader_client (get_request ''code=auth-code&state=state-1'' []) ((), []) = (Inr (), ((),
    no_store @
    [Add_header ''Set-Cookie'' ''access_token_trader=access-1; Path=/; Max-Age=300; HttpOnly; SameSite=Lax'',
     Add_header ''Set-Cookie'' ''refresh_token_trader=refresh-1; Path=/; Max-Age=3600; HttpOnly; SameSite=Lax'',
     Set_status 302, Add_header ''Location'' ''/app'', Set_body []]))"
  by code_simp

definition trader_lib :: "unit http_lib" where
  "trader_lib = \<lparr>default_uri = blank_uri, default_request = blank_request,
     header_value = (\<lambda>hs name. map_of hs name), http_send = (\<lambda>req w. (Inr (ok_response []), w))\<rparr>"

lemma test_logout:
  "handle_logout trader_lib trader_config trader_tokens (get_request ''realm=trader''
      [(''Cookie'', ''access_token_trader=access-1; refresh_token_trader=refresh-1'')]) ([], []) =
    (Inr (), ([(''trader'', ''refresh-1'')],
    no_store @
    [Add_header ''Set-Cookie'' ''access_token_trader=; Path=/; Max-Age=0; HttpOnly; SameSite=Lax'',
     Add_header ''Set-Cookie'' ''refresh_token_trader=; Path=/; Max-Age=0; HttpOnly; SameSite=Lax'',
     Set_status 302, Add_header ''Location'' ''/signed-out'', Set_body []]))"
  by code_simp

end
