(* ===== verification/Runs.thy ===== *)
theory Runs
  imports Instances Sessions StoreApi LoginLiveness ValidatorProgress Scenarios
begin

text \<open>
  Concrete runs: interleaved validations against a provider that publishes one key, logins over the
  Redis store, a session from the callback to the logout, and documents.
\<close>

section \<open>A provider and two validations\<close>

lemma demo_key_clear: "jwk_clear demo_key"
proof -
  have "b64url ''nn'' = ''bm4''" "b64url ''e'' = ''ZQ''" by code_simp+
  then show ?thesis by (simp add: jwk_clear_def demo_key_def text_mentions_def suffix_Cons del: b64url.simps)
qed

definition keys_response :: http_response where
  "keys_response = \<lparr>status_code = 200, resp_body = document_text (jwks_doc [demo_key])\<rparr>"

lemma keys_response_answer: "key_answer [demo_key] keys_response"
  using jwks_of_document [of "[demo_key]"] demo_key_clear
  by (simp add: key_answer_def keys_response_def effective_status_def is_2xx_def)

lemma demo_serves: "serves_keys (demo_lib keys_response) demo_auth [demo_key]"
proof -
  have "url_parts_ok ''https'' ''k'' ''/certs''" by (simp add: url_parts_ok_def)
  moreover have "jwks_url demo_auth = url_text ''https'' ''k'' 0 ''/certs'' []"
    by (simp add: demo_auth_def url_text_def port_part_def)
  ultimately have "\<exists>req. make_json_get (demo_lib keys_response) (jwks_url demo_auth) None = Inr req"
    using request_url_get [of "''https''" "''k''" "''/certs''" "demo_lib keys_response" 0 "[]" None]
    by (cases "make_json_get (demo_lib keys_response) (jwks_url demo_auth) None") auto
  then show ?thesis using keys_response_answer by (auto simp: serves_keys_def)
qed

text \<open>A validator as constructed, in an environment whose steady clock stands still.\<close>

definition demo_system :: "request list vsystem" where
  "demo_system = \<lparr>sy_world = ((\<lparr>ca_keys = [], ca_expires_at = 0\<rparr>, demo_env\<lparr>steady_ticks := (\<lambda>n. 0)\<rparr>), []),
     sy_threads = [], sy_replies = []\<rparr>"

lemma demo_system_start: "v_start demo_system"
  by (simp add: v_start_def demo_system_def v_cache_def)

lemma demo_genuine:
  "genuine_during demo_ssl demo_auth [demo_key] (v_sys (sy_world demo_system)) s' demo_jwt demo_context"
proof -
  have "steady_add 0 300 = Inr (300 * 10 ^ 9)" by (simp add: steady_add_def add_int64_def fits_int64_def)
  moreover have "signed_by demo_ssl [demo_key] demo_jwt" "claims_ok demo_auth 50 (payload_json demo_jwt)"
    using demo_authentic by (auto simp: authentic_def signed_by_def demo_jwt_def)
  ultimately show ?thesis
    using demo_payload_ok demo_config_ok
    by (simp add: genuine_during_def demo_system_def v_sys_def demo_jwt_def) (simp add: demo_auth_def)
qed

text \<open>Two calls with the same token, and their steps in a mixed order.\<close>

definition two_calls :: "request list vsystem" where
  "two_calls = demo_system\<lparr>sy_threads := [(demo_token, V_begin), (demo_token, V_begin)]\<rparr>"

definition mixed_run :: "request list vsystem" where
  "mixed_run = fold (run_thread (demo_lib keys_response) demo_ssl demo_auth) [0, 1, 0, 1, 1, 1, 0, 0] two_calls"

lemma two_calls_reached:
  "v_steps (demo_lib keys_response) demo_ssl demo_auth demo_system [New_call demo_token, New_call demo_token] two_calls"
proof -
  let ?steps = "v_steps (demo_lib keys_response) demo_ssl demo_auth demo_system"
  have "?steps [New_call demo_token] (demo_system\<lparr>sy_threads := [(demo_token, V_begin)]\<rparr>)"
    using v_steps.v_call [OF v_steps.v_stop, of "demo_lib keys_response" demo_ssl demo_auth demo_system demo_token]
    by (simp add: demo_system_def)
  from v_steps.v_call [OF this, of demo_token] show ?thesis by (simp add: two_calls_def)
qed

lemma mixed_run_steps:
  "v_steps (demo_lib keys_response) demo_ssl demo_auth two_calls (map At_thread [0, 1, 0, 1, 1, 1, 0, 0]) mixed_run"
  unfolding mixed_run_def by (rule v_steps_schedule) (simp add: two_calls_def)

lemma mixed_run_accepts: "(demo_token, V_done (Inr (acceptance demo_context))) \<in> set (sy_threads mixed_run)"
proof -
  have "sy_threads mixed_run ! 0 = (demo_token, V_done (Inr (acceptance demo_context)))"
    by (rule genuine_progress [OF two_calls_reached mixed_run_steps demo_system_start demo_serves demo_genuine
        demo_decodes]) (simp_all add: two_calls_def)
  moreover have "0 < length (sy_threads mixed_run)" by (simp add: mixed_run_def two_calls_def)
  ultimately show ?thesis by (metis nth_mem)
qed

lemma mixed_run_reached:
  "\<exists>evs. v_steps (demo_lib keys_response) demo_ssl demo_auth demo_system evs mixed_run"
  using v_steps_append [OF mixed_run_steps two_calls_reached] by blast

section \<open>Logins over Redis\<close>

definition login_entry :: state_entry where
  "login_entry = \<lparr>se_code_verifier = code_verifier demo_pair, se_realm = ''r''\<rparr>"

definition redis_entry :: "string \<Rightarrow> string option" where
  "redis_entry = [make_key ''p:'' demo_state \<mapsto> encode_state_entry login_entry]"

lemma redis_create_login:
  "redis_create_state_entry plain_redis ''p:'' login_entry 300 (Map.empty, zero_env p q) =
    (Inr demo_state, (redis_entry, zero_env p (Suc q)))"
proof -
  have draw: "on_snd random_state_32 (m, zero_env p q) = (Inr demo_state, (m, zero_env p (Suc q)))"
    for m :: "string \<Rightarrow> string option"
    by (simp add: on_snd_def random_state_32_def RAND_bytes_def abind_def zero_env_def demo_state_def kStateBytes_def)
  have "redis_attempts plain_redis ''p:'' (Suc n) (encode_state_entry login_entry) t (Map.empty, zero_env p q) =
      (Inr demo_state, (redis_entry, zero_env p (Suc q)))" for n t
    by (simp add: abind_def draw redis_entry_def)
  then show ?thesis unfolding redis_create_state_entry_def by (simp only: numeral_eq_Suc)
qed

lemma redis_consume_login:
  "redis_consume_state_entry plain_redis ''p:'' demo_state (redis_entry, s) = (Inr (Some login_entry), (Map.empty, s))"
proof -
  have "se_code_verifier login_entry \<noteq> []" by (simp add: login_entry_def demo_pair_def)
  then show ?thesis
    by (simp add: redis_consume_state_entry_def redis_entry_def entry_of_encoded)
qed

abbreviation redis_client :: "(string \<Rightarrow> string option, request list) lworld auth_client" where
  "redis_client \<equiv> multi_realm_client demo_http demo_plib (redis_create_state_entry plain_redis ''p:'')
     (redis_consume_state_entry plain_redis ''p:'') demo_manager"

lemma redis_login:
  "ac_start_login redis_client ''r'' 300 ((Map.empty, zero_env p q), log) =
    (Inr demo_start, ((redis_entry, zero_env p (Suc (Suc q))), log))"
proof -
  have "on_snd (generate_pkce_pair demo_plib 64) (m, zero_env p q) = (Inr demo_pair, (m, zero_env p (Suc q)))"
    for m :: "string \<Rightarrow> string option"
    by (simp add: on_snd_def demo_pkce)
  with redis_create_login [of p "Suc q"] show ?thesis
    by (simp add: multi_realm_client_def manager_start_login_def on_fst_def abind_def lookup_realm_def
        demo_manager_def demo_config_def demo_realm_def demo_start_def login_entry_def)
qed

lemma redis_callback:
  "\<exists>req. ac_complete_login redis_client demo_input ((redis_entry, s), log) =
    (Inr demo_result, ((Map.empty, s), log @ [req]))"
proof -
  have ne: "demo_state \<noteq> []" "code_verifier demo_pair \<noteq> []"
    using state_hex_shape [of "replicate 16 (char_of (0 :: nat))"] by (auto simp: demo_state_def demo_pair_def)
  then obtain req where
    "exchange_authorization_code demo_http demo_ts ''code'' (code_verifier demo_pair) log =
      (Inr ((oauth_plain True 200 [])\<lparr>oa_tokens := demo_tokens\<rparr>), log @ [req])"
    using demo_exchange [of "''code''" "code_verifier demo_pair" log] by auto
  with ne show ?thesis
    by (simp add: multi_realm_client_def manager_complete_login_def demo_input_def on_fst_def on_snd_def abind_def
        redis_consume_login demo_manager_def demo_config_def callback_of_def demo_result_def demo_realm_def
        login_entry_def)
qed

lemma redis_run:
  "\<exists>w'. run_logins redis_client [Do_start ''r'' 300, Do_complete demo_input, Do_start ''r'' 300, Do_complete demo_input]
     ((Map.empty, zero_env 0 0), []) =
   ([Started ''r'' (Inr demo_start), Completed demo_input (Inr demo_result),
     Started ''r'' (Inr demo_start), Completed demo_input (Inr demo_result)], w')"
proof -
  obtain r1 where c1: "ac_complete_login redis_client demo_input ((redis_entry, zero_env 0 2), []) =
      (Inr demo_result, ((Map.empty, zero_env 0 2), [r1]))"
    using redis_callback [of "zero_env 0 2" "[]"] by auto
  obtain r2 where c2: "ac_complete_login redis_client demo_input ((redis_entry, zero_env 0 4), [r1]) =
      (Inr demo_result, ((Map.empty, zero_env 0 4), [r1, r2]))"
    using redis_callback [of "zero_env 0 4" "[r1]"] by auto
  have s1: "ac_start_login redis_client ''r'' 300 ((Map.empty, zero_env 0 0), []) =
      (Inr demo_start, ((redis_entry, zero_env 0 2), []))"
    using redis_login [of 0 0 "[]"] by (simp add: numeral_2_eq_2)
  have s2: "ac_start_login redis_client ''r'' 300 ((Map.empty, zero_env 0 2), [r1]) =
      (Inr demo_start, ((redis_entry, zero_env 0 4), [r1]))"
    using redis_login [of 0 2 "[r1]"] by (simp add: eval_nat_numeral)
  show ?thesis by (simp add: s1 c1 s2 c2)
qed

section \<open>A session\<close>

text \<open>A client whose logins all end with the same tokens.\<close>

definition session_result :: callback_result where
  "session_result = \<lparr>cr_ok = True, cr_http_status = 200, cr_error = [],
     cr_tokens = demo_tokens\<lparr>refresh_token := ''R;T''\<rparr>, cr_realm = ''r''\<rparr>"

definition session_client :: "unit auth_client" where
  "session_client = \<lparr>ac_has_realm = (\<lambda>realm. True),
     ac_start_login = (\<lambda>realm ttl w. (Inl (Runtime_error []), w)),
     ac_complete_login = (\<lambda>inp w. (Inr session_result, w))\<rparr>"

definition session_logout :: "resp_op list \<Rightarrow> request" where
  "session_logout tr = blank_request\<lparr>req_uri := blank_uri\<lparr>uri_query := build_form_body [(''realm'', ''r'')]\<rparr>,
     req_headers := [(''Cookie'', agent_cookies tr)]\<rparr>"

lemma session_callback:
  "\<exists>tr. handle_callback demo_handler session_client blank_request ((), []) = (Inr (), ((), tr))"
  by (simp add: handle_callback_def session_client_def session_result_def on_fst_def abind_def Let_def)

section \<open>Documents\<close>

definition demo_claims_doc :: "(string \<times> json) list" where
  "demo_claims_doc = [(''iss'', J_str ''https://k/realms/r''), (''exp'', J_num 100),
     (''aud'', J_arr [J_str ''a'', J_str ''svc'']), (''sub'', J_str ''u\"1'')]"

lemma demo_claims_clear: "\<forall>key \<in> {''iss'', ''exp'', ''nbf'', ''aud'', ''azp''}. clear_for key demo_claims_doc"
  by (simp add: demo_claims_doc_def clear_simps)

definition header_doc :: "(string \<times> json) list" where
  "header_doc = [(''alg'', J_str ''RS256''), (''typ'', J_str ''JWT''), (''kid'', J_str ''k1'')]"

lemma header_doc_clear: "header_clear header_doc"
  by (simp add: header_clear_def header_doc_def clear_simps)

lemma demo_key_kid: "jwk_kid demo_key = ''k1''"
  by (simp add: demo_key_def)

lemma demo_verifies: "verify_rsa_signature demo_ssl demo_key ''RS256'' i ''sig''"
  by (simp add: verify_rsa_signature_def evp_digest_for_alg_def make_rsa_public_key_def demo_key_def demo_ssl_def
      del: b64url.simps)

lemma test_auth_ok: "config_ok test_auth"
  by (simp add: config_ok_def test_auth_def)

lemma payload_doc_times: "times_fit test_auth 50 (payload_doc 50)" "doc_claims test_auth 50 (payload_doc 50)"
  by (auto simp: times_fit_def doc_claims_def test_auth_def payload_doc_def fits_int64_def doc_audiences_def
      List.map_filter_simps)

text \<open>A key set with members that the library does not read, and a key without a type.\<close>

definition published_keys_doc :: "json list" where
  "published_keys_doc = [J_obj [(''kid'', J_str ''k1''), (''kty'', J_str ''RSA''), (''use'', J_str ''sig''), (''alg'', J_str ''RS256''),
       (''n'', J_str ''bm4''), (''x5c'', J_arr [J_str ''MIIC'']), (''e'', J_str ''ZQ'')],
     J_obj [(''kid'', J_str ''k2''), (''use'', J_str ''enc'')], J_null]"

lemma published_keys_clear: "clear_for ''keys'' [(''keys'', J_arr published_keys_doc)]" "keys_clear published_keys_doc"
  by (auto simp: published_keys_doc_def keys_clear_def clear_simps)

end
