(* ===== verification/Deviations.thy ===== *)
theory Deviations
  imports AuthHandler TokenValidator
begin

text \<open>
  Where the code departs from what it is meant to do, beyond the cases that the root theory states:
  each as a statement about the definitions that model the code.
\<close>

text \<open>
  After a rotation of the provider's keys: while the cached keys are fresh, a token with a key id
  that is not among them is refused without a request, so the new keys are not learned before the
  cache expires.
\<close>

lemma rotated_key_refused:
  assumes "config_ok cfg" and "decode_jwt tok = Some jwt" and "header_ok jwt alg kid" and "cache_fresh w"
    and "\<forall>k \<in> set (ca_keys (v_cache w)). jwk_kid k \<noteq> kid"
  shows "\<exists>w'. validate lib ssl cfg tok w = (Inr (failure 401 ''jwks_key_not_found''), w') \<and>
    snd w' = snd w \<and> v_cache w' = v_cache w"
proof -
  have "find (\<lambda>k. jwk_kid k = kid) (ca_keys (v_cache w)) = None"
    using assms(5) by (auto simp: find_None_iff)
  then show ?thesis by (simp add: validate_fresh [OF assms(1-4)] check_signed_def)
qed

text \<open>An escape with one hexadecimal digit and any other character behind it is decoded all the same.\<close>

lemma loose_escape_decoded:
  assumes "is_hex h" and "h \<noteq> CHR ''0''" and "\<not> is_hex c"
  shows "url_decode (CHR ''%'' # h # c # rest) = to_char (int (hex_val h)) # url_decode rest"
proof -
  have "\<not> isspace h" "h \<noteq> CHR ''-''" "h \<noteq> CHR ''+''"
    using assms(1) by (auto simp: is_hex_def isspace_def is_digit_def)
  with assms have "hex_extract [h, c] = Some (int (hex_val h))"
    by (simp add: hex_extract_def)
  then show ?thesis by simp
qed

text \<open>So an ampersand can be written without its code, and a bare \<open>%\<close> in front of a digit is lost.\<close>

lemma loose_escape_example: "url_decode ''50%9 off'' = ''50'' @ [char_of (9 :: nat)] @ ''off''"
proof -
  have "is_hex CHR ''9''" "\<not> is_hex CHR '' ''" by (simp_all add: is_hex_def is_digit_def)
  from loose_escape_decoded [OF this(1) _ this(2), of "''off''"] show ?thesis
    by (simp add: to_char_def hex_val_def is_digit_def)
qed

text \<open>
  The authorization URL keeps the trailing slash of a base URL, the other endpoints drop it.
\<close>

lemma strategy_keeps_slash:
  assumes "rc_base_url cfg = base @ ''/''" and "base \<noteq> []" and "last base \<noteq> CHR ''/''"
  shows "strategy_endpoint cfg = base @ ''//realms/'' @ url_encode (rc_realm cfg) @ ''/protocol/openid-connect/auth''"
    and "authorization_endpoint (rc_base_url cfg) (rc_realm cfg) =
      base @ ''/realms/'' @ url_encode (rc_realm cfg) @ ''/protocol/openid-connect/auth''"
proof -
  show "strategy_endpoint cfg = base @ ''//realms/'' @ url_encode (rc_realm cfg) @ ''/protocol/openid-connect/auth''"
    using assms(1) by (simp add: strategy_endpoint_def)
  have "trim_trailing_slash base = base"
    using assms(2,3) by (simp add: trim_trailing_slash_def strip_back_stop)
  then show "authorization_endpoint (rc_base_url cfg) (rc_realm cfg) =
      base @ ''/realms/'' @ url_encode (rc_realm cfg) @ ''/protocol/openid-connect/auth''"
    using realm_root_slashes [of base 1] assms(1) by (simp add: authorization_endpoint_def realm_root_def)
qed

text \<open>A URL without a path whose query contains a slash: the tail of the query becomes the path.\<close>

lemma query_slash_taken_as_path:
  assumes "blank_defaults lib"
  shows "parse_absolute_uri lib ''https://k?next=/x'' =
    Inr \<lparr>uri_scheme = ''https'', uri_host = ''k'', uri_port = 0, uri_path = ''/x'', uri_query = ''next=/x''\<rparr>"
proof -
  have "find_str ''://'' ''https://k?next=/x'' 0 = Some 5" "find_ch CHR ''/'' ''https://k?next=/x'' 8 = Some 15"
    "find_ch CHR ''?'' ''https://k?next=/x'' 8 = Some 9" "rfind_ch CHR '':'' ''k'' = None"
    by code_simp+
  with assms show ?thesis
    by (simp add: parse_absolute_uri_def parse_authority_def blank_defaults_def blank_uri_def Let_def value_at_def
        substr_def)
qed

text \<open>Control characters other than the five that are named are not escaped.\<close>

lemma control_character_unescaped: "json_escape [CHR 0x01] = [CHR 0x01]"
  by code_simp

end
