(* ===== verification/Spec2Isabelle.thy ===== *)
theory Spec2Isabelle
  imports Runs Deviations
begin

text \<open>
  UIdentity is a C++ library for signing users in with Keycloak: it starts a login (authorization
  code flow with PKCE), completes it in a callback, keeps the login states in memory or in Redis,
  talks to the token endpoints, validates access tokens against the realm's published keys, and
  offers HTTP handlers on top. This library models all of its own code and proves what it promises;
  paths below are under \<open>src/\<close>, and \<open>inc\<close> abbreviates \<open>include/uidentity\<close>.

  \<^bold>\<open>How the parts interact.\<close> \<open>AuthHandler\<close> (login, callback,
  logout) parses a request and calls a client: \<open>KeycloakClient\<close> for one realm or
  \<open>MultiRealmManager\<close> for several. Starting a login draws a PKCE pair, stores the
  verifier and the realm under a fresh random state in a state store, and redirects to the
  authorization URL built by \<open>PkceAuthStrategy\<close>. The callback consumes the state,
  exchanges the code through \<open>TokenService\<close>, and sets the tokens as cookies.
  \<open>BearerAuthMiddleware\<close> protects other endpoints: it hands the token of the
  Authorization header to \<open>AccessTokenValidator\<close>, which fetches and caches the key set
  and checks signature and claims. The hand-written JSON, JWT, URL and cookie code below serves all
  of them.

  \<^bold>\<open>How C++ is represented.\<close> A \<open>std::string\<close> or
  \<open>string_view\<close> is a list of 8-bit characters; a scanner keeps its index as a
  \<open>nat\<close>, as the code does. A call returns \<open>'a res\<close>: \<open>Inr\<close> a
  value or \<open>Inl\<close> an exception, an undefined behaviour (signed overflow) or
  \<open>Diverges\<close>. Code with effects is an action on an explicit state (\<open>('w, 'a)
  act\<close> in Base): the entries of a store, the key cache, and the process environment
  \<open>sysenv\<close>, which holds the values the two clocks and \<open>RAND_bytes\<close> will
  return and how many were read. A \<open>for\<close> or \<open>while\<close> loop is a recursive
  function; the one loop of the sources that may run forever, \<open>skip_json_value\<close>, is a
  \<open>partial_function\<close>, so its not returning is a value. The eight attempts to find an
  unused state are the literal bound of the code; no other fuel is used.

  \<^bold>\<open>Theories and what they model.\<close>
  \<^item> Base: the result and state monads, the standard library's string searches, \<open>stoi\<close>, \<open>stoll\<close>,
    \<open>to_string\<close>, and the loop over separated parts shared by forms, cookies and Redis entries.
  \<^item> UrlEncode: \<open>inc/utils/url_encode.hpp\<close>, with the escape reading of \<open>std::hex\<close>.
  \<^item> JsonUtils: \<open>inc/keycloak/detail/json_utils.hpp\<close>, every function. JsonText and JsonObject: the
    grammar of the JSON texts on which the reader is exact, and the lookup of a member in them.
  \<^item> JwtUtils: \<open>inc/keycloak/detail/jwt_utils.hpp\<close>; JwtText: compact tokens, round trips, and the
    texts on which the reader loops or is confused.
  \<^item> Pkce: \<open>src/keycloak/pkce.cpp\<close>; PkceStrategy: \<open>inc/keycloak/config.hpp\<close> and
    \<open>auth/pkce_auth_strat.hpp\<close>.
  \<^item> HttpTypes: \<open>inc/api_models/http_context.hpp\<close> and the parts of \<open>unet\<close> used; OidcUtils:
    \<open>inc/keycloak/detail/oidc_utils.hpp\<close>.
  \<^item> StateStore: the contract of a state store (locale \<open>state_store\<close>), which MemoryStore
    (\<open>src/keycloak/state_store/memory.cpp\<close>) and RedisStore (\<open>redis.cpp\<close>) both meet.
  \<^item> TokenService: \<open>inc/keycloak/oauth/\<close>; Discovery: \<open>inc/keycloak/oidc/discovery.hpp\<close>.
  \<^item> StoreApi: the interface of the stores as the concept \<open>StateStoreLike\<close> has it
    (\<open>inc/api_models/concepts.hpp\<close>) and \<open>KeycloakHandler\<close> (\<open>inc/keycloak/state_store/state_store.hpp\<close>).
    StoreSpec: an abstract store with deadlines, which the memory store refines.
  \<^item> TokenValidator: \<open>inc/keycloak/jwt/access_token_validator.hpp\<close>; BearerAuth:
    \<open>inc/keycloak/auth/bearer_auth_middleware.hpp\<close> (locale \<open>token_validator\<close>).
  \<^item> ValidatorThreads: the same coroutine cut at its suspension and at its two critical sections, and
    any number of such calls interleaved on one key cache; ValidatorProgress: their progress.
  \<^item> LoginClient: \<open>inc/keycloak/keycloak_client.hpp\<close>; MultiRealm: \<open>inc/keycloak/multi_realm.hpp\<close>;
    LoginFlow: runs of logins over any store (locale \<open>login_backend\<close>, which extends \<open>state_store\<close>);
    LoginLiveness: a login that comes back in time is completed.
  \<^item> Cookies: \<open>inc/utils/cookies.hpp\<close>; AuthHandler: \<open>inc/handlers/AuthHandler.h\<close>; Probe:
    \<open>inc/probes/Probe.h\<close>; Sessions: from the cookies of a callback to the logout, and the separation
    of the realms of one manager.
  \<^item> RolesText: the walk over the role claims. JsonDoc, ClaimsDoc, TokenDoc, ServiceDoc: JSON documents
    (datatype \<open>json\<close>), and what the readers, the validator, the token service and the discovery make
    of their texts; ServiceDoc also has the fields of the requests of the token service.
  \<^item> Deviations: statements about the places where the code departs from its intent.
  \<^item> Scenarios: the scenarios of \<open>tests/keycloak_flow_tests.cpp\<close>, evaluated on the model.
  \<^item> Instances, Runs: concrete libraries, requests and runs at which the properties are applied.

  \<^bold>\<open>What the lemmas show.\<close> Scanning: \<open>skip_json_value\<close> is exact on
  the texts of the grammar, and each extraction then finds the value of the first occurrence of its
  key. \<open>mentions\<close> says which values of a document can mislead the search for a key;
  where none does, claims, roles, key sets and token responses are read as the documents they are,
  and the decision on a token is a condition on its header and payload documents
  (\<open>document_validation\<close>). Codecs: url, form, cookie, base64url, JWT, Redis entry, URL
  and scope texts are read back as they were written. Stores: what a consume returns was created and
  is gone; the contract is stated once and gives the statements about sequences of operations for
  both stores and for logins. The memory store has the outcomes of its specification on every
  sequence of operations (\<open>run_ops_refines\<close>), and a state stays redeemable until its
  deadline (\<open>redeemable\<close>). Validation: \<open>validate_decision\<close> describes every
  outcome of a validation, from which safety, completeness and the handling of the key cache follow;
  the invariant \<open>v_inv\<close> of interleaved validations says that every acceptance rests on
  published keys, and every call ends within four steps of its own (\<open>v_steps_done\<close>).
  Sessions: the cookies of a callback make the logout revoke its token. Handlers: the exact response
  of each branch.

  \<^bold>\<open>Parameters.\<close> Code that is not in the repository is an argument of the
  definitions: OpenSSL (digests, base64, RSA verification) in the records \<open>pkce_lib\<close>
  and \<open>openssl\<close>, the HTTP types and the client of \<open>unet\<close> in
  \<open>http_lib\<close>, and the Redis server as a function from a command and a server state to a
  reply. What is relied on is a hypothesis by name: \<open>rand_fills\<close> (the generator fills
  the buffer), \<open>bio_base64 = rfc4648\<close>, \<open>redis_set_ok\<close> and
  \<open>redis_getdel_ok\<close> (the documented behaviour of SET with EX and NX and of GETDEL),
  \<open>blank_defaults\<close> (a default constructed URI is empty), \<open>steady_monotone\<close>
  (the steady clock never goes back), \<open>serves_keys\<close> (the provider answers requests for
  its key set with one set of keys).

  \<^bold>\<open>Not modelled.\<close> The scheduler of the coroutines: an operation of a store is
  one step, since the memory store holds its mutex throughout and of the commands of a Redis
  operation at most the last one changes the server, and a validation is four steps; concurrency is
  the interleaving of such steps (\<open>store_steps\<close>, \<open>v_steps\<close>). Two requests
  for the key set may be under way at once, as in the code. The C++ call stack is unbounded, memory
  never runs out, and log output is dropped. The concepts of HTTP clients are the type of a
  parameter; the umbrella header and the build and container files have no behaviour of their own.
\<close>

section \<open>Access tokens\<close>

text \<open>
  C1: A validation that accepts a token ran with a complete configuration, and the token is a JWT
  whose header names a supported algorithm and a key id, whose signature the first key of that id
  in the key set verifies over the signed part, and whose payload has the expected issuer, is
  within its time window at the clock reading taken, and meets the audience and authorized party
  rules. The context returned is the one of that payload, and keys that were not cached and fresh
  were fetched during the call.
\<close>

theorem accepted_token_is_authentic:
  assumes "validate lib ssl cfg tok w = (Inr r, w')" and "jv_ok r"
  shows "config_ok cfg \<and>
    (\<exists>jwt alg kid k. decode_jwt tok = Some jwt \<and> header_ok jwt alg kid \<and>
       find (\<lambda>k. jwk_kid k = kid) (ca_keys (v_cache w')) = Some k \<and>
       verify_rsa_signature ssl k alg (signing_input jwt) (signature jwt) \<and>
       claims_ok cfg (wall_secs (v_sys w) (Suc (wall_pos (v_sys w)))) (payload_json jwt) \<and>
       build_context (payload_json jwt) = Inr (jv_context r)) \<and>
    (cache_fresh w \<or> fetched lib cfg w w')"
proof -
  note d = validate_decision [OF assms(1)]
  from d assms(2) obtain jwt where jwt: "decode_jwt tok = Some jwt" "config_ok cfg"
    "authentic ssl cfg (ca_keys (v_cache w')) (wall_secs (v_sys w) (Suc (wall_pos (v_sys w)))) jwt"
    "build_context (payload_json jwt) = Inr (jv_context r)"
    by (auto simp: accepts_def)
  moreover have "cache_fresh w \<or> fetched lib cfg w w'" using d assms(2) by blast
  ultimately show ?thesis by (auto simp: authentic_def)
qed

theorem accepted_token_is_authentic_witness:
  "\<exists>(w' :: request list vworld) jwt k. decode_jwt demo_token = Some jwt \<and>
    find (\<lambda>k. jwk_kid k = ''k1'') (ca_keys (v_cache w')) = Some k \<and>
    build_context (payload_json jwt) = Inr demo_context"
proof -
  obtain w' where "validate (demo_lib \<lparr>status_code = 200, resp_body = []\<rparr>) demo_ssl demo_auth demo_token demo_vworld =
      (Inr \<lparr>jv_ok = True, jv_http_status = 200, jv_error = [], jv_context = demo_context\<rparr>, w')"
    by (rule demo_validates)
  from accepted_token_is_authentic [OF this] obtain jwt alg kid k where
    "decode_jwt demo_token = Some jwt" "header_ok jwt alg kid"
    "find (\<lambda>k. jwk_kid k = kid) (ca_keys (v_cache w')) = Some k"
    "build_context (payload_json jwt) = Inr demo_context" by auto
  moreover from this have "kid = ''k1''"
    using demo_header_ok by (auto simp: header_ok_def demo_decodes demo_jwt_def)
  ultimately show ?thesis by blast
qed

text \<open>
  C2: Any number of validations interleaved on one validator, from its construction on, with the
  suspension at the key set request and other users of clocks and HTTP client in between: every
  call that ends in an acceptance ran with a complete configuration, and its token is a JWT with
  a supported algorithm whose signature verifies under the first key of its key id in a key set
  that a 2xx response to some call delivered, with claims that hold at a clock reading taken
  before; the context is the one of the payload. A call that ends in a rejection returns an empty
  context.
\<close>

theorem concurrent_acceptance_vouched:
  assumes "v_steps lib ssl cfg sy0 evs sy" and "v_start sy0" and "(tok, V_done (Inr r)) \<in> set (sy_threads sy)"
  shows "if jv_ok r
    then config_ok cfg \<and> (\<exists>jwt alg kid resp keys k i. decode_jwt tok = Some jwt \<and> header_ok jwt alg kid \<and>
       resp \<in> set (sy_replies sy) \<and> is_2xx (effective_status resp) \<and> extract_jwks (resp_body resp) = Inr keys \<and>
       find (\<lambda>k. jwk_kid k = kid) keys = Some k \<and>
       verify_rsa_signature ssl k alg (signing_input jwt) (signature jwt) \<and>
       i < wall_pos (v_sys (sy_world sy)) \<and> claims_ok cfg (wall_secs (v_sys (sy_world sy)) i) (payload_json jwt) \<and>
       build_context (payload_json jwt) = Inr (jv_context r))
    else jv_context r = empty_context \<and> jv_error r \<noteq> [] \<and> jv_http_status r \<in> {401, 403, 500, 502}"
proof -
  have "v_inv ssl cfg sy" by (rule v_steps_inv [OF assms(1) v_start_inv [OF assms(2)]])
  then have ok: "pc_ok ssl cfg (v_sys (sy_world sy)) (sy_replies sy) tok (V_done (Inr r))"
    using assms(3) by (auto simp: v_inv_def)
  show ?thesis
  proof (cases "jv_ok r")
    case True
    with ok have "vouched ssl cfg (v_sys (sy_world sy)) (sy_replies sy) tok r" by simp
    then obtain jwt keys i where v: "config_ok cfg" "decode_jwt tok = Some jwt" "published (sy_replies sy) keys"
      "i < wall_pos (v_sys (sy_world sy))" "authentic ssl cfg keys (wall_secs (v_sys (sy_world sy)) i) jwt"
      "accepts (payload_json jwt) r"
      unfolding vouched_def by blast
    from v(5) obtain alg kid k where "header_ok jwt alg kid" "find (\<lambda>k. jwk_kid k = kid) keys = Some k"
      "verify_rsa_signature ssl k alg (signing_input jwt) (signature jwt)"
      "claims_ok cfg (wall_secs (v_sys (sy_world sy)) i) (payload_json jwt)"
      by (auto simp: authentic_def)
    moreover obtain resp where "resp \<in> set (sy_replies sy)" "is_2xx (effective_status resp)"
      "extract_jwks (resp_body resp) = Inr keys"
      using v(3) by (auto simp: published_def)
    ultimately have "\<exists>jwt alg kid resp keys k i. decode_jwt tok = Some jwt \<and> header_ok jwt alg kid \<and>
       resp \<in> set (sy_replies sy) \<and> is_2xx (effective_status resp) \<and> extract_jwks (resp_body resp) = Inr keys \<and>
       find (\<lambda>k. jwk_kid k = kid) keys = Some k \<and>
       verify_rsa_signature ssl k alg (signing_input jwt) (signature jwt) \<and>
       i < wall_pos (v_sys (sy_world sy)) \<and> claims_ok cfg (wall_secs (v_sys (sy_world sy)) i) (payload_json jwt) \<and>
       build_context (payload_json jwt) = Inr (jv_context r)"
      using v(2,4,6) unfolding accepts_def by blast
    with True v(1) show ?thesis by simp
  next
    case False
    with ok show ?thesis by (simp add: rejects_def)
  qed
qed

theorem concurrent_acceptance_vouched_witness:
  "\<exists>resp \<in> set (sy_replies mixed_run). is_2xx (effective_status resp)"
proof -
  obtain evs where "v_steps (demo_lib keys_response) demo_ssl demo_auth demo_system evs mixed_run"
    using mixed_run_reached by blast
  from concurrent_acceptance_vouched [OF this demo_system_start mixed_run_accepts] show ?thesis
    by (auto simp: acceptance_def)
qed

text \<open>
  C3: With a complete configuration and a fresh key cache, a token that is authentic under the
  cached keys is accepted with status 200 and the context of its payload; nothing is sent and the
  cache stays as it is. The payload must only keep the sums of the time checks within 64 bits and
  have claims the JSON reader returns from.
\<close>

theorem authentic_token_is_accepted:
  assumes "config_ok cfg" and "decode_jwt tok = Some jwt" and "cache_fresh w"
    and "authentic ssl cfg (ca_keys (v_cache w)) (wall_secs (v_sys w) (Suc (wall_pos (v_sys w)))) jwt"
    and "payload_ok cfg (wall_secs (v_sys w) (Suc (wall_pos (v_sys w)))) (payload_json jwt) ctx"
  shows "\<exists>w'. validate lib ssl cfg tok w =
      (Inr \<lparr>jv_ok = True, jv_http_status = 200, jv_error = [], jv_context = ctx\<rparr>, w') \<and>
    v_cache w' = v_cache w \<and> snd w' = snd w"
  using assms by (rule validate_complete)

theorem authentic_token_is_accepted_witness:
  "\<exists>w'. validate (demo_lib \<lparr>status_code = 200, resp_body = []\<rparr>) demo_ssl demo_auth demo_token demo_vworld =
      (Inr \<lparr>jv_ok = True, jv_http_status = 200, jv_error = [], jv_context = demo_context\<rparr>, w') \<and>
    v_cache w' = v_cache demo_vworld \<and> snd w' = snd demo_vworld"
  by (rule authentic_token_is_accepted [OF demo_config_ok demo_decodes])
    (use demo_authentic demo_payload_ok in \<open>simp_all add: demo_jwt_def\<close>)

text \<open>
  C4: While the identity provider answers every request for its key set with the same keys, a
  call with a token that is genuine under these keys at the clock readings of the run is accepted
  with the context of its payload once it has made four steps, whatever calls with other tokens,
  valid or forged, do on the same validator in between and in whatever order they run.
\<close>

theorem genuine_token_accepted_concurrently:
  assumes "v_start sy0" and "v_steps lib ssl cfg sy0 evs0 sy" and "v_steps lib ssl cfg sy evs sy'"
    and "serves_keys lib cfg keys" and "genuine_during ssl cfg keys (v_sys (sy_world sy0)) (v_sys (sy_world sy')) jwt ctx"
    and "j < length (sy_threads sy)" and "fst (sy_threads sy ! j) = tok" and "decode_jwt tok = Some jwt"
    and "4 \<le> count_list evs (At_thread j)"
  shows "sy_threads sy' ! j =
    (tok, V_done (Inr \<lparr>jv_ok = True, jv_http_status = 200, jv_error = [], jv_context = ctx\<rparr>))"
  using genuine_progress [OF assms(2,3,1,4,5,8,6,7,9)] by (simp add: acceptance_def)

theorem genuine_token_accepted_concurrently_witness:
  "sy_threads mixed_run ! 0 = (demo_token,
    V_done (Inr \<lparr>jv_ok = True, jv_http_status = 200, jv_error = [], jv_context = demo_context\<rparr>))"
  by (rule genuine_token_accepted_concurrently [OF demo_system_start two_calls_reached mixed_run_steps demo_serves
      demo_genuine _ _ demo_decodes]) (simp_all add: two_calls_def)





text \<open>
  C7: A validation that does not accept returns an error text, one of the statuses 401, 403, 500
  and 502, and an empty context: no claim of a rejected token reaches the caller.
\<close>

theorem rejection_shape:
  assumes "validate lib ssl cfg tok w = (Inr r, w')" and "\<not> jv_ok r"
  shows "jv_http_status r \<in> {401, 403, 500, 502} \<and> jv_error r \<noteq> [] \<and> jv_context r = empty_context \<and>
    (jv_http_status r = 500 \<longleftrightarrow> \<not> config_ok cfg)"
proof -
  have "rejects {401, 403, 500, 502} r" using validate_decision [OF assms(1)] assms(2) by blast
  moreover from assms(1) have "jv_http_status r = 500 \<longleftrightarrow> \<not> config_ok cfg"
  proof (cases rule: validate_cases)
    case (jwt jwt)
    then have "expected_issuer cfg \<noteq> []" by (simp add: config_ok_def)
    with jwt(3) show ?thesis
      by (cases rule: validate_jwt_cases)
        (use jwt(1) assms(2) in \<open>auto simp: rejects_def accepts_def split: if_splits\<close>)
  qed (auto simp: rejects_def)
  ultimately show ?thesis by (auto simp: rejects_def)
qed

theorem rejection_shape_witness:
  "jv_context (failure 401 ''missing_access_token'') = empty_context"
proof -
  have "validate (demo_lib \<lparr>status_code = 200, resp_body = []\<rparr>) demo_ssl demo_auth [] demo_vworld =
      (Inr (failure 401 ''missing_access_token''), demo_vworld)"
    using demo_config_ok by (auto simp: validate_def config_ok_def)
  from rejection_shape [OF this] show ?thesis by simp
qed

text \<open>
  C8: While the cached keys are fresh a validation sends no request and leaves the cache alone.
  The cache only ever changes to the keys of a 2xx response to the one request for the configured
  JWKS URL, with the configured lifetime added to a later reading of the steady clock.
\<close>

theorem key_cache_discipline:
  assumes "validate lib ssl cfg tok w = (Inr r, w')"
  shows "(cache_fresh w \<longrightarrow> v_cache w' = v_cache w \<and> snd w' = snd w) \<and>
    (v_cache w' \<noteq> v_cache w \<longrightarrow>
      (\<exists>req resp i. make_json_get lib (jwks_url cfg) None = Inr req \<and>
        http_send lib req (snd w) = (Inr resp, snd w') \<and> is_2xx (effective_status resp) \<and>
        extract_jwks (resp_body resp) = Inr (ca_keys (v_cache w')) \<and>
        ca_expires_at (v_cache w') = steady_ticks (v_sys w) i + jwks_cache_ttl cfg * 10 ^ 9 \<and>
        steady_pos (v_sys w) \<le> i))"
  using validate_decision [OF assms] unfolding fetched_def by blast

theorem key_cache_discipline_witness:
  "\<exists>r w'. validate (demo_lib \<lparr>status_code = 200, resp_body = []\<rparr>) demo_ssl demo_auth demo_token demo_vworld = (Inr r, w') \<and>
     snd w' = ([] :: request list)"
proof -
  obtain w' where v: "validate (demo_lib \<lparr>status_code = 200, resp_body = []\<rparr>) demo_ssl demo_auth demo_token demo_vworld =
      (Inr \<lparr>jv_ok = True, jv_http_status = 200, jv_error = [], jv_context = demo_context\<rparr>, w')"
    by (rule demo_validates)
  from key_cache_discipline [OF this] have "snd w' = snd demo_vworld" by simp
  then have "snd w' = []" by (simp add: demo_vworld_def)
  with v show ?thesis by blast
qed

text \<open>
  C9: The bearer middleware accepts only a request whose Authorization header is Bearer and a
  non-empty token that the validator accepted as genuine; then the context it writes and attaches
  to the request is the authenticated one of that token. Otherwise request and context are
  unchanged and the status is an error.
\<close>

theorem bearer_attaches_genuine_context:
  assumes "authenticate lib (validate lib ssl cfg) req ctx w = (Inr (a, req', ctx'), w')"
  shows "if ar_ok a
    then (\<exists>tok. tok \<noteq> [] \<and>
            header_value lib (req_headers req) ''Authorization'' = Some (bearer_prefix @ tok) \<and>
            genuine_token ssl cfg w w' tok ctx') \<and>
         get_request_context req' = Some ctx' \<and> ctx_authenticated ctx' \<and> ar_http_status a = 200
    else req' = req \<and> ctx' = ctx \<and> ar_http_status a \<ge> 400 \<and> ar_error a \<noteq> []"
  using bearer.authenticate_sound [OF assms]
  by (auto simp: context_set_get genuine_token_def dest: build_context_authenticated split: if_splits)

theorem bearer_attaches_genuine_context_witness:
  "\<exists>a (w' :: request list vworld). ar_ok (a :: auth_result) \<and>
    genuine_token demo_ssl demo_auth demo_vworld w' demo_token demo_context"
proof -
  let ?lib = "demo_lib \<lparr>status_code = 200, resp_body = []\<rparr>"
  let ?req = "blank_request\<lparr>req_headers := [(''Authorization'', bearer_prefix @ demo_token)]\<rparr>"
  have ne: "demo_token \<noteq> []" by (simp add: demo_token_def)
  obtain w' where v: "validate ?lib demo_ssl demo_auth demo_token demo_vworld =
      (Inr \<lparr>jv_ok = True, jv_http_status = 200, jv_error = [], jv_context = demo_context\<rparr>, w')"
    by (rule demo_validates)
  have run: "authenticate ?lib (validate ?lib demo_ssl demo_auth) ?req empty_context demo_vworld =
      (Inr (\<lparr>ar_ok = True, ar_http_status = 200, ar_error = []\<rparr>,
            set_request_context ?req demo_context, demo_context), w')"
    using ne v by (simp add: authenticate_def substr_def abind_def)
  from bearer_attaches_genuine_context [OF this] obtain tok where
    "bearer_prefix @ tok = bearer_prefix @ demo_token" "genuine_token demo_ssl demo_auth demo_vworld w' tok demo_context"
    by auto
  then have "genuine_token demo_ssl demo_auth demo_vworld w' demo_token demo_context" by simp
  then show ?thesis by (intro exI [of _ "\<lparr>ar_ok = True, ar_http_status = 200, ar_error = []\<rparr>"] exI [of _ w']) simp
qed

text \<open>
  C10: A validation through the manager touches only the key cache of its own realm, and it
  accepts only a token that is authentic under that realm's keys and configuration: a known
  realm, a signature by a key cached for this realm, and this realm's expected issuer in the
  payload.
\<close>

theorem realm_isolation:
  assumes "manager_validate lib ssl m realm tok w = (Inr r, w')"
  shows "(\<forall>other. other \<noteq> realm \<longrightarrow> fst (fst w') other = fst (fst w) other) \<and>
    (jv_ok r \<longrightarrow> (\<exists>rt jwt alg kid k. mg_realms m realm = Some rt \<and> decode_jwt tok = Some jwt \<and>
       header_ok jwt alg kid \<and> find (\<lambda>k. jwk_kid k = kid) (ca_keys (fst (fst w') realm)) = Some k \<and>
       verify_rsa_signature ssl k alg (signing_input jwt) (signature jwt) \<and>
       extract_json_string (payload_json jwt) ''iss'' = Inr (Some (expected_issuer (mc_auth rt)))))"
  using manager_validate_isolated [OF assms] manager_validate_accepts [OF assms]
  unfolding authentic_def claims_ok_def by blast

theorem realm_isolation_witness:
  "\<exists>(r :: jwt_result) (w' :: request list mworld). jv_ok r \<and> fst (fst w') ''other'' = \<lparr>ca_keys = [], ca_expires_at = 0\<rparr> \<and>
    (\<exists>k. find (\<lambda>k. jwk_kid k = ''k1'') (ca_keys (fst (fst w') ''r'')) = Some k)"
proof -
  let ?w = "(((\<lambda>realm. \<lparr>ca_keys = [], ca_expires_at = 0\<rparr>)(''r'' := \<lparr>ca_keys = [demo_key], ca_expires_at = 1000\<rparr>), demo_env), [])
    :: request list mworld"
  let ?lib = "demo_lib \<lparr>status_code = 200, resp_body = []\<rparr>"
  obtain v where v: "validate ?lib demo_ssl demo_auth demo_token demo_vworld =
      (Inr \<lparr>jv_ok = True, jv_http_status = 200, jv_error = [], jv_context = demo_context\<rparr>, v)"
    by (rule demo_validates)
  have "focus ''r'' ?w = demo_vworld" by (simp add: focus_def demo_vworld_def)
  with v have run: "manager_validate ?lib demo_ssl demo_manager ''r'' demo_token ?w =
      (Inr \<lparr>jv_ok = True, jv_http_status = 200, jv_error = [], jv_context = demo_context\<rparr>, unfocus ''r'' ?w v)"
    by (simp add: manager_validate_eq [where rt = demo_config] demo_manager_def demo_config_def)
  from realm_isolation [OF run] obtain jwt alg kid k where
    "decode_jwt demo_token = Some jwt" "header_ok jwt alg kid"
    "find (\<lambda>k. jwk_kid k = kid) (ca_keys (fst (fst (unfocus ''r'' ?w v)) ''r'')) = Some k" by auto
  moreover from this have "kid = ''k1''"
    using demo_header_ok by (auto simp: header_ok_def demo_decodes demo_jwt_def)
  moreover have "fst (fst (unfocus ''r'' ?w v)) ''other'' = \<lparr>ca_keys = [], ca_expires_at = 0\<rparr>" by simp
  ultimately show ?thesis
    by (intro exI [of _ "\<lparr>jv_ok = True, jv_http_status = 200, jv_error = [], jv_context = demo_context\<rparr>"]
        exI [of _ "unfocus ''r'' ?w v"]) simp
qed

text \<open>
  C11: Let the payload of a token be the text of a JSON document whose member names have no quote
  and no backslash, with a realm access object and a resource access object, such that no value
  of the document mentions realm_access or resource_access and no value inside the realm access
  object or inside an object member of the resource access object mentions roles; a value
  mentions a name if a string in it is that name or ends in a quote and that name, or an object
  in it has a member of that name. Then the roles of the token are the roles of the realm access
  object and of every member of the resource access object that is an object, each once: the walk
  over the clients visits all of them. The condition is needed, because the reader searches for
  the quoted name and can be misled by a value that mentions it.
\<close>

theorem roles_of_token:
  assumes "clear_for ''realm_access'' cs" and "clear_for ''resource_access'' cs" and "roles_clear cs"
    and "map_of cs ''realm_access'' = Some (J_obj realm)" and "map_of cs ''resource_access'' = Some (J_obj clients)"
  shows "\<exists>roles. extract_all_roles (document_text cs) = Inr roles \<and> distinct roles \<and>
    set roles = set (doc_role_list realm) \<union> (\<Union>(c, v) \<in> set clients. set (member_role_list v))"
  using document_roles [OF assms(1-3)] doc_roles_set [of cs] assms(4,5)
  by (simp add: doc_object_def value_or_def)

theorem roles_of_token_witness:
  "\<exists>roles. extract_all_roles (document_text (payload_doc 0)) = Inr roles \<and> distinct roles \<and>
    set roles = {''admin'', ''reader''}"
proof -
  have c: "clear_for ''realm_access'' (payload_doc 0)" "clear_for ''resource_access'' (payload_doc 0)" "roles_clear (payload_doc 0)"
    using payload_doc_clear [of 0] by (simp_all add: payload_clear_def claim_names_def)
  have m: "map_of (payload_doc 0) ''realm_access'' = Some (J_obj [(''roles'', J_arr [J_str ''admin''])])"
    "map_of (payload_doc 0) ''resource_access'' =
      Some (J_obj [(''api'', J_obj [(''roles'', J_arr [J_str ''reader''])])])"
    by (simp_all add: payload_doc_def)
  from roles_of_token [OF c m] show ?thesis
    by (simp add: doc_role_list_def member_role_list_def List.map_filter_simps insert_commute)
qed

text \<open>
  C12: Let a key set be published as the text of a JSON document whose member names have no quote
  and no backslash, such that no value of the document mentions keys and no value of a key in its
  array mentions kid, kty, alg, n or e; a value mentions a name if a string in it is that name or
  ends in a quote and that name, or an object in it has a member of that name. Then the key set
  is read as the objects of its array that have a non-empty type, in order, with the five fields
  of each. Array elements that are no objects are passed over, and so are members with other
  names, as long as their values mention none of the names above: the reader searches for the
  quoted name and would be misled by such a value.
\<close>

theorem key_set_document:
  assumes "clear_for ''keys'' cs" and "map_of cs ''keys'' = Some (J_arr js)"
    and "\<And>ms name. J_obj ms \<in> set js \<Longrightarrow> name \<in> {''kid'', ''kty'', ''alg'', ''n'', ''e''} \<Longrightarrow> clear_for name ms"
  shows "extract_jwks (document_text cs) = Inr (filter (\<lambda>k. jwk_kty k \<noteq> [])
    (map (\<lambda>ms. \<lparr>jwk_kid = doc_string ms ''kid'' [], jwk_kty = doc_string ms ''kty'' [], jwk_alg = doc_string ms ''alg'' [],
       jwk_n = doc_string ms ''n'' [], jwk_e = doc_string ms ''e'' []\<rparr>) (List.map_filter as_members js)))"
proof -
  have "keys_clear js" using assms(3) by (simp add: keys_clear_def)
  from document_keys [OF assms(1,2) this] show ?thesis by (simp add: doc_keys_def jwk_of_def [abs_def])
qed

theorem key_set_document_witness:
  "extract_jwks (document_text [(''keys'', J_arr published_keys_doc)]) =
     Inr [\<lparr>jwk_kid = ''k1'', jwk_kty = ''RSA'', jwk_alg = ''RS256'', jwk_n = ''bm4'', jwk_e = ''ZQ''\<rparr>]"
  by (subst key_set_document [OF published_keys_clear(1)])
    (use published_keys_clear(2) in \<open>auto simp: keys_clear_def\<close>,
     simp add: published_keys_doc_def doc_string_def value_or_def List.map_filter_simps)

text \<open>
  C13: A validation need not return: a token whose header is an object with an unclosed object in
  its first member (the text behind the key is an opening brace and a closing bracket) keeps the
  JSON reader in a loop forever. The header is read before any key is looked up or signature
  checked, so any client can send such a token.
\<close>

theorem unsigned_header_hangs_validation:
  assumes "config_ok cfg"
  shows "validate lib ssl cfg (compact_jwt (stuck_object ''alg'' tail) payload sg) w = (Inl Diverges, w)"
  using assms by (rule validate_stuck)

theorem unsigned_header_hangs_validation_witness:
  "validate (demo_lib \<lparr>status_code = 200, resp_body = []\<rparr>) demo_ssl demo_auth
     (compact_jwt (stuck_object ''alg'' []) [] []) demo_vworld = (Inl Diverges, demo_vworld)"
  by (rule unsigned_header_hangs_validation) (rule demo_config_ok)

text \<open>
  C14: The audience check can be satisfied by claims that are not the audience: in a payload
  where a user's name is the text aud, the string value of the next member is read as the
  audience, whatever the real audience is.
\<close>

theorem audience_taken_from_other_claim:
  assumes "plain_key key" and "plain fake"
  shows "extract_audience_values (object_text
      ([(''name'', string_text ''aud''), (key, string_text fake)] @ (''aud'', string_text real_aud) # ms)) = Inr [fake]"
  using audience_confused [OF assms, of "(''aud'', string_text real_aud) # ms"]
  by (simp add: confusing_payload_def)

theorem audience_taken_from_other_claim_witness:
  "extract_audience_values (object_text
      ([(''name'', string_text ''aud''), (''email'', string_text ''my_service'')] @
       (''aud'', string_text ''other_service'') # [])) = Inr [''my_service'']"
  by (rule audience_taken_from_other_claim) (simp_all add: plain_key_def plain_def char_class_defs)

section \<open>Logins and their states\<close>

text \<open>
  C15: Over the memory store, in any sequence of started and completed logins of any clients:
  when two callbacks with the same state both end in a successful login, a login started in
  between was given that very state. A replayed callback therefore never completes a second
  login.
\<close>

theorem state_completes_one_login:
  assumes "run_logins (multi_realm_client lib plib mem_create_state_entry mem_consume_state_entry m) ops w =
      (pre @ Completed i1 (Inr r1) # mid @ Completed i2 (Inr r2) # post, w')"
    and "cr_ok r1" and "cr_ok r2" and "cb_state i2 = cb_state i1"
  shows "\<exists>realm a. Started realm (Inr a) \<in> set mid \<and> as_state a = cb_state i1"
proof -
  obtain realm rs where "Started realm rs \<in> set mid" "start_issues (\<lambda>st r. r = Inr st) (cb_state i1) rs"
    using mem_multi.completed_once [OF assms] by blast
  then show ?thesis by (auto simp: start_issues_def split: sum.splits)
qed

theorem state_completes_one_login_witness:
  "\<exists>realm a. Started realm (Inr a) \<in> set [Started ''r'' (Inr demo_start)] \<and> as_state a = cb_state demo_input"
proof -
  obtain w' where run: "run_logins demo_client
      [Do_start ''r'' 300, Do_complete demo_input, Do_start ''r'' 300, Do_complete demo_input]
      ((Map.empty, zero_env 0 0), []) =
    ([Started ''r'' (Inr demo_start)] @ Completed demo_input (Inr demo_result) #
     [Started ''r'' (Inr demo_start)] @ Completed demo_input (Inr demo_result) # [], w')"
    using demo_run by auto
  show ?thesis by (rule state_completes_one_login [OF run]) (simp_all add: demo_result_def)
qed

text \<open>
  C16: A state that a login of a realm was given over the memory store, completed later, with any
  store operations of others in between that do not draw the same state again: the code is
  exchanged at the token endpoint configuration of that realm, with the verifier whose challenge
  the authorization URL carried, and the result names that realm.
\<close>

theorem login_bound_to_realm_and_verifier:
  assumes "multi_realm_manager configs = Inr m"
    and "manager_start_login plib mem_create_state_entry m realm ttl w = (Inr a, w1)" and "rand_fills (snd w)"
    and "store_steps mem_create_state_entry mem_consume_state_entry env_noise w1 obs (fst w2)"
    and "Created (Inr (as_state a)) \<notin> set obs"
    and "manager_complete_login lib mem_consume_state_entry m inp w2 = (Inr r, w3)" and "cr_ok r"
    and "cb_state inp = as_state a"
  shows "\<exists>rt pkce oa. mg_realms m realm = Some rt \<and>
    fst (generate_pkce_pair plib (rc_pkce_verifier_len (mc_realm rt)) (snd w)) = Inr pkce \<and>
    a = create_authorization_url (mc_realm rt) (as_state a) pkce \<and>
    exchange_authorization_code lib (mc_token rt) (cb_code inp) (code_verifier pkce) (snd w2) = (Inr oa, snd w3) \<and>
    r = callback_of oa realm"
proof -
  have names: "rc_realm (mc_realm rt) = realm" if "mg_realms m realm = Some rt" for rt
    using manager_realms(2) [OF assms(1)] that by (auto dest: find_SomeD)
  show ?thesis
    using manager_binding [OF mem_store.state_store_axioms names assms(2-4) _ assms(6-8)] assms(5) by blast
qed

theorem login_bound_to_realm_and_verifier_witness:
  "\<exists>oa. demo_result = callback_of oa ''r''"
proof -
  have start: "manager_start_login demo_plib mem_create_state_entry demo_manager ''r'' 300 (Map.empty, zero_env 0 0) =
      (Inr demo_start, (demo_stored 0, zero_env 2 2))"
    using demo_login [of 0 0 "[]"]
    by (auto simp: multi_realm_client_def on_fst_def numeral_2_eq_2 split: prod.splits)
  obtain w3 where done_login: "manager_complete_login demo_http mem_consume_state_entry demo_manager demo_input
      ((demo_stored 0, zero_env 2 2), []) = (Inr demo_result, w3)"
    using demo_callback [of 0 2 "[]"] by (auto simp: multi_realm_client_def numeral_2_eq_2)
  have none: "store_steps mem_create_state_entry mem_consume_state_entry env_noise (demo_stored 0, zero_env 2 2) []
      (fst ((demo_stored 0, zero_env 2 2), []))"
    by (simp add: store_steps.none)
  have "rand_fills (zero_env 0 0)" by (simp add: rand_fills_def zero_env_def)
  then show ?thesis
    using login_bound_to_realm_and_verifier [OF demo_manager_built start _ none _ done_login]
    by (auto simp: demo_result_def demo_input_def demo_start_def create_authorization_url_def)
qed

text \<open>
  C17: A user who comes back in time is never turned away by the library: a state that a login of
  a realm was given over the memory store, brought back once with a code before its deadline,
  makes the callback exchange the code at that realm with the verifier that this login drew and
  whose challenge its authorization URL carries, and the outcome of the callback is the outcome
  of this exchange, whatever others did with the store in between.
\<close>

theorem fresh_login_succeeds:
  assumes "multi_realm_manager configs = Inr m"
    and "manager_start_login plib mem_create_state_entry m realm ttl w = (Inr a, w1)"
    and "steady_monotone (snd w)" and "rand_fills (snd w)"
    and "mem_steps w1 obs (fst w2)" and "\<forall>r. Consumed (as_state a) r \<notin> set obs"
    and "steady_ticks (snd (fst w2)) (steady_pos (snd (fst w2))) <
      steady_ticks (snd w) (Suc (steady_pos (snd w))) + ttl * 10 ^ 9"
    and "cb_code inp \<noteq> []" and "cb_state inp = as_state a"
  shows "\<exists>rt pkce x v. mg_realms m realm = Some rt \<and>
    fst (generate_pkce_pair plib (rc_pkce_verifier_len (mc_realm rt)) (snd w)) = Inr pkce \<and>
    a = create_authorization_url (mc_realm rt) (as_state a) pkce \<and>
    exchange_authorization_code lib (mc_token rt) (cb_code inp) (code_verifier pkce) (snd w2) = x \<and>
    manager_complete_login lib mem_consume_state_entry m inp w2 =
      (map_sum id (\<lambda>oa. callback_of oa realm) (fst x), (v, snd x))"
proof -
  have names: "rc_realm (mc_realm rt) = realm" if "mg_realms m realm = Some rt" for rt
    using manager_realms(2) [OF assms(1)] that by (auto dest: find_SomeD)
  show ?thesis
    by (rule manager_login_succeeds [OF assms(2) names assms(3-5) _ assms(7-9)]) (use assms(6) in auto)
qed

theorem fresh_login_succeeds_witness:
  "\<exists>x v. exchange_authorization_code demo_http demo_ts ''code'' (code_verifier demo_pair) [] = x \<and>
    manager_complete_login demo_http mem_consume_state_entry demo_manager demo_input
      ((demo_stored 0, zero_env 2 2), []) = (map_sum id (\<lambda>oa. callback_of oa ''r'') (fst x), (v, snd x))"
proof -
  have start: "manager_start_login demo_plib mem_create_state_entry demo_manager ''r'' 300 (Map.empty, zero_env 0 0) =
      (Inr demo_start, (demo_stored 0, zero_env 2 2))"
    using demo_login [of 0 0 "[]"]
    by (auto simp: multi_realm_client_def on_fst_def numeral_2_eq_2 split: prod.splits)
  have none: "mem_steps (demo_stored 0, zero_env 2 2) [] (fst ((demo_stored 0, zero_env 2 2), [] :: request list))"
    by (simp add: store_steps.none)
  have env: "steady_monotone (snd (Map.empty :: mem_map, zero_env 0 0))" "rand_fills (snd (Map.empty :: mem_map, zero_env 0 0))"
    by (simp_all add: steady_monotone_def rand_fills_def zero_env_def)
  have "\<exists>rt pkce x v. mg_realms demo_manager ''r'' = Some rt \<and>
    fst (generate_pkce_pair demo_plib (rc_pkce_verifier_len (mc_realm rt)) (snd (Map.empty :: mem_map, zero_env 0 0))) = Inr pkce \<and>
    demo_start = create_authorization_url (mc_realm rt) (as_state demo_start) pkce \<and>
    exchange_authorization_code demo_http (mc_token rt) (cb_code demo_input) (code_verifier pkce)
      (snd ((demo_stored 0, zero_env 2 2), [] :: request list)) = x \<and>
    manager_complete_login demo_http mem_consume_state_entry demo_manager demo_input
      ((demo_stored 0, zero_env 2 2), []) = (map_sum id (\<lambda>oa. callback_of oa ''r'') (fst x), (v, snd x))"
    by (rule fresh_login_succeeds [OF demo_manager_built start env none])
      (simp_all add: zero_env_def demo_input_def demo_start_def create_authorization_url_def)
  then obtain rt pkce x v where rt: "mg_realms demo_manager ''r'' = Some rt"
    and pkce: "fst (generate_pkce_pair demo_plib (rc_pkce_verifier_len (mc_realm rt)) (snd (Map.empty :: mem_map, zero_env 0 0))) = Inr pkce"
    and x: "exchange_authorization_code demo_http (mc_token rt) (cb_code demo_input) (code_verifier pkce)
      (snd ((demo_stored 0, zero_env 2 2), [] :: request list)) = x"
    and run: "manager_complete_login demo_http mem_consume_state_entry demo_manager demo_input
      ((demo_stored 0, zero_env 2 2), []) = (map_sum id (\<lambda>oa. callback_of oa ''r'') (fst x), (v, snd x))" by blast
  from rt have "rt = demo_config" by (simp add: demo_manager_def)
  moreover from this pkce have "pkce = demo_pair" by (simp add: demo_config_def demo_realm_def demo_pkce)
  ultimately show ?thesis using x run by (intro exI) (simp add: demo_config_def demo_input_def)
qed

text \<open>
  C18: Over the Redis store, on any server that behaves as documented for SET with EX and NX and
  for GETDEL, in any sequence of started and completed logins: when two callbacks with the same
  state both end in a successful login, some start in between was given that state again or
  failed. Keys may expire at any time, and a failed command may or may not have been executed.
\<close>

theorem redis_login_once:
  assumes "redis_set_ok command view" and "redis_getdel_ok command view"
    and "run_logins (multi_realm_client lib plib (redis_create_state_entry command pfx)
        (redis_consume_state_entry command pfx) m) ops w =
      (pre @ Completed i1 (Inr r1) # mid @ Completed i2 (Inr r2) # post, w')"
    and "cr_ok r1" and "cr_ok r2" and "cb_state i2 = cb_state i1"
  shows "\<exists>realm rs. Started realm rs \<in> set mid \<and>
    (case rs of Inr a \<Rightarrow> as_state a = cb_state i1 | Inl _ \<Rightarrow> True)"
proof -
  note backend = multi_backend [OF redis_state_store [OF assms(1,2), of pfx], of lib plib m]
  obtain realm rs where "Started realm rs \<in> set mid" "start_issues redis_issues (cb_state i1) rs"
    using login_backend.completed_once [OF backend assms(3-6)] by blast
  then show ?thesis by (auto simp: start_issues_def redis_issues_def split: sum.splits)
qed

theorem redis_login_once_witness:
  "\<exists>realm rs. Started realm rs \<in> set [Started ''r'' (Inr demo_start)] \<and>
    (case rs of Inr a \<Rightarrow> as_state a = cb_state demo_input | Inl _ \<Rightarrow> True)"
proof -
  obtain w' where run: "run_logins redis_client
      [Do_start ''r'' 300, Do_complete demo_input, Do_start ''r'' 300, Do_complete demo_input]
      ((Map.empty, zero_env 0 0), []) =
    ([Started ''r'' (Inr demo_start)] @ Completed demo_input (Inr demo_result) #
     [Started ''r'' (Inr demo_start)] @ Completed demo_input (Inr demo_result) # [], w')"
    using redis_run by auto
  show ?thesis
    by (rule redis_login_once [OF plain_redis_set_ok plain_redis_getdel_ok run]) (simp_all add: demo_result_def)
qed

text \<open>
  C19: With a clock that never goes back, the memory store is indistinguishable from a store that
  never erases anything on its own but looks at the deadline of an entry when its state is asked
  for: every sequence of operations on a new store has the same outcomes, the random states and
  the failures included. In particular a state is honoured exactly until its time to live has
  passed and at most once.
\<close>

theorem memory_store_refines_spec:
  assumes "run_ops mem_create_state_entry mem_consume_state_entry ops (Map.empty, s) = (obs, (m', s'))"
    and "steady_monotone s"
  shows "\<exists>a'. run_ops spec_create spec_consume ops (Map.empty, s) = (obs, (a', s')) \<and>
    (\<forall>i st. steady_pos s' \<le> i \<longrightarrow>
       map_option entry_of (sweep (steady_ticks s' i) m' st) = live a' (steady_ticks s' i) st)"
  using run_ops_refines [OF assms(1) refines_empty assms(2)] by (auto simp: refines_def)

theorem memory_store_refines_spec_witness:
  "\<exists>w'. run_ops spec_create spec_consume [Op_create login_entry 300, Op_consume demo_state, Op_consume demo_state]
      (Map.empty, zero_env 0 0) =
    ([Created (Inr demo_state), Consumed demo_state (Inr (Some login_entry)), Consumed demo_state (Inr None)], w')"
proof -
  have c: "mem_create_state_entry login_entry 300 (Map.empty, zero_env 0 0) = (Inr demo_state, (demo_stored 0, zero_env 2 (Suc 0)))"
    using demo_create [of 0 0] by (simp add: login_entry_def numeral_2_eq_2)
  have d: "mem_consume_state_entry demo_state (demo_stored 0, zero_env 2 (Suc 0)) = (Inr (Some login_entry), (Map.empty, zero_env 3 (Suc 0)))"
    using demo_consume [of 0 1] by (simp add: login_entry_def numeral_2_eq_2 numeral_3_eq_3)
  obtain s' where e: "mem_consume_state_entry demo_state (Map.empty, zero_env 3 (Suc 0)) = (Inr None, (Map.empty, s'))"
    by (simp add: mem_consume_eq Let_def)
  have "run_ops mem_create_state_entry mem_consume_state_entry
      [Op_create login_entry 300, Op_consume demo_state, Op_consume demo_state] (Map.empty, zero_env 0 0) =
    ([Created (Inr demo_state), Consumed demo_state (Inr (Some login_entry)), Consumed demo_state (Inr None)],
     (Map.empty, s'))"
    by (simp add: c d e)
  from memory_store_refines_spec [OF this] show ?thesis by (auto simp: steady_monotone_def zero_env_def)
qed

text \<open>
  C20: A state is 32 lower case hexadecimal digits, and it determines the 16 random bytes it was
  made of: states drawn from different bytes are different, so the state has all the entropy of
  the random source.
\<close>

theorem state_is_unpredictable_text:
  assumes "random_state_32 s = (Inr st, s')" and "rand_fills s"
  shows "length st = 32 \<and> set st \<subseteq> set kHex \<and>
    (\<forall>s2 st2 s2'. random_state_32 s2 = (Inr st2, s2') \<and>
       rand_bytes s2 (rand_pos s2) kStateBytes \<noteq> rand_bytes s (rand_pos s) kStateBytes \<longrightarrow> st2 \<noteq> st)"
proof -
  have b: "\<exists>bs. rand_bytes s (rand_pos s) kStateBytes = Some bs \<and> st = state_hex bs"
    if "random_state_32 s = (Inr st, s')" for s st s'
    using that by (auto simp: random_state_32_def abind_def RAND_bytes_def split: option.splits)
  show ?thesis using random_state_shape [OF assms] b b [OF assms(1)] state_hex_inj by metis
qed

theorem state_is_unpredictable_text_witness: "length demo_state = 32 \<and> set demo_state \<subseteq> set kHex"
proof -
  have "random_state_32 (zero_env 0 0) = (Inr demo_state, zero_env 0 1)"
    by (simp add: random_state_32_def RAND_bytes_def abind_def zero_env_def demo_state_def kStateBytes_def)
  from state_is_unpredictable_text [OF this] show ?thesis by (simp add: rand_fills_def zero_env_def)
qed

text \<open>
  C21: A generated PKCE pair has a verifier of the configured length clamped to 43..128, made of
  unreserved characters only, and its challenge is the base64url form without padding of the
  SHA-256 digest of the verifier: the library's own decoder reads the digest back.
\<close>

theorem pkce_pair_shape:
  assumes "generate_pkce_pair lib n s = (Inr p, s')" and "rand_fills s" and "bio_base64 lib = rfc4648"
  shows "length (code_verifier p) = max 43 (min 128 n) \<and> (\<forall>c \<in> set (code_verifier p). unreserved c) \<and>
    CHR ''='' \<notin> set (code_challenge p) \<and>
    base64url_decode (code_challenge p) = Some (snd (sha_final lib (code_verifier p)))"
proof -
  note p = generate_pkce_pair_Inr [OF assms(1,2)]
  from p(3) have "code_challenge p = b64url (snd (sha_final lib (code_verifier p)))"
    using base64url_encode_rfc [of lib "snd (sha_final lib (code_verifier p))"] assms(3)
    by (auto simp: sha256_raw_def base64url_encode_def split: if_splits)
  then show ?thesis using p(1,2) b64url_chars by auto
qed

theorem pkce_pair_shape_witness: "length (code_verifier demo_pair) = 64"
proof -
  have "bio_base64 demo_plib = rfc4648" by (simp add: demo_plib_def)
  moreover have "rand_fills (zero_env 0 0)" by (simp add: rand_fills_def zero_env_def)
  ultimately show ?thesis using pkce_pair_shape [OF demo_pkce, of 0 0] by simp
qed

text \<open>
  C22: The authorization URL is the realm's authorization endpoint, a question mark and a query
  from which a form parser reads back exactly the parameters of the flow: response type, client,
  redirect URI, state, challenge, method S256 and scopes, whatever characters the configuration
  or the state contain.
\<close>

theorem authorization_url_parameters:
  "\<exists>query. authorization_url (create_authorization_url cfg st pkce) = strategy_endpoint cfg @ ''?'' @ query \<and>
    parse_form_encoded query =
      [''response_type'' \<mapsto> ''code'', ''client_id'' \<mapsto> rc_client_id cfg,
       ''redirect_uri'' \<mapsto> rc_redirect_uri cfg, ''state'' \<mapsto> st,
       ''code_challenge'' \<mapsto> code_challenge pkce, ''code_challenge_method'' \<mapsto> ''S256'',
       ''scope'' \<mapsto> join_scopes (rc_scopes cfg)]"
proof (intro exI conjI)
  show "authorization_url (create_authorization_url cfg st pkce) =
      strategy_endpoint cfg @ ''?'' @ build_form_body (auth_params cfg st pkce)"
    by (simp add: create_authorization_url_def build_query_form)
  show "parse_form_encoded (build_form_body (auth_params cfg st pkce)) =
      [''response_type'' \<mapsto> ''code'', ''client_id'' \<mapsto> rc_client_id cfg,
       ''redirect_uri'' \<mapsto> rc_redirect_uri cfg, ''state'' \<mapsto> st,
       ''code_challenge'' \<mapsto> code_challenge pkce, ''code_challenge_method'' \<mapsto> ''S256'',
       ''scope'' \<mapsto> join_scopes (rc_scopes cfg)]"
    unfolding parse_build_form fold_updates_empty [symmetric] by (simp add: auth_params_def)
qed

text \<open>
  C23: A multi realm manager that was constructed has at least one realm; every realm of its map
  is the first configuration of that name, the order list is the list of the names given
  (duplicates included), and every configuration has a name and the fields an authorization URL
  needs.
\<close>

theorem manager_configuration:
  assumes "multi_realm_manager configs = Inr m"
  shows "configs \<noteq> [] \<and> realm_names m = map (\<lambda>c. rc_realm (mc_realm c)) configs \<and>
    (\<forall>name. mg_realms m name = find (\<lambda>c. rc_realm (mc_realm c) = name) configs) \<and>
    (\<forall>name. manager_has_realm m name \<longleftrightarrow> name \<in> set (realm_names m)) \<and>
    (\<forall>c \<in> set configs. rc_realm (mc_realm c) \<noteq> [] \<and> rc_base_url (mc_realm c) \<noteq> [] \<and>
       rc_client_id (mc_realm c) \<noteq> [] \<and> rc_redirect_uri (mc_realm c) \<noteq> [])"
proof -
  note f = manager_realms [OF assms]
  have "manager_has_realm m name \<longleftrightarrow> name \<in> set (realm_names m)" for name
    using find_None_iff [of "\<lambda>c. rc_realm (mc_realm c) = name" configs] f(1,2)
    by (auto simp: realm_names_def manager_has_realm_def)
  with f show ?thesis by (simp add: realm_names_def pkce_auth_strategy_def split: if_splits)
qed

theorem manager_configuration_witness: "realm_names demo_manager = [''r'']"
  using manager_configuration [OF demo_manager_built] by (simp add: demo_config_def demo_realm_def)

section \<open>The HTTP endpoints\<close>

text \<open>
  C24: A session from end to end, where revocation on logout is enabled: when a user agent sends
  the cookies that a successful callback with a non-empty refresh token set back to the logout
  endpoint of the same realm, the logout revokes exactly the refresh token that this login was
  issued, whatever bytes it has, as a refresh token of that realm. If the revocation returns,
  whatever its result, the response then sets both token cookies of the realm to the empty value
  with Max-Age=0, path and flags as configured, and redirects. If the revocation throws, so does
  the logout, and no cookie is expired.
\<close>

theorem session_logout_revokes:
  assumes "handle_callback cfg client cb_req (w, []) = (Inr (), (w', tr))"
    and "ac_complete_login client \<lparr>cb_code = param_or_empty (callback_params cb_req) ''code'',
      cb_state = param_or_empty (callback_params cb_req) ''state''\<rparr> w = (Inr r, w1)" and "cr_ok r"
    and "refresh_token (cr_tokens r) \<noteq> []" and "cr_realm r \<noteq> []"
    and "parse_form_encoded (uri_query (req_uri req)) ''realm'' = Some (cr_realm r)"
    and "header_value lib (req_headers req) ''Cookie'' = Some (agent_cookies tr)"
    and "at_has_realm tokens (cr_realm r)" and "hc_revoke_refresh_token_on_logout cfg"
  shows "handle_logout lib cfg tokens req (v, []) =
    (let dropped = (\<lambda>name. Add_header ''Set-Cookie'' (url_encode (name @ ''_'' @ cr_realm r) @ ''=; Path='' @
        tc_path (hc_token_cookies cfg) @ ''; Max-Age=0; HttpOnly'' @
        (if tc_secure (hc_token_cookies cfg) then ''; Secure'' else []) @
        (if tc_same_site (hc_token_cookies cfg) \<noteq> [] then ''; SameSite='' @ tc_same_site (hc_token_cookies cfg) else [])))
     in case at_revoke_token tokens (cr_realm r) (refresh_token (cr_tokens r)) ''refresh_token'' v of
       (Inl e, v') \<Rightarrow> (Inl e, (v', no_store))
     | (Inr _, v') \<Rightarrow> (Inr (), (v', no_store @
         [dropped (tc_access_token_name (hc_token_cookies cfg)), dropped (tc_refresh_token_name (hc_token_cookies cfg)),
          Set_status 302, Add_header ''Location'' (hc_post_logout_redirect cfg), Set_body []])))"
  using logout_revokes_cookie [OF assms(6,5,8,9,7) callback_cookies [OF assms(1-3)] assms(4), of v "[]"]
  unfolding clear_token_cookies_text Let_def list.map append_Cons append_Nil append_assoc .

theorem session_logout_revokes_witness:
  "\<exists>tr. handle_callback demo_handler session_client blank_request ((), []) = (Inr (), ((), tr)) \<and>
    handle_logout demo_http demo_handler demo_revoker (session_logout tr) ([], []) =
     (Inr (), ([(''r'', ''R;T'', ''refresh_token'')], no_store @
       [Add_header ''Set-Cookie'' (url_encode ''at_r'' @ ''=; Path=/; Max-Age=0; HttpOnly; Secure; SameSite=Lax''),
        Add_header ''Set-Cookie'' (url_encode ''rt_r'' @ ''=; Path=/; Max-Age=0; HttpOnly; Secure; SameSite=Lax''),
        Set_status 302, Add_header ''Location'' ''/'', Set_body []]))"
proof -
  obtain tr where cb: "handle_callback demo_handler session_client blank_request ((), []) = (Inr (), ((), tr))"
    using session_callback by blast
  have h: "header_value demo_http (req_headers (session_logout tr)) ''Cookie'' = Some (agent_cookies tr)"
    by (simp add: session_logout_def demo_http_def)
  have start: "ac_complete_login session_client \<lparr>cb_code = param_or_empty (callback_params blank_request) ''code'',
      cb_state = param_or_empty (callback_params blank_request) ''state''\<rparr> () = (Inr session_result, ())"
    by (simp add: session_client_def)
  have q: "parse_form_encoded (uri_query (req_uri (session_logout tr))) ''realm'' = Some (cr_realm session_result)"
    by (simp add: session_logout_def session_result_def parse_build_form)
  have "cr_ok session_result" "refresh_token (cr_tokens session_result) \<noteq> []" "cr_realm session_result \<noteq> []"
    "at_has_realm demo_revoker (cr_realm session_result)" "hc_revoke_refresh_token_on_logout demo_handler"
    by (simp_all add: session_result_def demo_revoker_def demo_handler_def)
  from session_logout_revokes [OF cb start this(1-3) q h this(4,5), of "[]"] cb show ?thesis
    by (simp add: demo_revoker_def session_result_def demo_handler_def)
qed

text \<open>
  C25: The login endpoint over the memory store: for a realm the manager knows, a request that is
  answered sends a redirect to the realm's authorization endpoint, marked not to be stored. The
  PKCE pair is the one drawn in this request: its challenge is the code_challenge parameter of
  the redirect, and the state parameter is a state that the store now holds together with that
  realm and the verifier of this pair, which has at least 43 characters.
\<close>

theorem login_issues_usable_state:
  assumes "multi_realm_manager configs = Inr m" and "mg_realms m realm = Some rt" and "rand_fills (snd (fst w))"
    and "parse_form_encoded (uri_query (req_uri req)) ''realm'' = Some realm"
    and "handle_login (multi_realm_client lib plib mem_create_state_entry mem_consume_state_entry m) req (w, tr) =
      (Inr (), (w', tr'))"
  shows "\<exists>url query st pkce.
    fst (generate_pkce_pair plib (rc_pkce_verifier_len (mc_realm rt)) (snd (fst w))) = Inr pkce \<and>
    tr' = tr @ [Set_status 302, Add_header ''Location'' url] @ no_store @ [Set_body []] \<and>
    url = rc_base_url (mc_realm rt) @ ''/realms/'' @ url_encode realm @ ''/protocol/openid-connect/auth?'' @ query \<and>
    parse_form_encoded query ''state'' = Some st \<and>
    parse_form_encoded query ''code_challenge'' = Some (code_challenge pkce) \<and>
    mem_stored (fst w') st = Some \<lparr>se_code_verifier = code_verifier pkce, se_realm = realm\<rparr> \<and>
    length (code_verifier pkce) \<ge> 43"
proof -
  note f = manager_realms [OF assms(1)]
  have name: "rc_realm (mc_realm rt) = realm" "realm \<noteq> []"
  proof -
    have "find (\<lambda>c. rc_realm (mc_realm c) = realm) configs = Some rt" using f(2) [of realm] assms(2) by simp
    from find_SomeD [OF this] f(3) show "rc_realm (mc_realm rt) = realm" "realm \<noteq> []" by auto
  qed
  from assms(2,4,5) name obtain a where
    start: "manager_start_login plib mem_create_state_entry m realm 300 (fst w) = (Inr a, fst w')"
    and tr': "tr' = tr @ [Set_status 302, Add_header ''Location'' (authorization_url a)] @ no_store @ [Set_body []]"
    by (auto simp: handle_login_def Let_def realm_missing_def multi_realm_client_def manager_has_realm_def
        abind_eq_Inr on_fst_run on_fst_def split: prod.splits)
  from start obtain pkce w1 where
    pkce: "generate_pkce_pair plib (rc_pkce_verifier_len (mc_realm rt)) (snd (fst w)) = (Inr pkce, snd w1)"
    and cr: "mem_create_state_entry \<lparr>se_code_verifier = code_verifier pkce, se_realm = rc_realm (mc_realm rt)\<rparr> 300 w1 =
      (Inr (as_state a), fst w')"
    and a: "a = create_authorization_url (mc_realm rt) (as_state a) pkce"
    using assms(2) by (elim manager_start_login_Inr) auto
  have len: "length (code_verifier pkce) \<ge> 43" using generate_pkce_pair_Inr(1) [OF pkce assms(3)] by simp
  then have "code_verifier pkce \<noteq> []" by auto
  with mem_store.create_stores [OF _ cr] name
  have st: "mem_stored (fst w') (as_state a) = Some \<lparr>se_code_verifier = code_verifier pkce, se_realm = realm\<rparr>" by simp
  have "authorization_url a = rc_base_url (mc_realm rt) @ ''/realms/'' @ url_encode realm @
      ''/protocol/openid-connect/auth?'' @ build_form_body (auth_params (mc_realm rt) (as_state a) pkce)"
    using arg_cong [OF a, of authorization_url] name(1)
    by (simp add: create_authorization_url_def build_query_form strategy_endpoint_def)
  moreover have "parse_form_encoded (build_form_body (auth_params (mc_realm rt) (as_state a) pkce)) ''state'' =
      Some (as_state a)"
    "parse_form_encoded (build_form_body (auth_params (mc_realm rt) (as_state a) pkce)) ''code_challenge'' =
      Some (code_challenge pkce)"
    by (simp_all add: parse_build_form auth_params_def)
  moreover have "fst (generate_pkce_pair plib (rc_pkce_verifier_len (mc_realm rt)) (snd (fst w))) = Inr pkce"
    using pkce by simp
  ultimately show ?thesis using tr' st len by blast
qed

theorem login_issues_usable_state_witness:
  "\<exists>st pkce. fst (generate_pkce_pair demo_plib 64 (zero_env 0 0)) = Inr pkce \<and>
    mem_stored (demo_stored 0, zero_env 2 2) st = Some \<lparr>se_code_verifier = code_verifier pkce, se_realm = ''r''\<rparr>"
proof -
  let ?req = "blank_request\<lparr>req_uri := blank_uri\<lparr>uri_query := build_form_body [(''realm'', ''r'')]\<rparr>\<rparr>"
  have q: "parse_form_encoded (uri_query (req_uri ?req)) ''realm'' = Some ''r''" by (simp add: parse_build_form)
  have run: "handle_login demo_client ?req (((Map.empty, zero_env 0 0), []), []) =
      (Inr (), (((demo_stored 0, zero_env 2 2), []),
        [Set_status 302, Add_header ''Location'' (authorization_url demo_start)] @ no_store @ [Set_body []]))"
    using demo_login [of 0 0 "[]"] q
    by (simp add: handle_login_def realm_missing_def on_fst_run abind_def numeral_2_eq_2)
      (simp add: multi_realm_client_def manager_has_realm_def demo_manager_def)
  have rt: "mg_realms demo_manager ''r'' = Some demo_config" by (simp add: demo_manager_def)
  have "rand_fills (snd (fst ((Map.empty, zero_env 0 0), [] :: request list)))"
    by (simp add: rand_fills_def zero_env_def)
  from login_issues_usable_state [OF demo_manager_built rt this q run] show ?thesis
    by (auto simp: demo_config_def demo_realm_def)
qed

text \<open>
  C26: The callback endpoint completes exactly one login, with the code and the state of the
  request. After a failed login the response sets no cookie, carries the status of the failure
  and a JSON body from which the error text is read back unchanged, whatever bytes it has. After
  a login that succeeded it sets exactly the two token cookies of the realm, whose name and value
  pairs carry the tokens, and redirects.
\<close>

theorem callback_outcome:
  assumes "handle_callback cfg client req (w, tr) = (Inr (), (w', tr'))"
  shows "\<exists>r resp. ac_complete_login client \<lparr>cb_code = param_or_empty (callback_params req) ''code'',
      cb_state = param_or_empty (callback_params req) ''state''\<rparr> w = (Inr r, w') \<and> tr' = tr @ resp \<and>
    (if cr_ok r then
       Set_status 302 \<in> set resp \<and>
       (let cc = token_cookie_config_for_realm cfg (cr_realm r) in
        parse_cookie_header (cookie_header [(tc_access_token_name cc, access_token (cr_tokens r)),
          (tc_refresh_token_name cc, refresh_token (cr_tokens r))]) (tc_refresh_token_name cc) =
            Some (refresh_token (cr_tokens r)) \<and>
        cookie_pairs resp = [cookie_pair (tc_access_token_name cc, access_token (cr_tokens r)),
          cookie_pair (tc_refresh_token_name cc, refresh_token (cr_tokens r))])
     else
       cookie_pairs resp = [] \<and> Set_status (of_int (cr_http_status r)) \<in> set resp \<and>
       (\<exists>body. Set_body body \<in> set resp \<and> extract_json_string body ''error'' = Inr (Some (cr_error r))))"
  using assms
proof (rule handle_callback_Inr)
  fix r
  assume run: "ac_complete_login client \<lparr>cb_code = param_or_empty (callback_params req) ''code'',
      cb_state = param_or_empty (callback_params req) ''state''\<rparr> w = (Inr r, w')"
    and tr': "tr' = tr @ no_store @ (if \<not> cr_ok r then
          [json_type, Set_status (of_int (cr_http_status r)), Set_body (error_body (json_escape (cr_error r)))]
        else add_token_cookies cfg (cr_realm r) (cr_tokens r) @
          [Set_status 302, Add_header ''Location'' (hc_post_login_redirect cfg), Set_body []])"
  let ?cc = "token_cookie_config_for_realm cfg (cr_realm r)"
  have "tc_access_token_name ?cc \<noteq> []" "tc_refresh_token_name ?cc \<noteq> []"
    by (simp_all add: token_cookie_config_for_realm_def)
  then have "parse_cookie_header (cookie_header [(tc_access_token_name ?cc, access_token (cr_tokens r)),
      (tc_refresh_token_name ?cc, refresh_token (cr_tokens r))]) (tc_refresh_token_name ?cc) =
      Some (refresh_token (cr_tokens r))"
    by (simp add: parse_cookie_pairs)
  with run tr' error_body_read [of "cr_error r"] show ?thesis
    by (cases "cr_ok r") (auto simp: cookie_pairs_tokens json_type_def Let_def)
qed

theorem callback_outcome_witness:
  "\<exists>r. ac_complete_login demo_client \<lparr>cb_code = [], cb_state = []\<rparr> ((Map.empty, zero_env 0 0), []) =
     (Inr r, ((Map.empty, zero_env 0 0), [])) \<and> \<not> cr_ok r"
proof -
  let ?cfg = "\<lparr>hc_token_cookies = \<lparr>tc_access_token_name = ''a'', tc_refresh_token_name = ''b'', tc_path = ''/'',
    tc_secure = True, tc_same_site = ''Lax''\<rparr>, hc_post_login_redirect = ''/'', hc_post_logout_redirect = ''/'',
    hc_revoke_refresh_token_on_logout = True\<rparr>"
  have params: "callback_params blank_request = Map.empty"
    using parse_build_form [of "[]"] by (simp add: callback_params_def blank_request_def blank_uri_def)
  have c: "ac_complete_login demo_client \<lparr>cb_code = [], cb_state = []\<rparr> ((Map.empty, zero_env 0 0), []) =
      (Inr (callback_error 400 ''missing_code_or_state''), ((Map.empty, zero_env 0 0), []))"
    by (simp add: multi_realm_client_def manager_complete_login_def)
  have "\<exists>tr'. handle_callback ?cfg demo_client blank_request (((Map.empty, zero_env 0 0), []), []) =
      (Inr (), (((Map.empty, zero_env 0 0), []), tr'))"
    using c by (simp add: handle_callback_def params param_or_empty_def on_fst_run abind_def callback_error_def)
  then obtain tr' where "handle_callback ?cfg demo_client blank_request (((Map.empty, zero_env 0 0), []), []) =
      (Inr (), (((Map.empty, zero_env 0 0), []), tr'))" ..
  from callback_outcome [OF this] c show ?thesis by (auto simp: callback_error_def)
qed

text \<open>
  C27: The logout endpoint for a known realm, with revocation enabled and a Cookie header that
  carries a non-empty refresh token for that realm: that token is revoked, as a refresh token of
  that realm. If the revocation returns, whatever its result, the response then expires both
  token cookies of the realm, that is, sets each to the empty value with Max-Age=0, path and
  flags as configured, and redirects. When the revocation throws, so does the logout, and the
  cookies are not expired.
\<close>

theorem logout_revokes_and_clears:
  assumes "parse_form_encoded (uri_query (req_uri req)) ''realm'' = Some realm" and "realm \<noteq> []"
    and "at_has_realm tokens realm" and "hc_revoke_refresh_token_on_logout cfg"
    and "header_value lib (req_headers req) ''Cookie'' = Some (cookie_header kvs)"
    and "\<forall>kv \<in> set kvs. fst kv \<noteq> []"
    and "map_of (rev kvs) (tc_refresh_token_name (hc_token_cookies cfg) @ ''_'' @ realm) = Some tok" and "tok \<noteq> []"
  shows "handle_logout lib cfg tokens req (w, tr) =
    (let dropped = (\<lambda>name. Add_header ''Set-Cookie'' (url_encode (name @ ''_'' @ realm) @ ''=; Path='' @
        tc_path (hc_token_cookies cfg) @ ''; Max-Age=0; HttpOnly'' @
        (if tc_secure (hc_token_cookies cfg) then ''; Secure'' else []) @
        (if tc_same_site (hc_token_cookies cfg) \<noteq> [] then ''; SameSite='' @ tc_same_site (hc_token_cookies cfg) else [])))
     in case at_revoke_token tokens realm tok ''refresh_token'' w of
       (Inl e, w') \<Rightarrow> (Inl e, (w', tr @ no_store))
     | (Inr _, w') \<Rightarrow> (Inr (), (w', tr @ no_store @
         [dropped (tc_access_token_name (hc_token_cookies cfg)), dropped (tc_refresh_token_name (hc_token_cookies cfg)),
          Set_status 302, Add_header ''Location'' (hc_post_logout_redirect cfg), Set_body []])))"
proof -
  have "parse_cookie_header (cookie_header kvs) (tc_refresh_token_name (token_cookie_config_for_realm cfg realm)) = Some tok"
    using assms(6,7) by (simp add: parse_cookie_pairs token_cookie_config_for_realm_def)
  from logout_revokes_cookie [OF assms(1-5) this assms(8), of w tr] show ?thesis
    unfolding clear_token_cookies_text Let_def list.map append_Cons append_Nil append_assoc .
qed

theorem logout_revokes_and_clears_witness:
  "handle_logout demo_http demo_handler demo_revoker demo_logout_request ([], []) =
     (Inr (), ([(''r'', ''RT'', ''refresh_token'')], no_store @
       [Add_header ''Set-Cookie'' (url_encode ''at_r'' @ ''=; Path=/; Max-Age=0; HttpOnly; Secure; SameSite=Lax''),
        Add_header ''Set-Cookie'' (url_encode ''rt_r'' @ ''=; Path=/; Max-Age=0; HttpOnly; Secure; SameSite=Lax''),
        Set_status 302, Add_header ''Location'' ''/'', Set_body []]))"
proof -
  have q: "parse_form_encoded (uri_query (req_uri demo_logout_request)) ''realm'' = Some ''r''"
    by (simp add: demo_logout_request_def parse_build_form)
  have h: "header_value demo_http (req_headers demo_logout_request) ''Cookie'' = Some (cookie_header [(''rt_r'', ''RT'')])"
    by (simp add: demo_logout_request_def demo_http_def)
  show ?thesis
    using logout_revokes_and_clears [OF q _ _ _ h, of demo_revoker demo_handler "''RT''" "[]" "[]"]
    by (simp add: demo_revoker_def demo_handler_def)
qed

text \<open>
  C28: A Set-Cookie value never lets the cookie's name or value escape into the attributes: what
  stands before its first semicolon is the pair. A user agent that echoes such pairs in a Cookie
  header has them read back unchanged, the last one of a name winning.
\<close>

theorem cookies_roundtrip:
  assumes "\<forall>kv \<in> set kvs. fst kv \<noteq> []"
  shows "parse_cookie_header (cookie_header kvs) = map_of (rev kvs) \<and>
    map cookie_pair kvs = map (\<lambda>kv. takeWhile (\<lambda>c. c \<noteq> CHR '';'') (make_set_cookie (fst kv) (snd kv) options)) kvs"
  using parse_cookie_pairs [OF assms] by (simp add: set_cookie_pair)

theorem cookies_roundtrip_witness:
  "parse_cookie_header (cookie_header [(''a;b'', ''x=y''), (''c'', '' '')]) ''a;b'' = Some ''x=y''"
  using cookies_roundtrip [of "[(''a;b'', ''x=y''), (''c'', '' '')]"] by simp

section \<open>The OAuth and OIDC calls\<close>

text \<open>
  C29: Exchanging a code sends exactly one request: a form POST to the token endpoint path of the
  configured realm, on the scheme, host and port of the configured base URL. A form parser reads
  its body back as exactly these fields: the grant type authorization_code, the code, the code
  verifier, client id and redirect URI of the configuration, and the client secret if one is
  configured. The result is the reading of the response.
\<close>

theorem token_request_on_the_wire:
  assumes "base_url_ok (ts_base_url cfg) scheme host port ctx" and "blank_defaults lib"
    and "code_text \<noteq> []" and "verifier \<noteq> []"
  shows "\<exists>req. exchange_authorization_code lib cfg code_text verifier h =
      abind (http_send lib req) (\<lambda>resp. alift (parse_token_response resp ''token_exchange_failed'')) h \<and>
    method_token req = ''POST'' \<and> uri_scheme (req_uri req) = scheme \<and> uri_host (req_uri req) = host \<and>
    uri_port (req_uri req) = port \<and>
    uri_path (req_uri req) = ctx @ ''/realms/'' @ url_encode (ts_realm cfg) @ ''/protocol/openid-connect/token'' \<and>
    (''Content-Type'', ''application/x-www-form-urlencoded'') \<in> set (req_headers req) \<and>
    (let body = [''grant_type'' \<mapsto> ''authorization_code'', ''code'' \<mapsto> code_text, ''code_verifier'' \<mapsto> verifier,
       ''client_id'' \<mapsto> ts_client_id cfg, ''redirect_uri'' \<mapsto> ts_redirect_uri cfg]
     in parse_form_encoded (req_body req) =
       (case ts_client_secret cfg of None \<Rightarrow> body | Some secret \<Rightarrow> body(''client_secret'' \<mapsto> secret)))"
proof -
  let ?req = "form_request scheme host port (endpoint_path ctx (ts_realm cfg) ''/protocol/openid-connect/token'')
    (exchange_fields cfg code_text verifier)"
  let ?body = "[''grant_type'' \<mapsto> ''authorization_code'', ''code'' \<mapsto> code_text, ''code_verifier'' \<mapsto> verifier,
    ''client_id'' \<mapsto> ts_client_id cfg, ''redirect_uri'' \<mapsto> ts_redirect_uri cfg]"
  have "exchange_authorization_code lib cfg code_text verifier h =
      abind (http_send lib ?req) (\<lambda>resp. alift (parse_token_response resp ''token_exchange_failed'')) h"
    using post_form_sends [OF assms(1,2)] assms(3,4)
    by (simp add: exchange_authorization_code_def token_endpoint_def)
  moreover have "map_of (rev (exchange_fields cfg code_text verifier)) = (case ts_client_secret cfg of None \<Rightarrow> ?body
      | Some secret \<Rightarrow> ?body(''client_secret'' \<mapsto> secret))"
    unfolding exchange_fields_def by (rule with_secret_reads) (auto simp: fun_eq_iff)
  ultimately show ?thesis
    by (intro exI [of _ ?req]) (simp add: form_request_simps parse_build_form endpoint_path_def)
qed

theorem token_request_on_the_wire_witness:
  "\<exists>req. exchange_authorization_code demo_http demo_ts ''c1'' ''v1'' [] =
     abind (http_send demo_http req) (\<lambda>resp. alift (parse_token_response resp ''token_exchange_failed'')) [] \<and>
   uri_host (req_uri req) = ''k'' \<and> parse_form_encoded (req_body req) ''code'' = Some ''c1''"
proof -
  have b: "base_url_ok (ts_base_url demo_ts) ''https'' ''k'' 0 []" using demo_base_ok by (simp add: demo_ts_def)
  have l: "blank_defaults demo_http" by (simp add: demo_http_def)
  show ?thesis using token_request_on_the_wire [OF b l, of "''c1''" "''v1''" "[]"] by (auto simp: demo_ts_def)
qed

text \<open>
  C30: Refreshing, revoking and introspecting a token each send exactly one request: a form POST
  on the scheme, host and port of the configured base URL to the path of the token, revocation or
  introspection endpoint of the configured realm. A form parser reads its body back as exactly
  the fields of the operation, namely the token under its name, the client id, for a refresh the
  grant type refresh_token, for a revocation the hint, and the client secret if one is
  configured. The result is the operation's reading of the response.
\<close>

theorem service_requests_on_the_wire:
  assumes "base_url_ok (ts_base_url cfg) scheme host port ctx" and "blank_defaults lib" and "tok \<noteq> []"
    and "(operation, path, body, reading) \<in>
      {(refresh_tokens lib cfg tok, ''/protocol/openid-connect/token'',
        [''grant_type'' \<mapsto> ''refresh_token'', ''refresh_token'' \<mapsto> tok, ''client_id'' \<mapsto> ts_client_id cfg],
        \<lambda>resp. parse_token_response resp ''token_refresh_failed''),
       (revoke_token lib cfg tok hint, ''/protocol/openid-connect/revoke'',
        [''token'' \<mapsto> tok, ''token_type_hint'' \<mapsto> hint, ''client_id'' \<mapsto> ts_client_id cfg], revoke_result),
       (introspect_token lib cfg tok, ''/protocol/openid-connect/token/introspect'',
        [''token'' \<mapsto> tok, ''client_id'' \<mapsto> ts_client_id cfg], introspect_result)}"
  shows "\<exists>req. operation h = abind (http_send lib req) (\<lambda>resp. alift (reading resp)) h \<and>
    method_token req = ''POST'' \<and> uri_scheme (req_uri req) = scheme \<and> uri_host (req_uri req) = host \<and>
    uri_port (req_uri req) = port \<and> uri_path (req_uri req) = ctx @ ''/realms/'' @ url_encode (ts_realm cfg) @ path \<and>
    (''Content-Type'', ''application/x-www-form-urlencoded'') \<in> set (req_headers req) \<and>
    parse_form_encoded (req_body req) =
      (case ts_client_secret cfg of None \<Rightarrow> body | Some secret \<Rightarrow> body(''client_secret'' \<mapsto> secret))"
proof -
  obtain kvs where sends: "operation h = abind (http_send lib
      (form_request scheme host port (endpoint_path ctx (ts_realm cfg) path) kvs)) (\<lambda>resp. alift (reading resp)) h"
    and kvs: "map_of (rev kvs) =
      (case ts_client_secret cfg of None \<Rightarrow> body | Some secret \<Rightarrow> body(''client_secret'' \<mapsto> secret))"
    using assms(4) service_sends [OF assms(1-3)] by blast
  then show ?thesis
    by (intro exI [of _ "form_request scheme host port (endpoint_path ctx (ts_realm cfg) path) kvs"])
      (simp add: form_request_simps parse_build_form endpoint_path_def)
qed

theorem service_requests_on_the_wire_witness:
  "\<exists>req. revoke_token demo_http demo_ts ''RT'' ''refresh_token'' [] =
     abind (http_send demo_http req) (\<lambda>resp. alift (revoke_result resp)) [] \<and>
   uri_path (req_uri req) = ''/realms/'' @ url_encode ''r'' @ ''/protocol/openid-connect/revoke'' \<and>
   parse_form_encoded (req_body req) ''token'' = Some ''RT''"
proof -
  have b: "base_url_ok (ts_base_url demo_ts) ''https'' ''k'' 0 []" using demo_base_ok by (simp add: demo_ts_def)
  have l: "blank_defaults demo_http" by (simp add: demo_http_def)
  from service_requests_on_the_wire [OF b l _ insertI2 [OF insertI1], of "''RT''" "''refresh_token''" "[]"] show ?thesis
    by (auto simp: demo_ts_def)
qed

text \<open>
  C31: Let the body of a 2xx token response be the text of a JSON document whose member names
  have no quote and no backslash, such that no value of it mentions access_token, id_token,
  refresh_token, token_type, scope, expires_in or refresh_expires_in; a value mentions a name if
  a string in it is that name or ends in a quote and that name, or an object in it has a member
  of that name, and such a value can mislead the search of the reader. Then the response is a
  success exactly if the document has an access token that is a string; the tokens of the result
  are those of the document, each missing or ill-typed member and each lifetime outside 32 bits
  replaced by its default (Bearer for the type, empty texts, zero lifetimes), and escapes in the
  values are undone.
\<close>

theorem token_response_document:
  assumes "\<forall>key \<in> {''access_token'', ''id_token'', ''refresh_token'', ''token_type'', ''scope'', ''expires_in'',
      ''refresh_expires_in''}. clear_for key cs"
    and "is_2xx (effective_status resp)" and "resp_body resp = document_text cs"
  shows "parse_token_response resp fallback = Inr
    (if \<exists>tok. map_of cs ''access_token'' = Some (J_str tok)
     then (oauth_plain True (effective_status resp) [])\<lparr>oa_tokens :=
       \<lparr>access_token = doc_string cs ''access_token'' [], id_token = doc_string cs ''id_token'' [],
        refresh_token = doc_string cs ''refresh_token'' [], token_type = doc_string cs ''token_type'' ''Bearer'',
        tk_scope = doc_string cs ''scope'' [], expires_in = doc_int cs ''expires_in'' 0,
        refresh_expires_in = doc_int cs ''refresh_expires_in'' 0\<rparr>\<rparr>
     else oauth_plain False (effective_status resp) ''token_response_missing_access_token'')"
  using document_token_response [OF _ assms(2,3), of fallback] assms(1) by (simp add: token_names_def doc_tokens_def)

theorem token_response_document_witness:
  "\<exists>r. parse_token_response (ok_response (document_text exchange_doc)) ''e'' = Inr r \<and> oa_ok r \<and>
    refresh_token (oa_tokens r) = ''refresh-1''"
proof -
  have "\<forall>key \<in> {''access_token'', ''id_token'', ''refresh_token'', ''token_type'', ''scope'', ''expires_in'',
      ''refresh_expires_in''}. clear_for key exchange_doc"
    by (simp add: exchange_doc_def clear_simps)
  from token_response_document [OF this, of "ok_response (document_text exchange_doc)" "''e''"] show ?thesis
    by (simp add: exchange_doc_def doc_string_def value_or_def)
qed

text \<open>
  C32: For a well formed base URL, discovery sends exactly one request: a GET of the well-known
  document of the realm on that host. Let the body of the response be the text of a JSON document
  whose member names have no quote and no backslash and no value of which mentions one of the
  eight endpoint names or error, where a value mentions a name if a string in it is that name or
  ends in a quote and that name, or an object in it has a member of that name. Then the result
  carries the status, is ok exactly for a 2xx status, otherwise has the error of the document or
  oidc_discovery_failed, and in both cases each endpoint is the string the document gives for its
  name or, where the document has no string there, the URL of that endpoint under the realm of
  the base URL. An exception of the HTTP client is passed on.
\<close>

theorem discovery_document_endpoints:
  assumes "base_url_ok base scheme host port ctx" and "blank_defaults lib"
    and "\<forall>key \<in> {''issuer'', ''authorization_endpoint'', ''token_endpoint'', ''jwks_uri'', ''userinfo_endpoint'',
      ''revocation_endpoint'', ''introspection_endpoint'', ''end_session_endpoint'', ''error''}. clear_for key cs"
  shows "\<exists>req. method_token req = ''GET'' \<and> req_body req = [] \<and> req_uri req =
      \<lparr>uri_scheme = scheme, uri_host = host, uri_port = port,
       uri_path = ctx @ ''/realms/'' @ url_encode realm @ ''/.well-known/openid-configuration'', uri_query = []\<rparr> \<and>
    (\<forall>e h'. http_send lib req h = (Inl e, h') \<longrightarrow> discover lib base realm h = (Inl e, h')) \<and>
    (\<forall>resp h'. http_send lib req h = (Inr resp, h') \<and> resp_body resp = document_text cs \<longrightarrow>
      discover lib base realm h =
        (let root = scheme @ ''://'' @ host @ port_part port @ ctx @ ''/realms/'' @ url_encode realm;
             member = (\<lambda>name otherwise. case map_of cs name of Some (J_str s) \<Rightarrow> s | _ \<Rightarrow> otherwise)
         in (Inr \<lparr>di_ok = is_2xx (effective_status resp), di_http_status = effective_status resp,
              di_error = (if is_2xx (effective_status resp) then [] else member ''error'' ''oidc_discovery_failed''),
              di_endpoints =
                \<lparr>ep_issuer = member ''issuer'' root,
                 ep_authorization = member ''authorization_endpoint'' (root @ ''/protocol/openid-connect/auth''),
                 ep_token = member ''token_endpoint'' (root @ ''/protocol/openid-connect/token''),
                 ep_jwks_uri = member ''jwks_uri'' (root @ ''/protocol/openid-connect/certs''),
                 ep_userinfo = member ''userinfo_endpoint'' (root @ ''/protocol/openid-connect/userinfo''),
                 ep_revocation = member ''revocation_endpoint'' (root @ ''/protocol/openid-connect/revoke''),
                 ep_introspection =
                   member ''introspection_endpoint'' (root @ ''/protocol/openid-connect/token/introspect''),
                 ep_end_session = member ''end_session_endpoint'' (root @ ''/protocol/openid-connect/logout'')\<rparr>\<rparr>, h')))"
proof -
  let ?req = "get_request_to scheme host port (endpoint_path ctx realm ''/.well-known/openid-configuration'')"
  have clear: "\<forall>key \<in> set discovery_names. clear_for key cs" "clear_for ''error'' cs"
    using assms(3) by (simp_all add: discovery_names_def)
  have root: "realm_root base realm = scheme @ ''://'' @ host @ port_part port @ ctx @ ''/realms/'' @ url_encode realm"
    using assms(1) by (simp add: base_url_ok_def realm_root_def)
  note read = document_discovery [OF clear(1), of base realm, unfolded doc_string_member authorization_endpoint_def
    token_endpoint_def jwks_endpoint_def userinfo_endpoint_def revocation_endpoint_def introspection_endpoint_def
    logout_endpoint_def root]
  show ?thesis
    unfolding discover_sends [OF assms(1,2)] Let_def
    by (intro exI [of _ ?req])
      (simp add: abind_def get_request_to_fields endpoint_path_def
        document_discover_result [OF clear(2) _ read, unfolded doc_string_member])
qed

theorem discovery_document_endpoints_witness:
  "\<exists>req r. discover (demo_lib (ok_response (document_text discovery_doc))) ''https://k'' ''r'' [] = (Inr r, [req]) \<and>
    di_ok r \<and> ep_issuer (di_endpoints r) = ''https://other/r'' \<and>
    ep_token (di_endpoints r) = ''https://k/realms/'' @ url_encode ''r'' @ ''/protocol/openid-connect/token''"
proof -
  have "blank_defaults (demo_lib (ok_response (document_text discovery_doc)))" by simp
  from discovery_document_endpoints [OF demo_base_ok this discovery_doc_clear, of "''r''" "[]"] show ?thesis
    by (fastforce simp: discovery_doc_def port_part_def)
qed

text \<open>
  C33: For a well formed base URL every endpoint of a realm is parsed to the host and port of
  that base URL, with the path of that realm and an empty query, whatever the realm is called: a
  realm name cannot lead to another host, path or query. Trailing slashes of the base URL do not
  matter.
\<close>

theorem endpoints_stay_in_the_realm:
  assumes "base_url_ok base scheme host port ctx" and "blank_defaults lib"
  shows "\<forall>(endpoint, suf) \<in> {(authorization_endpoint, ''/protocol/openid-connect/auth''),
      (token_endpoint, ''/protocol/openid-connect/token''), (jwks_endpoint, ''/protocol/openid-connect/certs''),
      (userinfo_endpoint, ''/protocol/openid-connect/userinfo''),
      (revocation_endpoint, ''/protocol/openid-connect/revoke''),
      (introspection_endpoint, ''/protocol/openid-connect/token/introspect''),
      (logout_endpoint, ''/protocol/openid-connect/logout''),
      (discovery_endpoint, ''/.well-known/openid-configuration'')}.
    parse_absolute_uri lib (endpoint (base @ replicate n CHR ''/'') realm) =
      Inr \<lparr>uri_scheme = scheme, uri_host = host, uri_port = port,
           uri_path = ctx @ ''/realms/'' @ url_encode realm @ suf, uri_query = []\<rparr>"
  using endpoint_uri [OF assms, of _ realm]
  by (simp add: authorization_endpoint_def token_endpoint_def jwks_endpoint_def userinfo_endpoint_def
      revocation_endpoint_def introspection_endpoint_def logout_endpoint_def discovery_endpoint_def
      realm_root_slashes endpoint_path_def)

theorem endpoints_stay_in_the_realm_witness:
  "parse_absolute_uri demo_http (token_endpoint (''https://k'' @ replicate 1 CHR ''/'') ''../x?y'') =
     Inr \<lparr>uri_scheme = ''https'', uri_host = ''k'', uri_port = 0,
          uri_path = [] @ ''/realms/'' @ url_encode ''../x?y'' @ ''/protocol/openid-connect/token'', uri_query = []\<rparr>"
proof -
  have "blank_defaults demo_http" by (simp add: demo_http_def)
  from endpoints_stay_in_the_realm [OF demo_base_ok this, of 1 "''../x?y''"] show ?thesis by simp
qed

section \<open>The JSON reader\<close>

text \<open>
  C34: On the text of a JSON object the position based reader computes lookup in the list of
  members: the text of the first member of that name, or nothing. The key is made of letters,
  digits and underscores, the values are any JSON texts, and no member hides the quoted key in
  another place (as a string value equal to it, or inside a nested object).
\<close>

theorem json_lookup:
  assumes "plain_key key" and "\<forall>(k, v) \<in> set ms. DQ \<notin> set k \<and> value_text v \<and> quiet key v"
  shows "extract_json_value (object_text ms) key = Inr (map_of ms key)"
  using assms by (intro readable_extract) (auto simp: readable_def)

theorem json_lookup_witness:
  "extract_json_value (object_text [(''a'', array_text [string_text ''x'', string_text ''y'']), (''sub'', string_text ''u'')])
     ''sub'' = Inr (Some (string_text ''u''))"
proof -
  have "\<forall>v \<in> set [string_text ''x'', string_text ''y'']. quiet ''sub'' v"
    by (simp add: quiet_string)
  from quiet_array [OF this] show ?thesis
    by (subst json_lookup) (simp_all add: quiet_string plain_def)
qed

text \<open>
  C35: On every closed JSON value (string, object or array, nested to any depth, with any white
  space inside) the skipping loops end, and they end exactly behind the value, whatever text
  surrounds it.
\<close>

theorem json_skip_exact:
  assumes "jclosed v"
  shows "skip_json_value (pre @ v @ post) (length pre) = Inr (length pre + length v)"
  using jskip_closed [OF assms at_middle, of pre post] by (simp add: skip_json_value_def)

theorem json_skip_exact_witness:
  "skip_json_value (''x'' @ object_text [(''k'', array_text [string_text ''}''])] @ ''y'') (length ''x'') =
     Inr (length ''x'' + length (object_text [(''k'', array_text [string_text ''}''])]))"
  by (rule json_skip_exact) (rule object_closed, simp add: plain_def)

text \<open>
  C36: Wherever the skipping function returns, on any text, the position it returns is not before
  the one it was given and not behind the end of the text: it never makes the scanners read out
  of range.
\<close>

theorem json_skip_bounds:
  assumes "skip_json_value tx pos = Inr q" and "pos \<le> length tx"
  shows "pos \<le> q \<and> q \<le> length tx"
  using assms by (rule skip_json_value_Inr)

theorem json_skip_bounds_witness: "length (string_text ''ab'') \<le> length (string_text ''ab'' @ ''!'')"
proof -
  have "jclosed (string_text ''ab'')" by (simp add: closed_string)
  then have "skip_json_value ([] @ string_text ''ab'' @ ''!'') (length ([] :: string)) =
      Inr (length ([] :: string) + length (string_text ''ab''))"
    using jskip_closed [of "string_text ''ab''" "[] @ string_text ''ab'' @ ''!''" "length ([] :: string)" "''!''"]
    by (simp add: skip_json_value_def)
  from json_skip_bounds [OF this] show ?thesis by simp
qed

section \<open>Encodings\<close>

text \<open>
  C37: Decoding the compact form of any header, payload and signature gives these three byte
  strings back, and as signed input exactly the text in front of the second dot.
\<close>

theorem compact_jwt_roundtrip:
  "decode_jwt (b64url hdr @ CHR ''.'' # b64url payload @ CHR ''.'' # b64url sg) = Some
     \<lparr>signing_input = b64url hdr @ CHR ''.'' # b64url payload, header_json = hdr,
      payload_json = payload, signature = sg\<rparr>"
  using decode_compact by (simp add: compact_jwt_def)

text \<open>
  C38: What the PKCE encoder writes over a base64 filter that follows RFC 4648 is read back by
  the JWT decoder, for every byte string; and the decoder's 32-bit accumulator, which overflows
  on long inputs, does not corrupt a byte.
\<close>

theorem base64url_roundtrip:
  assumes "bio_b64_ok lib" and "bio_mem_ok lib" and "bio_base64 lib s = rfc4648 s"
  shows "\<exists>text_of_s. base64url_encode lib s = Inr text_of_s \<and> base64url_decode text_of_s = Some s \<and>
    CHR ''+'' \<notin> set text_of_s \<and> CHR ''/'' \<notin> set text_of_s \<and> CHR ''='' \<notin> set text_of_s"
proof -
  have no: "c \<notin> set (b64url s)" if "decode_base64url_char c = None \<or> c = CHR ''=''" for c
    using bspec [OF b64url_chars, of c s] that by metis
  have "CHR ''+'' \<notin> set (b64url s)" "CHR ''/'' \<notin> set (b64url s)" "CHR ''='' \<notin> set (b64url s)"
    by (rule no; simp add: decode_base64url_char_def char_class_defs)+
  with base64url_encode_rfc [OF assms] show ?thesis by simp
qed

theorem base64url_roundtrip_witness:
  "\<exists>text_of_s. base64url_encode demo_plib ''abc'' = Inr text_of_s \<and> base64url_decode text_of_s = Some ''abc''"
  using base64url_roundtrip [of demo_plib "''abc''"] by (auto simp: demo_plib_def)

text \<open>
  C39: Percent decoding undoes percent encoding for every byte string, and an encoded string
  consists of unreserved characters and percent signs only: it has no separator of a query, a
  path, a cookie or a header in it.
\<close>

theorem url_codec:
  "url_decode (url_encode s) = s \<and> set (url_encode s) \<subseteq> {c. unreserved c \<or> c = CHR ''%''} \<and>
   {CHR ''&'', CHR ''='', CHR '';'', CHR ''/'', CHR ''?'', CHR ''+'', CHR ''#'', CHR '' ''} \<inter> set (url_encode s) = {}"
proof (intro conjI)
  show "set (url_encode s) \<subseteq> {c. unreserved c \<or> c = CHR ''%''}" using url_encode_chars by blast
  have "CHR ''#'' \<notin> set (url_encode s)" "CHR '' '' \<notin> set (url_encode s)"
    by (rule url_encode_not_in; simp add: char_class_defs)+
  then show "{CHR ''&'', CHR ''='', CHR '';'', CHR ''/'', CHR ''?'', CHR ''+'', CHR ''#'', CHR '' ''} \<inter> set (url_encode s) = {}"
    by simp
qed simp

text \<open>
  C40: The form parser of the handlers reads back every form body that the OAuth client writes,
  whatever bytes the keys and values have; of two pairs with the same key the last one stays.
\<close>

theorem form_roundtrip:
  "parse_form_encoded (build_form_body kvs) = map_of (rev kvs)"
  by (rule parse_build_form)

section \<open>Further facts\<close>

text \<open>
  Over any Redis server that behaves as documented for SET with EX and NX and for GETDEL, in any
  sequence of store operations: between two successful consumptions of a state some create
  returned that state again or failed half way. Keys may expire at any time, and a failed command
  may or may not have been executed.
\<close>

theorem redis_state_consumed_once:
  assumes "redis_set_ok command view" and "redis_getdel_ok command view"
    and "run_ops (redis_create_state_entry command pfx) (redis_consume_state_entry command pfx) ops w =
      (pre @ Consumed st (Inr (Some e)) # mid @ Consumed st (Inr (Some e')) # post, w')"
  shows "\<exists>r. Created r \<in> set mid \<and> (r = Inr st \<or> (\<exists>x. r = Inl x))"
  using state_store.consumed_once [OF redis_state_store [OF assms(1,2)] run_ops_steps [OF assms(3)] refl]
  by (simp add: redis_issues_def)

theorem redis_state_consumed_once_witness:
  "\<exists>r. Created r \<in> set [Created (Inr demo_state)] \<and> (r = Inr demo_state \<or> (\<exists>x. r = Inl x))"
proof -
  obtain w' where run: "run_ops (redis_create_state_entry plain_redis ''p:'') (redis_consume_state_entry plain_redis ''p:'')
      [Op_create demo_entry 300, Op_consume demo_state, Op_create demo_entry 300, Op_consume demo_state]
      (Map.empty, zero_env 0 0) =
    ([Created (Inr demo_state)] @ Consumed demo_state (Inr (Some demo_entry)) #
     [Created (Inr demo_state)] @ Consumed demo_state (Inr (Some demo_entry)) # [], w')"
    using demo_redis_run by auto
  show ?thesis by (rule redis_state_consumed_once [OF plain_redis_set_ok plain_redis_getdel_ok run])
qed

text \<open>
  A state created in the memory store is honoured exactly until its time to live has passed:
  consumed right afterwards it yields the entry if the clock read then is before the clock at the
  insertion plus the time to live, and nothing otherwise; and it is removed in both cases.
\<close>

theorem memory_state_expires:
  assumes "mem_create_state_entry e ttl (m, s) = (Inr st, (m1, s1))"
  shows "fst (mem_consume_state_entry st (m1, s1)) =
      Inr (if steady_ticks s1 (steady_pos s1) < steady_ticks s (Suc (steady_pos s)) + ttl * 10 ^ 9
           then Some e else None) \<and>
    fst (snd (mem_consume_state_entry st (m1, s1))) st = None"
  using mem_expiry [OF assms] by (simp add: mem_consume_eq Let_def)

theorem memory_state_expires_witness:
  "fst (mem_consume_state_entry demo_state (demo_stored 0, zero_env 2 1)) =
     Inr (Some \<lparr>se_code_verifier = code_verifier demo_pair, se_realm = ''r''\<rparr>)"
proof -
  have "mem_create_state_entry \<lparr>se_code_verifier = code_verifier demo_pair, se_realm = ''r''\<rparr> 300
      (Map.empty, zero_env 0 0) = (Inr demo_state, (demo_stored 0, zero_env 2 1))"
    using demo_create [of 0 0] by (simp add: numeral_2_eq_2)
  from memory_state_expires [OF this] show ?thesis by (simp add: zero_env_def)
qed

text \<open>
  What the Redis store writes for an entry it reads back unchanged, for every verifier and realm,
  except that an entry without a verifier is not recognised as an encoded entry.
\<close>

theorem redis_entry_codec:
  "decode_state_entry (encode_state_entry e) = (if se_code_verifier e = [] then None else Some e)"
  by (rule decode_encode)

text \<open>
  The expiry check adds the clock skew to the exp claim in signed 64-bit arithmetic: a payload
  whose exp is so large that the sum leaves the range makes the check undefined behaviour instead
  of an answer.
\<close>

theorem expiry_sum_overflows:
  assumes "expected_issuer cfg \<noteq> []" and "extract_json_string payload ''iss'' = Inr (Some (expected_issuer cfg))"
    and "extract_json_int64 payload ''exp'' = Inr (Some e)" and "\<not> fits_int64 (e + clock_skew_seconds cfg)"
  shows "check_claims cfg now payload = Inl Undefined_behaviour"
  using assms by (simp add: check_claims_def add_int64_def)

theorem expiry_sum_overflows_witness:
  "check_claims demo_auth 0 (object_text
     [(''iss'', string_text ''https://k/realms/r''), (''exp'', ''9223372036854775807'')]) = Inl Undefined_behaviour"
proof (rule expiry_sum_overflows)
  have v: "readable key [(''iss'', string_text ''https://k/realms/r''), (''exp'', ''9223372036854775807'')]"
    if "plain_key key" "key \<noteq> ''https://k/realms/r''" for key
    using that scalar_number [of "''9223372036854775807''"] quiet_no_dq [of "''9223372036854775807''" key]
    by (auto simp: readable_def quiet_string value_text_def closed_string is_digit_def)
  have "stoll ''9223372036854775807'' = Inr 9223372036854775807"
    by (simp add: stoll_def parse_int_def Let_def is_digit_def isspace_def digit_val_def fits_int64_def)
  then show "extract_json_int64 (object_text [(''iss'', string_text ''https://k/realms/r''),
      (''exp'', ''9223372036854775807'')]) ''exp'' = Inr (Some 9223372036854775807)"
    by (simp add: extract_object_int64 v catch_all_def)
  show "extract_json_string (object_text [(''iss'', string_text ''https://k/realms/r''),
      (''exp'', ''9223372036854775807'')]) ''iss'' = Inr (Some (expected_issuer demo_auth))"
    by (simp add: extract_object_string v demo_auth_def unescape_plain)
qed (simp_all add: demo_auth_def fits_int64_def)

text \<open>
  An introspection succeeds exactly if the status is 2xx and the body says active true; an answer
  that is not active is reported with status 401, any other failure with the status of the
  response.
\<close>

theorem introspection_reading:
  assumes "introspect_result resp = Inr r"
  shows "(oa_ok r \<longleftrightarrow> is_2xx (effective_status resp) \<and>
      extract_json_bool (resp_body resp) ''active'' = Inr (Some True)) \<and>
    oa_http_status r = (if is_2xx (effective_status resp) \<and> \<not> oa_ok r then 401 else effective_status resp)"
  using introspect_result_sound [OF assms] by blast

theorem introspection_reading_witness:
  "extract_json_bool (object_text [(''active'', ''false'')]) ''active'' \<noteq> Inr (Some True)"
proof -
  have "extract_json_bool (object_text [(''active'', ''false'')]) ''active'' = Inr (Some False)"
    by (simp add: extract_json_bool_def readable_extract demo_active_readable)
  then have "introspect_result \<lparr>status_code = 200, resp_body = object_text [(''active'', ''false'')]\<rparr> =
      Inr (oauth_plain False 401 ''inactive_token'')"
    by (simp add: introspect_result_def effective_status_def is_2xx_def value_or_def del: rbind_eq_Inr)
  from introspection_reading [OF this] show ?thesis by (simp add: effective_status_def is_2xx_def)
qed

text \<open>
  The reader takes the white space behind a JSON literal as part of it: an introspection response
  in which true is followed by a space before the closing brace is reported as an inactive token
  with status 401.
\<close>

theorem active_with_space_is_inactive:
  "introspect_result \<lparr>status_code = 200, resp_body = object_text [(''active'', ''true '')]\<rparr> =
     Inr (oauth_plain False 401 ''inactive_token'')"
proof -
  have "extract_json_bool (object_text [(''active'', ''true '')]) ''active'' = Inr None"
    by (simp add: extract_json_bool_def readable_extract demo_active_readable)
  then show ?thesis
    by (simp add: introspect_result_def effective_status_def is_2xx_def value_or_def del: rbind_eq_Inr)
qed

text \<open>
  Every operation of the token service refuses an empty code, verifier or token with status 400
  before anything is sent, and the realm overloads refuse a realm that is not the configured one
  by an exception.
\<close>

theorem empty_arguments_refused:
  "exchange_authorization_code lib cfg [] verifier h = (Inr (oauth_plain False 400 ''missing_code_or_code_verifier''), h) \<and>
   exchange_authorization_code lib cfg code_text [] h = (Inr (oauth_plain False 400 ''missing_code_or_code_verifier''), h) \<and>
   refresh_tokens lib cfg [] h = (Inr (oauth_plain False 400 ''missing_refresh_token''), h) \<and>
   revoke_token lib cfg [] hint h = (Inr (oauth_plain False 400 ''missing_token''), h) \<and>
   introspect_token lib cfg [] h = (Inr (oauth_plain False 400 ''missing_token''), h) \<and>
   fetch_user_info lib cfg [] h = (Inr (oauth_plain False 400 ''missing_access_token''), h) \<and>
   refresh_tokens_realm lib cfg (ts_realm cfg @ ''x'') tok h = (Inl (Invalid_argument ''unknown realm''), h) \<and>
   revoke_token_realm lib cfg (ts_realm cfg @ ''x'') tok hint h = (Inl (Invalid_argument ''unknown realm''), h)"
  by (simp add: exchange_authorization_code_def refresh_tokens_def revoke_token_def introspect_token_def
      fetch_user_info_def refresh_tokens_realm_def revoke_token_realm_def has_realm_def)

text \<open>
  The roles of a token whose only role claim is a realm access object are the names of its role
  array without repetitions.
\<close>

theorem roles_of_realm_access:
  assumes "readable ''realm_access'' ms" and "readable ''resource_access'' ms"
    and "map_of ms ''realm_access'' = Some (object_text [(''roles'', array_text (map string_text rs))])"
    and "map_of ms ''resource_access'' = None" and "\<forall>r \<in> set rs. plain r \<and> r \<noteq> ''roles''"
  shows "\<exists>roles. extract_all_roles (object_text ms) = Inr roles \<and> set roles = set rs \<and> distinct roles"
proof -
  let ?ra = "object_text [(''roles'', array_text (map string_text rs))]"
  have "\<forall>v \<in> set (map string_text rs). quiet ''roles'' v" using assms(5) by (auto simp: quiet_string plain_def)
  from quiet_array [OF this] have "readable ''roles'' [(''roles'', array_text (map string_text rs))]"
    using assms(5) by (simp add: readable_def)
  from extract_object_strings [OF this] assms(5) have "extract_json_string_array ?ra ''roles'' = Inr rs" by simp
  moreover have "?ra \<noteq> []" "hd ?ra = CHR ''{''" by (simp_all add: object_text_def)
  ultimately have "extract_all_roles (object_text ms) = Inr (append_unique [] rs)"
    using assms(1-4) by (simp add: extract_all_roles_def extract_json_object_def readable_extract del: rbind_eq_Inr)
  then show ?thesis using append_unique_set [of "[]" rs] append_unique_distinct [of "[]" rs] by simp
qed

theorem roles_of_realm_access_witness:
  "\<exists>roles. extract_all_roles (object_text demo_roles) = Inr roles \<and> set roles = {''admin'', ''user''} \<and> distinct roles"
  using roles_of_realm_access [OF demo_roles_readable, of "[''user'', ''admin'', ''user'']"]
  by (auto simp: demo_roles_def plain_def)

text \<open>
  Splitting the text of a JSON array yields the texts of its elements, in order, whatever values
  they are (nested arrays and objects included).
\<close>

theorem json_array_elements:
  assumes "\<forall>v \<in> set vs. value_text v"
  shows "split_json_array_elements (array_text vs) = Inr vs"
  using assms by (rule split_array_text)

theorem json_array_elements_witness:
  "split_json_array_elements (array_text [string_text ''a,]'', array_text [string_text ''b'']]) =
     Inr [string_text ''a,]'', array_text [string_text ''b'']]"
  by (rule json_array_elements) (simp add: plain_def)

text \<open>
  A token response is a success exactly if its status is 2xx and its body has an access token as
  a JSON string; the result carries that token and the status of the response, and a failure
  carries no tokens.
\<close>

theorem token_response_reading:
  assumes "parse_token_response resp fallback = Inr r"
  shows "oa_http_status r = effective_status resp \<and>
    (oa_ok r \<longleftrightarrow> is_2xx (effective_status resp) \<and>
      (\<exists>tok. extract_json_string (resp_body resp) ''access_token'' = Inr (Some tok))) \<and>
    (oa_ok r \<longrightarrow> extract_json_string (resp_body resp) ''access_token'' = Inr (Some (access_token (oa_tokens r)))) \<and>
    (\<not> oa_ok r \<longrightarrow> oa_tokens r = empty_token_set)"
  using parse_token_response_sound [OF assms] by blast

theorem token_response_reading_witness:
  "extract_json_string (object_text demo_token_body) ''access_token'' = Inr (Some ''T'')"
  using token_response_reading [OF demo_token_response] by (simp add: demo_tokens_def)

text \<open>
  For a URL with a scheme, a host, an optional port and an absolute path, the request built for
  it prints back as that URL: parsing and printing are inverse to each other, port 1 to 65535 and
  query included.
\<close>

theorem request_url_roundtrip:
  assumes "url_parts_ok scheme host path" and "host \<noteq> []" and "blank_defaults lib"
  shows "map_sum id request_url (make_json_get lib (url_text scheme host port path query) tok) =
    Inr (url_text scheme host port path query)"
  using assms by (rule request_url_get)

theorem request_url_roundtrip_witness:
  "map_sum id request_url (make_json_get demo_http (url_text ''https'' ''k'' 8443 ''/a/b'' ''x=1'') None) =
     Inr (url_text ''https'' ''k'' 8443 ''/a/b'' ''x=1'')"
  by (rule request_url_roundtrip) (simp_all add: url_parts_ok_def demo_http_def)

text \<open>
  The scopes that a client requests as one string are recovered from that string by the splitter
  that reads the scope claim of a token.
\<close>

theorem scopes_roundtrip:
  assumes "\<forall>s \<in> set scopes. word_text s"
  shows "split_ws (join_scopes scopes) = scopes"
proof (cases scopes)
  case Nil
  then show ?thesis by (simp add: join_scopes_simps split_ws_def split_ws_loop.simps)
next
  case (Cons s r)
  then show ?thesis using split_ws_words [of s r] assms by (simp add: join_scopes_simps)
qed

theorem scopes_roundtrip_witness:
  "split_ws (join_scopes [''openid'', ''profile'', ''email'']) = [''openid'', ''profile'', ''email'']"
  by (rule scopes_roundtrip) (simp add: word_text_def isspace_def)

text \<open>
  Liveness answers 204, readiness and startup answer 204 when the service is running and 503
  before; if any call that the handler makes on the response throws, and setting the final status
  does not, the handler ends with status 500 instead.
\<close>

theorem probe_statuses:
  assumes "\<not> fails (P_status 500)"
  shows "final_status (liveness fails) = Some (if fails (P_status 204) then 500 else 204) \<and>
    final_status (readiness fails running) = final_status (startup fails running) \<and>
    final_status (readiness fails running) =
      Some (if \<exists>p \<in> set (if running then [P_status 204] else starting_ops). fails p then 500
            else if running then 204 else 503)"
  unfolding liveness_def readiness_def startup_def final_status_guarded [where fails = fails, OF assms]
  by (simp add: final_status_up final_status_starting)

theorem probe_statuses_witness:
  "final_status (readiness (\<lambda>p. p = P_message ''Service Starting'') False) = Some 500 \<and>
   final_status (liveness (\<lambda>p. p = P_message ''Service Starting'')) = Some 204"
  using conjunct1 [OF probe_statuses [of "\<lambda>p. p = P_message ''Service Starting''" False]]
    conjunct2 [OF conjunct2 [OF probe_statuses [of "\<lambda>p. p = P_message ''Service Starting''" False]]]
  by (simp add: starting_ops_def)

end
